(* ===== verification/Prelude.thy ===== *)
theory Prelude
  imports Main "HOL-Library.Word"
begin

text \<open>
  Shared vocabulary of the development: machine integers of the C++ and eBPF sources, thrown
  exceptions as values, the project's own \<^verbatim>\<open>ASSERT\<close> macro, byte order conversion, and the generic
  facts on lists, options and maps that the components use.
\<close>

unbundle bit_operations_syntax

section \<open>Machine integers\<close>

type_synonym u8 = "8 word"
type_synonym u16 = "16 word"
type_synonym u32 = "32 word"
type_synonym u64 = "64 word"

text \<open>\<^verbatim>\<open>htons\<close>/\<^verbatim>\<open>ntohs\<close> and \<^verbatim>\<open>htonl\<close>/\<^verbatim>\<open>ntohl\<close> on a little-endian host swap the bytes.\<close>

definition htons :: "u16 \<Rightarrow> u16" where
  "htons x = push_bit 8 x OR drop_bit 8 x"

definition htonl :: "u32 \<Rightarrow> u32" where
  "htonl x = push_bit 24 x OR (push_bit 8 x AND 0x00FF0000)
           OR (drop_bit 8 x AND 0x0000FF00) OR drop_bit 24 x"

text \<open>\<^verbatim>\<open>FD_INVALID\<close> of \<^verbatim>\<open>src/fd/fd_if.h\<close>, the descriptor that is none.\<close>

definition FD_INVALID :: int where "FD_INVALID = -1"

section \<open>Exceptions as values\<close>

text \<open>
  \<open>Except\<close> is the project's \<^verbatim>\<open>except::Exception\<close>, \<open>StdError\<close> any other
  \<^verbatim>\<open>std::exception\<close> (thrown by the JSON and YAML libraries), \<open>Abort\<close> the abort of a Debug
  build on a failed \<^verbatim>\<open>ASSERT\<close>, \<open>Crash\<close> undefined behaviour such as the null dereference that
  follows a failed \<^verbatim>\<open>ASSERT\<close> of a Release build, \<open>Diverge\<close> a call that does not return. The
  last three are not exceptions: no handler catches them.
\<close>

datatype exc = Except string | StdError string | Abort | Crash | Diverge

fun catchable :: "exc \<Rightarrow> bool" where
  "catchable (Except s) = True"
| "catchable (StdError s) = True"
| "catchable _ = False"

text \<open>The message, \<^verbatim>\<open>exc.what()\<close>.\<close>

definition exc_text :: "exc \<Rightarrow> string" where
  "exc_text e = (case e of Except s \<Rightarrow> s | StdError s \<Rightarrow> s | _ \<Rightarrow> '''')"

type_synonym 'a res = "exc + 'a"

fun res_bind :: "'a res \<Rightarrow> ('a \<Rightarrow> 'b res) \<Rightarrow> 'b res" where
  "res_bind (Inl e) f = Inl e"
| "res_bind (Inr x) f = f x"

fun res_map :: "('a \<Rightarrow> 'b res) \<Rightarrow> 'a list \<Rightarrow> 'b list res" where
  "res_map f [] = Inr []"
| "res_map f (x # xs) = res_bind (f x) (\<lambda>y. res_bind (res_map f xs) (\<lambda>ys. Inr (y # ys)))"

fun is_ok :: "'a res \<Rightarrow> bool" where
  "is_ok (Inl e) = False"
| "is_ok (Inr x) = True"

lemma res_bind_Inr_iff: "res_bind r f = Inr y \<longleftrightarrow> (\<exists>x. r = Inr x \<and> f x = Inr y)"
  by (cases r) auto

lemma res_bind_Inl_iff: "res_bind r f = Inl e \<longleftrightarrow> r = Inl e \<or> (\<exists>x. r = Inr x \<and> f x = Inl e)"
  by (cases r) auto

lemma res_map_all_Inr:
  "(\<And>x. x \<in> set xs \<Longrightarrow> f x = Inr (g x)) \<Longrightarrow> res_map f xs = Inr (map g xs)"
  by (induction xs) auto

lemma res_map_length: "res_map f xs = Inr ys \<Longrightarrow> length ys = length xs"
  by (induction xs arbitrary: ys) (auto simp: res_bind_Inr_iff)

section \<open>The ASSERT macro\<close>

text \<open>
  A Debug build aborts when the condition fails; a Release build (\<^verbatim>\<open>NDEBUG\<close>) prints a line to
  stderr and goes on with the statement that follows.
\<close>

datatype build = Debug | Release

definition hb_assert :: "build \<Rightarrow> bool \<Rightarrow> 'a res \<Rightarrow> 'a res" where
  "hb_assert b P k = (if P then k else (case b of Debug \<Rightarrow> Inl Abort | Release \<Rightarrow> k))"

lemma hb_assert_true [simp]: "P \<Longrightarrow> hb_assert b P k = k"
  by (simp add: hb_assert_def)

lemma hb_assert_release [simp]: "hb_assert Release P k = k"
  by (simp add: hb_assert_def)

lemma hb_assert_debug [simp]: "\<not> P \<Longrightarrow> hb_assert Debug P k = Inl Abort"
  by (simp add: hb_assert_def)

section \<open>Member functions that may throw\<close>

text \<open>
  A member function takes the object's state and gives its result, or the exception, together with
  the state it leaves behind: what was changed before a throw stays changed.
\<close>

type_synonym ('a, 's) st = "'s \<Rightarrow> 'a res \<times> 's"

definition st_ret :: "'a \<Rightarrow> ('a, 's) st" where
  "st_ret x s = (Inr x, s)"

definition st_throw :: "exc \<Rightarrow> ('a, 's) st" where
  "st_throw e s = (Inl e, s)"

definition st_get :: "('s \<Rightarrow> 'a) \<Rightarrow> ('a, 's) st" where
  "st_get f s = (Inr (f s), s)"

definition st_mod :: "('s \<Rightarrow> 's) \<Rightarrow> (unit, 's) st" where
  "st_mod f s = (Inr (), f s)"

definition st_res :: "'a res \<Rightarrow> ('a, 's) st" where
  "st_res r s = (r, s)"

definition st_bind :: "('a, 's) st \<Rightarrow> ('a \<Rightarrow> ('b, 's) st) \<Rightarrow> ('b, 's) st" where
  "st_bind m f s = (case m s of (Inl e, s') \<Rightarrow> (Inl e, s') | (Inr x, s') \<Rightarrow> f x s')"

definition st_assert :: "build \<Rightarrow> ('s \<Rightarrow> bool) \<Rightarrow> (unit, 's) st" where
  "st_assert b P s = (hb_assert b (P s) (Inr ()), s)"

text \<open>\<^verbatim>\<open>try { m } catch (const std::exception &) { h }\<close>\<close>

definition st_catch :: "('a, 's) st \<Rightarrow> (exc \<Rightarrow> ('a, 's) st) \<Rightarrow> ('a, 's) st" where
  "st_catch m h s =
     (case m s of
        (Inl e, s') \<Rightarrow> (if catchable e then h e s' else (Inl e, s'))
      | (Inr x, s') \<Rightarrow> (Inr x, s'))"

fun st_each :: "('a \<Rightarrow> (unit, 's) st) \<Rightarrow> 'a list \<Rightarrow> (unit, 's) st" where
  "st_each f [] = st_ret ()"
| "st_each f (x # xs) = st_bind (f x) (\<lambda>_. st_each f xs)"

lemmas st_simps =
  st_ret_def st_throw_def st_get_def st_mod_def st_res_def st_bind_def st_assert_def

lemma st_bind_Inr_iff:
  "st_bind m f s = (Inr y, t) \<longleftrightarrow> (\<exists>x s'. m s = (Inr x, s') \<and> f x s' = (Inr y, t))"
  by (auto simp: st_bind_def split: prod.split sum.split)

lemma st_bind_run:
  "m s = (Inr x, s') \<Longrightarrow> st_bind m f s = f x s'"
  "m s = (Inl e, s') \<Longrightarrow> st_bind m f s = (Inl e, s')"
  by (simp_all add: st_bind_def)

lemma st_bind_assoc: "st_bind (st_bind m f) g = st_bind m (\<lambda>x. st_bind (f x) g)"
  by (auto simp: st_bind_def fun_eq_iff split: prod.split sum.split)

lemma st_each_append: "st_each f (xs @ ys) = st_bind (st_each f xs) (\<lambda>_. st_each f ys)"
  by (induction xs) (auto simp: st_simps fun_eq_iff split: prod.split sum.split)

section \<open>What a call leaves alone\<close>

text \<open>\<open>st_keeps f m\<close>: the call leaves the part \<open>f\<close> of the state as it was, whether it returns or throws.\<close>

definition st_keeps :: "('s \<Rightarrow> 'v) \<Rightarrow> ('a, 's) st \<Rightarrow> bool" where
  "st_keeps f m \<longleftrightarrow> (\<forall>s. f (snd (m s)) = f s)"

named_theorems keeps \<open>calls that leave a part of the state alone\<close>

lemma st_keepsD: "st_keeps f m \<Longrightarrow> m s = (r, s') \<Longrightarrow> f s' = f s"
  by (metis st_keeps_def snd_conv)

lemma keeps_basic [keeps]:
  "st_keeps f (st_ret x)" "st_keeps f (st_throw e)" "st_keeps f (st_get g)" "st_keeps f (st_res r)"
  "st_keeps f (st_assert b P)"
  by (simp_all add: st_keeps_def st_simps)

lemma keeps_mod [keeps]: "(\<And>s. f (g s) = f s) \<Longrightarrow> st_keeps f (st_mod g)"
  by (simp add: st_keeps_def st_simps)

lemma keeps_bind [keeps]: "st_keeps f m \<Longrightarrow> (\<And>x. st_keeps f (g x)) \<Longrightarrow> st_keeps f (st_bind m g)"
  by (auto simp: st_keeps_def st_bind_def split: prod.split sum.split) (metis snd_conv)+

lemma keeps_if [keeps]: "st_keeps f m \<Longrightarrow> st_keeps f m' \<Longrightarrow> st_keeps f (if b then m else m')"
  by simp

lemma keeps_option [keeps]:
  "st_keeps f m \<Longrightarrow> (\<And>x. st_keeps f (g x)) \<Longrightarrow> st_keeps f (case z of None \<Rightarrow> m | Some x \<Rightarrow> g x)"
  by (cases z) simp_all

lemma keeps_prod [keeps]:
  "(\<And>x y. st_keeps f (g x y)) \<Longrightarrow> st_keeps f (case z of (x, y) \<Rightarrow> g x y)"
  by (cases z) simp

lemma keeps_catch [keeps]:
  "st_keeps f m \<Longrightarrow> (\<And>e. st_keeps f (h e)) \<Longrightarrow> st_keeps f (st_catch m h)"
  by (auto simp: st_keeps_def st_catch_def split: prod.split sum.split) (metis snd_conv)+

lemma keeps_each: "(\<And>x. st_keeps f (g x)) \<Longrightarrow> st_keeps f (st_each g xs)"
  by (induction xs) (auto intro: keeps)

section \<open>What a call preserves\<close>

text \<open>
  \<open>st_safe P m\<close>: from a state with \<open>P\<close> the call leaves one with \<open>P\<close>, whether it returns or throws something
  that a handler can catch; nothing is said of a process that ended.
\<close>

definition survives :: "'a res \<Rightarrow> bool" where
  "survives r \<longleftrightarrow> (\<forall>e. r = Inl e \<longrightarrow> catchable e)"

definition st_safe :: "('s \<Rightarrow> bool) \<Rightarrow> ('a, 's) st \<Rightarrow> bool" where
  "st_safe P m \<longleftrightarrow> (\<forall>s r s'. P s \<longrightarrow> m s = (r, s') \<longrightarrow> survives r \<longrightarrow> P s')"

named_theorems safe \<open>calls that preserve a property of the state\<close>

lemma survives_simps [simp]: "survives (Inr x)" "survives (Inl e) = catchable e"
  by (simp_all add: survives_def)

lemma st_safeD: "st_safe P m \<Longrightarrow> m s = (r, s') \<Longrightarrow> P s \<Longrightarrow> survives r \<Longrightarrow> P s'"
  by (auto simp: st_safe_def)

lemma safe_basic [safe]:
  "st_safe P (st_ret x)" "st_safe P (st_throw e)" "st_safe P (st_get g)" "st_safe P (st_res r)" "st_safe P (st_assert b Q)"
  by (simp_all add: st_safe_def st_simps)

lemma safe_mod: "(\<And>s. P s \<Longrightarrow> P (g s)) \<Longrightarrow> st_safe P (st_mod g)"
  by (simp add: st_safe_def st_simps)

lemma safe_bind [safe]: "st_safe P m \<Longrightarrow> (\<And>x. st_safe P (g x)) \<Longrightarrow> st_safe P (st_bind m g)"
proof (unfold st_safe_def, intro allI impI)
  fix s r s'
  assume m: "\<forall>s r s'. P s \<longrightarrow> m s = (r, s') \<longrightarrow> survives r \<longrightarrow> P s'"
    and g: "\<And>x. \<forall>s r s'. P s \<longrightarrow> g x s = (r, s') \<longrightarrow> survives r \<longrightarrow> P s'"
    and run: "P s" "st_bind m g s = (r, s')" "survives r"
  obtain q s1 where q: "m s = (q, s1)" by fastforce
  then show "P s'"
    using m [rule_format, OF run(1) q] g [rule_format, of s1 _ r s'] run(2,3)
    by (cases q) (auto simp: st_bind_def)
qed

lemma safe_if [safe]: "st_safe P m \<Longrightarrow> st_safe P m' \<Longrightarrow> st_safe P (if b then m else m')"
  by simp

lemma safe_option [safe]:
  "st_safe P m \<Longrightarrow> (\<And>x. st_safe P (g x)) \<Longrightarrow> st_safe P (case z of None \<Rightarrow> m | Some x \<Rightarrow> g x)"
  by (cases z) simp_all

lemma safe_catch [safe]: "st_safe P m \<Longrightarrow> (\<And>e. st_safe P (h e)) \<Longrightarrow> st_safe P (st_catch m h)"
proof (unfold st_safe_def, intro allI impI)
  fix s r s'
  assume m: "\<forall>s r s'. P s \<longrightarrow> m s = (r, s') \<longrightarrow> survives r \<longrightarrow> P s'"
    and h: "\<And>e. \<forall>s r s'. P s \<longrightarrow> h e s = (r, s') \<longrightarrow> survives r \<longrightarrow> P s'"
    and run: "P s" "st_catch m h s = (r, s')" "survives r"
  obtain q s1 where q: "m s = (q, s1)" by fastforce
  then show "P s'"
    using m [rule_format, OF run(1) q] h [rule_format, of s1 _ r s'] run(2,3)
    by (cases q) (auto simp: st_catch_def split: if_splits)
qed

lemma safe_each: "(\<And>x. x \<in> set xs \<Longrightarrow> st_safe P (g x)) \<Longrightarrow> st_safe P (st_each g xs)"
  by (induction xs) (auto intro: safe)

lemma safe_keeps: "st_keeps f m \<Longrightarrow> st_safe (\<lambda>s. P (f s)) m"
  by (simp add: st_safe_def) (metis st_keepsD)

section \<open>Byte order\<close>

lemma htons_htons [simp]: "htons (htons x) = x"
  unfolding htons_def by (rule bit_word_eqI) (auto simp: bit_simps)

lemma htons_inj: "htons x = htons y \<longleftrightarrow> x = y"
  by (metis htons_htons)

lemma htons_0 [simp]: "htons 0 = 0"
  by (simp add: htons_def)

lemma htons_eq_0 [simp]: "htons x = 0 \<longleftrightarrow> x = 0"
  by (metis htons_0 htons_inj)

section \<open>Lists and association lists\<close>

text \<open>An ordered map as an association list: replace in place, or append.\<close>

fun al_upd :: "'k \<Rightarrow> 'v \<Rightarrow> ('k \<times> 'v) list \<Rightarrow> ('k \<times> 'v) list" where
  "al_upd k v [] = [(k, v)]"
| "al_upd k v ((a, b) # ps) = (if a = k then (k, v) # ps else (a, b) # al_upd k v ps)"

definition al_del :: "'k \<Rightarrow> ('k \<times> 'v) list \<Rightarrow> ('k \<times> 'v) list" where
  "al_del k ps = filter (\<lambda>p. fst p \<noteq> k) ps"

named_theorems al_simps \<open>lookup, domain and distinctness of association list operations\<close>

lemma map_of_al_upd [al_simps]: "map_of (al_upd k v ps) = (map_of ps)(k \<mapsto> v)"
  by (induction ps) (auto simp: fun_eq_iff)

lemma map_of_al_del [al_simps]: "map_of (al_del k ps) = (map_of ps)(k := None)"
  by (induction ps) (auto simp: al_del_def fun_eq_iff)

lemma keys_al_upd [al_simps]:
  "map fst (al_upd k v ps) = (if k \<in> set (map fst ps) then map fst ps else map fst ps @ [k])"
  by (induction k v ps rule: al_upd.induct) auto

lemma keys_al_del [al_simps]: "map fst (al_del k ps) = filter (\<lambda>x. x \<noteq> k) (map fst ps)"
  by (induction ps) (auto simp: al_del_def)

lemma distinct_al_upd [al_simps]: "distinct (map fst (al_upd k v ps)) = distinct (map fst ps)"
  by (simp add: keys_al_upd)

lemma distinct_al_del [al_simps]: "distinct (map fst ps) \<Longrightarrow> distinct (map fst (al_del k ps))"
  by (simp add: keys_al_del)

lemma filter_neq_remove1: "distinct xs \<Longrightarrow> filter (\<lambda>x. x \<noteq> k) xs = remove1 k xs"
  by (induction xs) (auto simp: filter_id_conv)

end
