(* ===== verification/Enums.thy ===== *)
theory Enums
  imports Prelude
begin

text \<open>
  The enumerations of the sources and the name conversions of \<^verbatim>\<open>src/common/enum_name.hpp\<close>.
  The conversions are thin wrappers of magic_enum, whose whole input is the list of an enumeration's
  enumerators in declaration order; that list is their argument here.
\<close>

section \<open>enum\_name.hpp\<close>

type_synonym 'e enum_table = "('e \<times> string) list"

definition enumName :: "'e enum_table \<Rightarrow> 'e \<Rightarrow> string" where
  "enumName tbl e = (case map_of tbl e of None \<Rightarrow> '''' | Some n \<Rightarrow> n)"

definition enumNameList :: "'e enum_table \<Rightarrow> string list" where
  "enumNameList tbl = map (\<lambda>p. enumName tbl (fst p)) tbl"

definition stringEnum :: "'e enum_table \<Rightarrow> string \<Rightarrow> 'e option" where
  "stringEnum tbl s = map_option fst (find (\<lambda>p. snd p = s) tbl)"

text \<open>An enumeration: every value is listed once, and no two enumerators share a name.\<close>

locale enumeration =
  fixes tbl :: "'e enum_table"
  assumes all_listed: "e \<in> set (map fst tbl)"
    and values_distinct: "distinct (map fst tbl)"
    and names_distinct: "distinct (map snd tbl)"
begin

lemma listed: "\<exists>n. (e, n) \<in> set tbl"
  using all_listed [of e] by auto

lemma enumName_listed: "(e, n) \<in> set tbl \<Longrightarrow> enumName tbl e = n"
  using values_distinct by (simp add: enumName_def)

lemma find_by_name: "(e, n) \<in> set ps \<Longrightarrow> distinct (map snd ps) \<Longrightarrow>
    find (\<lambda>p. snd p = n) ps = Some (e, n)"
  by (induction ps) (auto simp: rev_image_eqI)

lemma string_of_name: "stringEnum tbl (enumName tbl e) = Some e"
  using listed [of e] find_by_name [OF _ names_distinct]
  by (auto simp: stringEnum_def enumName_listed)

lemma name_of_string: "stringEnum tbl s = Some e \<Longrightarrow> enumName tbl e = s"
  by (auto simp: stringEnum_def find_Some_iff intro!: enumName_listed) (metis nth_mem snd_conv)

lemma enumName_inj: "enumName tbl e = enumName tbl e' \<longleftrightarrow> e = e'"
  by (metis option.inject string_of_name)

lemma names_listed: "s \<in> set (enumNameList tbl) \<longleftrightarrow> stringEnum tbl s \<noteq> None"
proof -
  have "set (enumNameList tbl) = enumName tbl ` set (map fst tbl)"
    by (simp add: enumNameList_def image_image)
  also have "set (map fst tbl) = UNIV"
    using all_listed by blast
  finally have "s \<in> set (enumNameList tbl) \<longleftrightarrow> (\<exists>e. s = enumName tbl e)"
    by blast
  then show ?thesis
    using string_of_name name_of_string by fastforce
qed

end

section \<open>The enumerations\<close>

text \<open>\<^verbatim>\<open>daemon::HookType\<close> (configs.hpp)\<close>

datatype HookType = TC | XDP_GENERIC | XDP_NATIVE | XDP_OFFLOAD | KProbe | UNKNOWN

definition HookType_enum :: "HookType enum_table" where
  "HookType_enum =
     [(TC, ''TC''), (XDP_GENERIC, ''XDP_GENERIC''), (XDP_NATIVE, ''XDP_NATIVE''),
      (XDP_OFFLOAD, ''XDP_OFFLOAD''), (KProbe, ''KProbe''), (UNKNOWN, ''UNKNOWN'')]"

text \<open>The underlying \<^verbatim>\<open>uint8_t\<close> value, by which \<^verbatim>\<open>std::set<std::pair<HookType, int>>\<close> orders.\<close>

fun hook_num :: "HookType \<Rightarrow> nat" where
  "hook_num TC = 0"
| "hook_num XDP_GENERIC = 1"
| "hook_num XDP_NATIVE = 2"
| "hook_num XDP_OFFLOAD = 3"
| "hook_num KProbe = 4"
| "hook_num UNKNOWN = 5"

lemma hook_num_inj: "hook_num a = hook_num b \<longleftrightarrow> a = b"
  by (cases a; cases b) auto

instantiation HookType :: linorder
begin

definition less_eq_HookType :: "HookType \<Rightarrow> HookType \<Rightarrow> bool" where
  "less_eq_HookType a b \<longleftrightarrow> hook_num a \<le> hook_num b"

definition less_HookType :: "HookType \<Rightarrow> HookType \<Rightarrow> bool" where
  "less_HookType a b \<longleftrightarrow> hook_num a < hook_num b"

instance
  by standard (auto simp: less_eq_HookType_def less_HookType_def hook_num_inj)

end

interpretation hook_enum: enumeration HookType_enum
proof unfold_locales
  fix e
  show "e \<in> set (map fst HookType_enum)"
    by (cases e) (simp_all add: HookType_enum_def)
qed (simp_all add: HookType_enum_def)

text \<open>\<^verbatim>\<open>log::Level\<close> (logger.h)\<close>

datatype Level = trace | debug | info | warn | error | critical | off | MAXSIZE

definition Level_enum :: "Level enum_table" where
  "Level_enum =
     [(trace, ''trace''), (debug, ''debug''), (info, ''info''), (warn, ''warn''),
      (error, ''error''), (critical, ''critical''), (off, ''off''), (MAXSIZE, ''MAXSIZE'')]"

definition LOGLEVEL_DEFAULT :: Level where
  "LOGLEVEL_DEFAULT = info"

fun level_num :: "Level \<Rightarrow> nat" where
  "level_num trace = 0"
| "level_num debug = 1"
| "level_num info = 2"
| "level_num warn = 3"
| "level_num error = 4"
| "level_num critical = 5"
| "level_num off = 6"
| "level_num MAXSIZE = 7"

interpretation level_enum: enumeration Level_enum
proof unfold_locales
  fix e
  show "e \<in> set (map fst Level_enum)"
    by (cases e) (simp_all add: Level_enum_def)
qed (simp_all add: Level_enum_def)

end
