(* ===== verification/Json_If.thy ===== *)
theory Json_If
  imports Prelude
begin

text \<open>
  The calls into nlohmann::json, a library outside the repository: a record of operations over an
  unknown value type \<open>'j\<close>, the locale of what the sources rely on, and a small reference value
  type that instantiates it in the witnesses.
\<close>

record 'j json_ops =
  j_contains :: "'j \<Rightarrow> string \<Rightarrow> bool"
  j_at :: "'j \<Rightarrow> string \<Rightarrow> 'j res"
  j_get_string :: "'j \<Rightarrow> string res"
  j_get_u16 :: "'j \<Rightarrow> u16 res"
  j_get_array :: "'j \<Rightarrow> 'j list res"
  j_obj :: "(string \<times> 'j) list \<Rightarrow> 'j"
  j_str :: "string \<Rightarrow> 'j"
  j_u16 :: "u16 \<Rightarrow> 'j"
  j_arr :: "'j list \<Rightarrow> 'j"
  j_null :: "'j"

text \<open>
  The pattern \<^verbatim>\<open>if (json.contains(k)) { obj.set(json.at(k).get<T>()); }\<close> of every
  \<^verbatim>\<open>from_json\<close>: leave the object alone without the key, else convert and set.
\<close>

definition j_field :: "'j json_ops \<Rightarrow> 'j \<Rightarrow> string \<Rightarrow> ('j \<Rightarrow> 'a res) \<Rightarrow> ('a \<Rightarrow> 's \<Rightarrow> 's) \<Rightarrow>
    's \<Rightarrow> 's res" where
  "j_field J j k get upd s =
     (if j_contains J j k
      then res_bind (j_at J j k) (\<lambda>v. res_bind (get v) (\<lambda>x. Inr (upd x s)))
      else Inr s)"

locale json_lib =
  fixes J :: "'j json_ops"
  assumes contains_obj: "j_contains J (j_obj J kvs) k \<longleftrightarrow> k \<in> set (map fst kvs)"
    and at_obj: "map_of kvs k = Some v \<Longrightarrow> j_at J (j_obj J kvs) k = Inr v"
    and string_str: "j_get_string J (j_str J s) = Inr s"
    and u16_u16: "j_get_u16 J (j_u16 J n) = Inr n"
    and array_arr: "j_get_array J (j_arr J js) = Inr js"
    and contains_null: "\<not> j_contains J (j_null J) k"
begin

lemma field_present:
  "map_of kvs k = Some v \<Longrightarrow> get v = Inr x \<Longrightarrow> j_field J (j_obj J kvs) k get upd s = Inr (upd x s)"
  using map_of_SomeD [of kvs k v] by (auto simp: j_field_def contains_obj at_obj image_iff)

lemma field_absent: "k \<notin> set (map fst kvs) \<Longrightarrow> j_field J (j_obj J kvs) k get upd s = Inr s"
  by (simp add: j_field_def contains_obj)

lemma field_null: "j_field J (j_null J) k get upd s = Inr s"
  by (simp add: j_field_def contains_null)

end

section \<open>A reference value type\<close>

datatype json = JNull | JStr string | JU16 u16 | JArr "json list" | JObj "(string \<times> json) list"

fun json_contains :: "json \<Rightarrow> string \<Rightarrow> bool" where
  "json_contains (JObj kvs) k \<longleftrightarrow> k \<in> set (map fst kvs)"
| "json_contains _ k \<longleftrightarrow> False"

fun json_at :: "json \<Rightarrow> string \<Rightarrow> json res" where
  "json_at (JObj kvs) k = (case map_of kvs k of Some v \<Rightarrow> Inr v | None \<Rightarrow> Inl (StdError ''out_of_range''))"
| "json_at _ k = Inl (StdError ''type_error'')"

fun json_string :: "json \<Rightarrow> string res" where
  "json_string (JStr s) = Inr s"
| "json_string _ = Inl (StdError ''type_error'')"

fun json_u16 :: "json \<Rightarrow> u16 res" where
  "json_u16 (JU16 n) = Inr n"
| "json_u16 _ = Inl (StdError ''type_error'')"

fun json_array :: "json \<Rightarrow> json list res" where
  "json_array (JArr js) = Inr js"
| "json_array _ = Inl (StdError ''type_error'')"

definition ref_json :: "json json_ops" where
  "ref_json =
     \<lparr>j_contains = json_contains, j_at = json_at, j_get_string = json_string, j_get_u16 = json_u16,
      j_get_array = json_array, j_obj = JObj, j_str = JStr, j_u16 = JU16, j_arr = JArr,
      j_null = JNull\<rparr>"

lemma ref_json_sel [simp]:
  "j_contains ref_json = json_contains"
  "j_at ref_json = json_at"
  "j_get_string ref_json = json_string"
  "j_get_u16 ref_json = json_u16"
  "j_get_array ref_json = json_array"
  "j_obj ref_json = JObj"
  "j_str ref_json = JStr"
  "j_u16 ref_json = JU16"
  "j_arr ref_json = JArr"
  "j_null ref_json = JNull"
  by (simp_all add: ref_json_def)

interpretation refjson: json_lib ref_json
  by unfold_locales simp_all

end
