(* ===== verification/Acl_Rules.thy ===== *)
theory Acl_Rules
  imports Enums Json_If
begin

text \<open>
  \<^verbatim>\<open>src/services/acl/acl_rules.h\<close> and \<^verbatim>\<open>acl_rules.cc\<close>: one ACL rule, the rule set, their string and JSON
  conversions. Members lose their trailing underscore and carry a class prefix (\<^verbatim>\<open>saddr_\<close> is
  \<open>elem_saddr\<close>), here and in every other theory.
\<close>

section \<open>AclRulesElem\<close>

datatype Protocol = TCP | UDP | UNKNOWN

datatype Action = DROP | ACCEPT | UNKNOWN

definition Protocol_enum :: "Protocol enum_table" where
  "Protocol_enum = [(TCP, ''TCP''), (UDP, ''UDP''), (Protocol.UNKNOWN, ''UNKNOWN'')]"

definition Action_enum :: "Action enum_table" where
  "Action_enum = [(DROP, ''DROP''), (ACCEPT, ''ACCEPT''), (Action.UNKNOWN, ''UNKNOWN'')]"

interpretation proto_enum: enumeration Protocol_enum
proof unfold_locales
  fix e
  show "e \<in> set (map fst Protocol_enum)"
    by (cases e) (simp_all add: Protocol_enum_def)
qed (simp_all add: Protocol_enum_def)

interpretation action_enum: enumeration Action_enum
proof unfold_locales
  fix e
  show "e \<in> set (map fst Action_enum)"
    by (cases e) (simp_all add: Action_enum_def)
qed (simp_all add: Action_enum_def)

definition ACL_ANY_IPV4 :: string where
  "ACL_ANY_IPV4 = ''0.0.0.0''"

definition ACL_ANY_PORT :: u16 where
  "ACL_ANY_PORT = 0"

record AclRulesElem =
  elem_saddr :: string
  elem_daddr :: string
  elem_sport :: u16
  elem_dport :: u16
  elem_protocol :: Protocol
  elem_action :: Action

definition AclRulesElem_new :: AclRulesElem where
  "AclRulesElem_new =
     \<lparr>elem_saddr = ACL_ANY_IPV4, elem_daddr = ACL_ANY_IPV4, elem_sport = ACL_ANY_PORT, elem_dport = ACL_ANY_PORT,
      elem_protocol = TCP, elem_action = DROP\<rparr>"

definition setSaddr :: "string \<Rightarrow> AclRulesElem \<Rightarrow> AclRulesElem" where
  "setSaddr saddr e = e\<lparr>elem_saddr := saddr\<rparr>"

definition setDaddr :: "string \<Rightarrow> AclRulesElem \<Rightarrow> AclRulesElem" where
  "setDaddr daddr e = e\<lparr>elem_daddr := daddr\<rparr>"

definition setSport :: "u16 \<Rightarrow> AclRulesElem \<Rightarrow> AclRulesElem" where
  "setSport sport e = e\<lparr>elem_sport := sport\<rparr>"

definition setDport :: "u16 \<Rightarrow> AclRulesElem \<Rightarrow> AclRulesElem" where
  "setDport dport e = e\<lparr>elem_dport := dport\<rparr>"

definition setProtocol :: "Protocol \<Rightarrow> AclRulesElem \<Rightarrow> AclRulesElem" where
  "setProtocol protocol e = e\<lparr>elem_protocol := protocol\<rparr>"

definition setAction :: "Action \<Rightarrow> AclRulesElem \<Rightarrow> AclRulesElem" where
  "setAction action e = e\<lparr>elem_action := action\<rparr>"

text \<open>The getters, which the simplifier unfolds.\<close>

definition getSaddr :: "AclRulesElem \<Rightarrow> string" where [simp]: "getSaddr e = elem_saddr e"
definition getDaddr :: "AclRulesElem \<Rightarrow> string" where [simp]: "getDaddr e = elem_daddr e"
definition getSport :: "AclRulesElem \<Rightarrow> u16" where [simp]: "getSport e = elem_sport e"
definition getDport :: "AclRulesElem \<Rightarrow> u16" where [simp]: "getDport e = elem_dport e"
definition getProtocol :: "AclRulesElem \<Rightarrow> Protocol" where [simp]: "getProtocol e = elem_protocol e"
definition getAction :: "AclRulesElem \<Rightarrow> Action" where [simp]: "getAction e = elem_action e"

definition AclRulesElem_of :: "string \<Rightarrow> string \<Rightarrow> u16 \<Rightarrow> u16 \<Rightarrow> Protocol \<Rightarrow> Action \<Rightarrow> AclRulesElem" where
  "AclRulesElem_of saddr daddr sport dport protocol action =
     \<lparr>elem_saddr = saddr, elem_daddr = daddr, elem_sport = sport, elem_dport = dport,
      elem_protocol = protocol, elem_action = action\<rparr>"

lemmas acl_setters =
  setSaddr_def setDaddr_def setSport_def setDport_def setProtocol_def setAction_def

section \<open>Strings\<close>

definition stringToProtocol :: "string \<Rightarrow> Protocol" where
  "stringToProtocol protocol =
     (if protocol = ''tcp'' \<or> protocol = ''TCP'' then TCP
      else if protocol = ''udp'' \<or> protocol = ''UDP'' then UDP
      else Protocol.UNKNOWN)"

fun ProtocolToString :: "Protocol \<Rightarrow> string" where
  "ProtocolToString TCP = ''TCP''"
| "ProtocolToString UDP = ''UDP''"
| "ProtocolToString _ = ''UNKNOWN''"

definition stringToAction :: "string \<Rightarrow> Action" where
  "stringToAction action =
     (if action = ''accept'' \<or> action = ''ACCEPT'' then ACCEPT
      else if action = ''drop'' \<or> action = ''DROP'' then DROP
      else Action.UNKNOWN)"

fun ActionToString :: "Action \<Rightarrow> string" where
  "ActionToString ACCEPT = ''ACCEPT''"
| "ActionToString DROP = ''DROP''"
| "ActionToString _ = ''UNKNOWN''"

lemma stringToProtocol_ProtocolToString: "stringToProtocol (ProtocolToString p) = p"
  by (cases p) (simp_all add: stringToProtocol_def)

lemma stringToAction_ActionToString: "stringToAction (ActionToString a) = a"
  by (cases a) (simp_all add: stringToAction_def)

section \<open>JSON\<close>

text \<open>
  An unknown protocol or action name is not an error of the parse: it is logged and the field
  becomes \<open>UNKNOWN\<close>. A key of the wrong JSON type throws.
\<close>

definition protocol_of_name :: "string \<Rightarrow> Protocol" where
  "protocol_of_name s =
     (case stringEnum Protocol_enum s of Some p \<Rightarrow> p | None \<Rightarrow> Protocol.UNKNOWN)"

definition action_of_name :: "string \<Rightarrow> Action" where
  "action_of_name s = (case stringEnum Action_enum s of Some a \<Rightarrow> a | None \<Rightarrow> Action.UNKNOWN)"

definition AclRulesElem_from_json :: "'j json_ops \<Rightarrow> 'j \<Rightarrow> AclRulesElem \<Rightarrow> AclRulesElem res" where
  "AclRulesElem_from_json J json acl =
     res_bind (j_field J json ''saddr'' (j_get_string J) setSaddr acl) (\<lambda>acl.
     res_bind (j_field J json ''daddr'' (j_get_string J) setDaddr acl) (\<lambda>acl.
     res_bind (j_field J json ''sport'' (j_get_u16 J) setSport acl) (\<lambda>acl.
     res_bind (j_field J json ''dport'' (j_get_u16 J) setDport acl) (\<lambda>acl.
     res_bind (j_field J json ''protocol'' (j_get_string J)
                 (\<lambda>s. setProtocol (protocol_of_name s)) acl) (\<lambda>acl.
     j_field J json ''action'' (j_get_string J) (\<lambda>s. setAction (action_of_name s)) acl)))))"

definition AclRulesElem_to_json :: "'j json_ops \<Rightarrow> AclRulesElem \<Rightarrow> 'j" where
  "AclRulesElem_to_json J acl =
     j_obj J [(''saddr'', j_str J (getSaddr acl)), (''daddr'', j_str J (getDaddr acl)),
              (''sport'', j_u16 J (getSport acl)), (''dport'', j_u16 J (getDport acl)),
              (''protocol'', j_str J (enumName Protocol_enum (getProtocol acl))),
              (''action'', j_str J (enumName Action_enum (getAction acl)))]"

section \<open>AclRules\<close>

record AclRules =
  acl_rules :: "AclRulesElem list"

definition AclRules_new :: AclRules where
  "AclRules_new = \<lparr>acl_rules = []\<rparr>"

definition AclRules_of :: "AclRulesElem list \<Rightarrow> AclRules" where
  "AclRules_of rules = \<lparr>acl_rules = rules\<rparr>"

definition getRules :: "AclRules \<Rightarrow> AclRulesElem list" where [simp]: "getRules a = acl_rules a"

definition setRules :: "AclRulesElem list \<Rightarrow> AclRules \<Rightarrow> AclRules" where
  "setRules rules a = a\<lparr>acl_rules := rules\<rparr>"

definition addRules :: "AclRulesElem \<Rightarrow> AclRules \<Rightarrow> AclRules" where
  "addRules rule a = a\<lparr>acl_rules := acl_rules a @ [rule]\<rparr>"

definition clearRules :: "AclRules \<Rightarrow> AclRules" where
  "clearRules a = a\<lparr>acl_rules := []\<rparr>"

lemmas acl_ruleset_ops = AclRules_new_def setRules_def addRules_def clearRules_def

text \<open>\<^verbatim>\<open>get<std::vector<T>>\<close> converts every element with the \<^verbatim>\<open>from_json\<close> of \<open>T\<close>.\<close>

definition AclRules_from_json :: "'j json_ops \<Rightarrow> 'j \<Rightarrow> AclRules \<Rightarrow> AclRules res" where
  "AclRules_from_json J json acl =
     j_field J json ''rules''
       (\<lambda>v. res_bind (j_get_array J v) (res_map (\<lambda>j. AclRulesElem_from_json J j AclRulesElem_new)))
       setRules acl"

definition AclRules_to_json :: "'j json_ops \<Rightarrow> AclRules \<Rightarrow> 'j" where
  "AclRules_to_json J acl =
     j_obj J [(''rules'', j_arr J (map (AclRulesElem_to_json J) (getRules acl)))]"

section \<open>Round trip\<close>

lemma protocol_of_name_enumName [simp]: "protocol_of_name (enumName Protocol_enum p) = p"
  by (simp add: protocol_of_name_def proto_enum.string_of_name)

lemma action_of_name_enumName [simp]: "action_of_name (enumName Action_enum a) = a"
  by (simp add: action_of_name_def action_enum.string_of_name)

context json_lib
begin

lemma acl_elem_roundtrip: "AclRulesElem_from_json J (AclRulesElem_to_json J r) r0 = Inr r"
  by (simp add: AclRulesElem_from_json_def AclRulesElem_to_json_def j_field_def contains_obj at_obj
      string_str u16_u16 acl_setters)

lemma acl_elems_roundtrip:
  "res_map (\<lambda>j. AclRulesElem_from_json J j r0) (map (AclRulesElem_to_json J) rs) = Inr rs"
  by (induction rs) (simp_all add: acl_elem_roundtrip)

lemma acl_ruleset_roundtrip: "AclRules_from_json J (AclRules_to_json J a) a0 = Inr a"
  by (simp add: AclRules_from_json_def AclRules_to_json_def j_field_def contains_obj at_obj
      array_arr setRules_def acl_elems_roundtrip)

end

end
