(* ===== verification/Packet.thy ===== *)
theory Packet
  imports Prelude
begin

text \<open>
  What the packet programs (\<^verbatim>\<open>*.bpf.c\<close>) see of a packet: the bytes between \<^verbatim>\<open>data\<close> and
  \<^verbatim>\<open>data_end\<close>, and the fields of the Ethernet, IPv4, TCP and UDP headers at their offsets. A read
  gives \<open>None\<close> when it leaves the packet, so that staying inside is a theorem. Multi-byte
  fields are kept as the machine reads them (raw, little-endian host), as the C code does.
\<close>

type_synonym frame = "u8 list"

definition rd8 :: "frame \<Rightarrow> nat \<Rightarrow> u8 option" where
  "rd8 p i = (if i < length p then Some (p ! i) else None)"

definition rd16 :: "frame \<Rightarrow> nat \<Rightarrow> u16 option" where
  "rd16 p i =
     (if i + 1 < length p
      then Some (ucast (p ! i) OR push_bit 8 (ucast (p ! (i + 1)))) else None)"

definition rd32 :: "frame \<Rightarrow> nat \<Rightarrow> u32 option" where
  "rd32 p i =
     (if i + 3 < length p
      then Some (ucast (p ! i) OR push_bit 8 (ucast (p ! (i + 1)))
                 OR push_bit 16 (ucast (p ! (i + 2))) OR push_bit 24 (ucast (p ! (i + 3))))
      else None)"

named_theorems in_bounds \<open>reads that stay inside the packet\<close>

lemma rd8_in [in_bounds]: "i < length p \<Longrightarrow> rd8 p i \<noteq> None"
  by (simp add: rd8_def)

lemma rd16_in [in_bounds]: "i + 1 < length p \<Longrightarrow> rd16 p i \<noteq> None"
  by (simp add: rd16_def)

lemma rd32_in [in_bounds]: "i + 3 < length p \<Longrightarrow> rd32 p i \<noteq> None"
  by (simp add: rd32_def)

text \<open>Header sizes (\<^verbatim>\<open>sizeof\<close>) and the offsets of the fields used.\<close>

definition ETH_HLEN :: nat where "ETH_HLEN = 14"
definition IP_HLEN :: nat where "IP_HLEN = 20"
definition TCP_HLEN :: nat where "TCP_HLEN = 20"
definition UDP_HLEN :: nat where "UDP_HLEN = 8"

lemmas header_sizes = ETH_HLEN_def IP_HLEN_def TCP_HLEN_def UDP_HLEN_def

definition ETH_P_IP :: u16 where "ETH_P_IP = 0x0800"
definition IPPROTO_TCP :: u8 where "IPPROTO_TCP = 6"
definition IPPROTO_UDP :: u8 where "IPPROTO_UDP = 17"

definition h_proto :: "frame \<Rightarrow> u16 option" where "h_proto p = rd16 p 12"

text \<open>\<^verbatim>\<open>iphdr\<close> starts at \<open>ETH_HLEN\<close>; \<^verbatim>\<open>ihl\<close> is the low nibble of its first byte.\<close>

definition ip_ihl :: "frame \<Rightarrow> nat option" where
  "ip_ihl p = map_option (\<lambda>b. unat (b AND 15)) (rd8 p 14)"

definition ip_protocol :: "frame \<Rightarrow> u8 option" where "ip_protocol p = rd8 p 23"
definition ip_saddr :: "frame \<Rightarrow> u32 option" where "ip_saddr p = rd32 p 26"
definition ip_daddr :: "frame \<Rightarrow> u32 option" where "ip_daddr p = rd32 p 30"

definition l4_source :: "frame \<Rightarrow> nat \<Rightarrow> u16 option" where "l4_source p l4 = rd16 p l4"
definition l4_dest :: "frame \<Rightarrow> nat \<Rightarrow> u16 option" where "l4_dest p l4 = rd16 p (l4 + 2)"

lemmas header_fields =
  h_proto_def ip_ihl_def ip_protocol_def ip_saddr_def ip_daddr_def l4_source_def l4_dest_def

text \<open>Everything the programs read of the Ethernet and IPv4 headers, once both fit.\<close>

lemma ip_header_read:
  assumes "ETH_HLEN + IP_HLEN \<le> length p"
  obtains ep ihl proto sa da where "h_proto p = Some ep" "ip_ihl p = Some ihl"
    "ip_protocol p = Some proto" "ip_saddr p = Some sa" "ip_daddr p = Some da"
proof -
  from assms have "rd16 p 12 \<noteq> None" "rd8 p 14 \<noteq> None" "rd8 p 23 \<noteq> None"
    "rd32 p 26 \<noteq> None" "rd32 p 30 \<noteq> None"
    by (simp_all add: header_sizes in_bounds)
  with that show thesis
    by (auto simp: header_fields)
qed

lemma h_proto_read: "ETH_HLEN \<le> length p \<Longrightarrow> \<exists>x. h_proto p = Some x"
  using rd16_in [of 12 p] by (simp add: header_sizes header_fields)

lemma l4_ports_read:
  "l4 + UDP_HLEN \<le> length p \<or> l4 + TCP_HLEN \<le> length p \<Longrightarrow>
     (\<exists>x. l4_source p l4 = Some x) \<and> (\<exists>y. l4_dest p l4 = Some y)"
  using rd16_in [of l4 p] rd16_in [of "l4 + 2" p] by (auto simp: header_sizes header_fields)

text \<open>
  How a packet program ends: it returns a verdict, or runs \<^verbatim>\<open>CHAIN_NEXT\<close> and returns the verdict
  only when the tail call does not happen.
\<close>

datatype 'r outcome = Return 'r | Chain_then 'r

datatype tc_act = TC_ACT_OK | TC_ACT_SHOT

datatype xdp_act = XDP_PASS | XDP_DROP | XDP_TX

end
