(* ===== verification/Acl_Datapath.thy ===== *)
theory Acl_Datapath
  imports Packet
begin

text \<open>
  The two packet filters \<^verbatim>\<open>acl.bpf.c\<close> (TC ingress) and \<^verbatim>\<open>acl_xdp.bpf.c\<close> (generic XDP). The rule
  map is an argument, the function \<open>lookup\<close> of \<^verbatim>\<open>bpf_map_lookup_elem(&hebpf_krules_acl, .)\<close>.
  What they log is in Packet\_Log. \<open>None\<close> is an access outside the packet.
\<close>

section \<open>The rule key (acl.bpf.h)\<close>

record ipv4_tuple =
  tup_saddr :: u32
  tup_daddr :: u32
  tup_sport :: u16
  tup_dport :: u16
  tup_protocol :: u8
  tup_padding :: u8

definition ACL_ACTION_ALLOW :: u32 where "ACL_ACTION_ALLOW = 0"
definition ACL_ACTION_DENY :: u32 where "ACL_ACTION_DENY = 1"
definition ANY_PORT :: u16 where "ANY_PORT = 0"

section \<open>The programs\<close>

text \<open>
  The ports: \<open>Some None\<close> is the early \<^verbatim>\<open>return\<close> of a packet that is neither TCP nor UDP or
  too short, \<open>Some (Some (source, dest))\<close> the values \<^verbatim>\<open>origin_src_port\<close> and
  \<^verbatim>\<open>tuple.dport\<close> hold after the \<^verbatim>\<open>if\<close>. The first test asks for room for a TCP header
  whatever the protocol is, and the protocol is tested inside it.
\<close>

definition acl_ports :: "frame \<Rightarrow> u8 \<Rightarrow> nat \<Rightarrow> (u16 \<times> u16) option option" where
  "acl_ports p proto l4 =
     (if proto = IPPROTO_TCP \<or> proto = IPPROTO_UDP
      then (if l4 + TCP_HLEN \<le> length p
            then (if proto = IPPROTO_TCP
                  then Option.bind (l4_source p l4) (\<lambda>s.
                       Option.bind (l4_dest p l4) (\<lambda>d. Some (Some (s, d))))
                  else Some (Some (0, 0)))
            else if l4 + UDP_HLEN \<le> length p
            then (if proto = IPPROTO_UDP
                  then Option.bind (l4_source p l4) (\<lambda>s.
                       Option.bind (l4_dest p l4) (\<lambda>d. Some (Some (s, d))))
                  else Some (Some (0, 0)))
            else Some None)
      else Some None)"

text \<open>First with the wildcard source port, then with the packet's own.\<close>

definition acl_action :: "(ipv4_tuple \<Rightarrow> u32 option) \<Rightarrow> ipv4_tuple \<Rightarrow> u16 \<Rightarrow> u32 option" where
  "acl_action lookup tup origin_src_port =
     (case lookup (tup\<lparr>tup_sport := ANY_PORT\<rparr>) of
        Some a \<Rightarrow> Some a
      | None \<Rightarrow> lookup (tup\<lparr>tup_sport := origin_src_port\<rparr>))"

definition hebpf_acl_tc_ingress ::
  "(ipv4_tuple \<Rightarrow> u32 option) \<Rightarrow> u16 \<Rightarrow> frame \<Rightarrow> tc_act outcome option" where
  "hebpf_acl_tc_ingress lookup skb_protocol p =
     (if skb_protocol \<noteq> htons ETH_P_IP then Some (Return TC_ACT_OK)
      else if ETH_HLEN > length p then Some (Return TC_ACT_OK)
      else if ETH_HLEN + IP_HLEN > length p then Some (Return TC_ACT_OK)
      else
        Option.bind (ip_saddr p) (\<lambda>saddr.
        Option.bind (ip_daddr p) (\<lambda>daddr.
        Option.bind (ip_protocol p) (\<lambda>proto.
        Option.bind (ip_ihl p) (\<lambda>ihl.
        Option.bind (acl_ports p proto (ETH_HLEN + ihl * 4)) (\<lambda>ports.
          case ports of
            None \<Rightarrow> Some (Return TC_ACT_OK)
          | Some (src, dst) \<Rightarrow>
              (let tup = \<lparr>tup_saddr = saddr, tup_daddr = daddr, tup_sport = ANY_PORT,
                          tup_dport = dst, tup_protocol = proto, tup_padding = 0\<rparr>
               in if acl_action lookup tup src = Some ACL_ACTION_DENY
                  then Some (Return TC_ACT_SHOT)
                  else Some (Chain_then TC_ACT_OK))))))))"

definition hebpf_acl_xdp_generic ::
  "(ipv4_tuple \<Rightarrow> u32 option) \<Rightarrow> frame \<Rightarrow> xdp_act outcome option" where
  "hebpf_acl_xdp_generic lookup p =
     (if ETH_HLEN > length p then Some (Return XDP_PASS)
      else
        Option.bind (h_proto p) (\<lambda>eth_proto.
        if eth_proto \<noteq> htons ETH_P_IP then Some (Return XDP_PASS)
        else if ETH_HLEN + IP_HLEN > length p then Some (Return XDP_PASS)
        else
          Option.bind (ip_saddr p) (\<lambda>saddr.
          Option.bind (ip_daddr p) (\<lambda>daddr.
          Option.bind (ip_protocol p) (\<lambda>proto.
          Option.bind (ip_ihl p) (\<lambda>ihl.
          Option.bind (acl_ports p proto (ETH_HLEN + ihl * 4)) (\<lambda>ports.
            case ports of
              None \<Rightarrow> Some (Return XDP_PASS)
            | Some (src, dst) \<Rightarrow>
                (let tup = \<lparr>tup_saddr = saddr, tup_daddr = daddr, tup_sport = ANY_PORT,
                            tup_dport = dst, tup_protocol = proto, tup_padding = 0\<rparr>
                 in if acl_action lookup tup src = Some ACL_ACTION_DENY
                    then Some (Return XDP_DROP)
                    else Some (Chain_then XDP_PASS)))))))))"

section \<open>Abstract filter\<close>

text \<open>
  What a packet is to the filter: nothing (not IPv4, not TCP or UDP, too short), or a tuple with
  the packet's source port beside it. The reference classification is total: it does not read.
\<close>

definition acl_classify :: "frame \<Rightarrow> (ipv4_tuple \<times> u16) option" where
  "acl_classify p =
     (if ETH_HLEN + IP_HLEN > length p then None
      else
        let proto = the (ip_protocol p); l4 = ETH_HLEN + the (ip_ihl p) * 4;
            tup = (\<lambda>d. \<lparr>tup_saddr = the (ip_saddr p), tup_daddr = the (ip_daddr p),
                        tup_sport = ANY_PORT, tup_dport = d, tup_protocol = proto,
                        tup_padding = 0\<rparr>)
        in if proto = IPPROTO_TCP \<and> l4 + TCP_HLEN \<le> length p
              \<or> proto = IPPROTO_UDP \<and> l4 + UDP_HLEN \<le> length p \<and> \<not> l4 + TCP_HLEN \<le> length p
           then Some (tup (the (l4_dest p l4)), the (l4_source p l4))
           else if (proto = IPPROTO_TCP \<or> proto = IPPROTO_UDP) \<and> l4 + UDP_HLEN \<le> length p
           then Some (tup 0, 0)
           else None)"

definition acl_denies :: "(ipv4_tuple \<Rightarrow> u32 option) \<Rightarrow> frame \<Rightarrow> bool" where
  "acl_denies lookup p =
     (case acl_classify p of
        None \<Rightarrow> False
      | Some (tup, src) \<Rightarrow> acl_action lookup tup src = Some ACL_ACTION_DENY)"

lemma tcp_udp_differ [simp]: "IPPROTO_TCP \<noteq> IPPROTO_UDP" "IPPROTO_UDP \<noteq> IPPROTO_TCP"
  by (simp_all add: IPPROTO_TCP_def IPPROTO_UDP_def)

lemma acl_ports_total: "acl_ports p proto l4 \<noteq> None"
  using l4_ports_read [of l4 p] by (auto simp: acl_ports_def)

text \<open>The classification is what the program computes, read by read.\<close>

lemma classify_short: "ETH_HLEN + IP_HLEN > length p \<Longrightarrow> acl_classify p = None"
  by (simp add: acl_classify_def)

lemma classify_ports:
  assumes "ETH_HLEN + IP_HLEN \<le> length p"
    and f: "ip_saddr p = Some sa" "ip_daddr p = Some da" "ip_protocol p = Some proto" "ip_ihl p = Some ihl"
  shows "acl_classify p =
    (case the (acl_ports p proto (ETH_HLEN + ihl * 4)) of
       None \<Rightarrow> None
     | Some (src, dst) \<Rightarrow>
         Some (\<lparr>tup_saddr = sa, tup_daddr = da, tup_sport = ANY_PORT, tup_dport = dst,
                tup_protocol = proto, tup_padding = 0\<rparr>, src))"
proof -
  let ?l4 = "ETH_HLEN + ihl * 4"
  have imp: "?l4 + TCP_HLEN \<le> length p \<Longrightarrow> ?l4 + UDP_HLEN \<le> length p"
    by (simp add: header_sizes)
  show ?thesis
  proof (cases "?l4 + UDP_HLEN \<le> length p")
    case True
    then obtain s d where "l4_source p ?l4 = Some s" "l4_dest p ?l4 = Some d"
      using l4_ports_read [of ?l4 p] by blast
    with True assms(1) imp show ?thesis
      by (auto simp: acl_classify_def acl_ports_def f Let_def)
  next
    case False
    with assms(1) imp show ?thesis
      by (auto simp: acl_classify_def acl_ports_def f Let_def)
  qed
qed

lemma tc_refines:
  "hebpf_acl_tc_ingress lookup (htons ETH_P_IP) p =
     Some (case acl_classify p of
             None \<Rightarrow> Return TC_ACT_OK
           | Some _ \<Rightarrow> if acl_denies lookup p then Return TC_ACT_SHOT else Chain_then TC_ACT_OK)"
proof (cases "ETH_HLEN + IP_HLEN \<le> length p")
  case False
  then show ?thesis
    by (simp add: hebpf_acl_tc_ingress_def classify_short)
next
  case True
  then obtain sa da proto ihl where f: "ip_saddr p = Some sa" "ip_daddr p = Some da"
    "ip_protocol p = Some proto" "ip_ihl p = Some ihl"
    by (auto elim: ip_header_read)
  obtain r where r: "acl_ports p proto (ETH_HLEN + ihl * 4) = Some r"
    using acl_ports_total by fastforce
  show ?thesis
    using True classify_ports [OF True f]
    by (cases r)
       (auto simp: hebpf_acl_tc_ingress_def f r acl_denies_def split: option.splits)
qed

lemma xdp_refines:
  "hebpf_acl_xdp_generic lookup p =
     Some (if ETH_HLEN \<le> length p \<and> h_proto p = Some (htons ETH_P_IP)
           then (case acl_classify p of
                   None \<Rightarrow> Return XDP_PASS
                 | Some _ \<Rightarrow> if acl_denies lookup p then Return XDP_DROP else Chain_then XDP_PASS)
           else Return XDP_PASS)"
proof (cases "ETH_HLEN + IP_HLEN \<le> length p")
  case False
  then show ?thesis
    using h_proto_read [of p] by (auto simp: hebpf_acl_xdp_generic_def classify_short)
next
  case True
  then obtain ep sa da proto ihl where f: "h_proto p = Some ep" "ip_saddr p = Some sa"
    "ip_daddr p = Some da" "ip_protocol p = Some proto" "ip_ihl p = Some ihl"
    by (auto elim: ip_header_read)
  obtain r where r: "acl_ports p proto (ETH_HLEN + ihl * 4) = Some r"
    using acl_ports_total by fastforce
  show ?thesis
    using True classify_ports [OF True f(2-5)]
    by (cases r)
       (auto simp: hebpf_acl_xdp_generic_def f r acl_denies_def split: option.splits)
qed

section \<open>Properties\<close>

text \<open>
  Claim C8. The TC filter never reads outside the packet, for any packet, any rule map and any
  \<^verbatim>\<open>skb->protocol\<close>, and it drops exactly the IPv4 packets that the abstract filter denies.
\<close>

theorem acl_tc_safe_correct:
  "\<exists>v. hebpf_acl_tc_ingress lookup proto p = Some v \<and>
       (v = Return TC_ACT_SHOT \<longleftrightarrow> proto = htons ETH_P_IP \<and> acl_denies lookup p)"
proof (cases "proto = htons ETH_P_IP")
  case True
  then show ?thesis
    by (auto simp: tc_refines acl_denies_def split: option.split)
next
  case False
  then show ?thesis by (simp add: hebpf_acl_tc_ingress_def)
qed

text \<open>
  Claim C27. The XDP filter never reads outside the packet, and it drops exactly the packets with an
  IPv4 Ethernet type that the abstract filter denies.
\<close>

theorem acl_xdp_safe_correct:
  "\<exists>v. hebpf_acl_xdp_generic lookup p = Some v \<and>
       (v = Return XDP_DROP \<longleftrightarrow> h_proto p = Some (htons ETH_P_IP) \<and> acl_denies lookup p)"
proof (cases "ETH_HLEN \<le> length p")
  case True
  then show ?thesis
    by (auto simp: xdp_refines acl_denies_def split: option.split)
next
  case False
  then have "acl_classify p = None"
    by (intro classify_short) simp
  with False show ?thesis
    by (simp add: xdp_refines acl_denies_def)
qed

text \<open>
  Claim C28. The two filters agree: on a frame whose Ethernet type is the \<^verbatim>\<open>skb->protocol\<close> the TC
  program is given, one drops exactly when the other does.
\<close>

theorem acl_tc_xdp_agree:
  assumes "h_proto p = Some proto"
  shows "hebpf_acl_tc_ingress lookup proto p = Some (Return TC_ACT_SHOT) \<longleftrightarrow>
         hebpf_acl_xdp_generic lookup p = Some (Return XDP_DROP)"
proof -
  have "ETH_HLEN \<le> length p"
    using assms by (auto simp: header_fields rd16_def header_sizes split: if_splits)
  note len = this
  show ?thesis
  proof (cases "proto = htons ETH_P_IP")
    case True
    with len assms show ?thesis
      by (auto simp: tc_refines xdp_refines split: option.splits)
  next
    case False
    then have "hebpf_acl_tc_ingress lookup proto p = Some (Return TC_ACT_OK)"
      by (simp add: hebpf_acl_tc_ingress_def)
    with False assms show ?thesis
      by (simp add: xdp_refines)
  qed
qed

text \<open>A TCP segment and a UDP datagram for the witnesses: 10.0.0.1:1234 to 10.0.0.2:80.\<close>

definition demo_frame :: "u8 \<Rightarrow> nat \<Rightarrow> frame" where
  "demo_frame proto n =
     [0, 0, 0, 0, 0, 0, 0, 0, 0, 0, 0, 0, 0x08, 0x00]
     @ [0x45, 0, 0, 0, 0, 0, 0, 0, 64, proto, 0, 0, 10, 0, 0, 1, 10, 0, 0, 2]
     @ [0x04, 0xD2, 0x00, 80] @ replicate n 0"

lemmas demo_eval = demo_frame_def header_fields header_sizes rd8_def rd16_def rd32_def

lemma demo_consts:
  "htons ETH_P_IP = 8" "htons 80 = 0x5000" "htons 1234 = 0xD204"
  "IPPROTO_TCP = 6" "IPPROTO_UDP = 17"
  by (simp_all add: htons_def ETH_P_IP_def IPPROTO_TCP_def IPPROTO_UDP_def)

lemma demo_fields:
  "h_proto (demo_frame pr n) = Some 8" "ip_protocol (demo_frame pr n) = Some pr"
  "ip_ihl (demo_frame pr n) = Some 5" "ip_saddr (demo_frame pr n) = Some 0x0100000A"
  "ip_daddr (demo_frame pr n) = Some 0x0200000A" "l4_source (demo_frame pr n) 34 = Some 0xD204"
  "l4_dest (demo_frame pr n) 34 = Some 0x5000" "length (demo_frame pr n) = 38 + n"
  by (simp_all add: demo_eval)

theorem acl_tc_xdp_agree_witness:
  "hebpf_acl_tc_ingress (\<lambda>t. Some ACL_ACTION_DENY) (htons ETH_P_IP) (demo_frame IPPROTO_TCP 16)
     = Some (Return TC_ACT_SHOT) \<longleftrightarrow>
   hebpf_acl_xdp_generic (\<lambda>t. Some ACL_ACTION_DENY) (demo_frame IPPROTO_TCP 16) = Some (Return XDP_DROP)"
  by (rule acl_tc_xdp_agree) (simp add: demo_fields demo_consts)

text \<open>
  A TCP segment with a whole TCP header is looked up with its own destination port, first
  under the wildcard source port and then, only when that finds nothing, under its own source port.
\<close>

theorem acl_tcp_lookup_order:
  assumes "ETH_HLEN + IP_HLEN \<le> length p" and "ip_protocol p = Some IPPROTO_TCP"
    and "ip_ihl p = Some ihl" and "ETH_HLEN + ihl * 4 + TCP_HLEN \<le> length p"
    and "ip_saddr p = Some sa" and "ip_daddr p = Some da"
    and "l4_source p (ETH_HLEN + ihl * 4) = Some sp" and "l4_dest p (ETH_HLEN + ihl * 4) = Some dp"
    and key: "\<And>s. key s = \<lparr>tup_saddr = sa, tup_daddr = da, tup_sport = s, tup_dport = dp,
                            tup_protocol = IPPROTO_TCP, tup_padding = 0\<rparr>"
  shows "hebpf_acl_tc_ingress lookup (htons ETH_P_IP) p =
    Some (if lookup (key 0) = Some ACL_ACTION_DENY
             \<or> lookup (key 0) = None \<and> lookup (key sp) = Some ACL_ACTION_DENY
          then Return TC_ACT_SHOT else Chain_then TC_ACT_OK)"
proof -
  have "acl_classify p = Some (key 0, sp)"
    using assms by (simp add: acl_classify_def key ANY_PORT_def)
  then show ?thesis
    by (simp add: tc_refines acl_denies_def acl_action_def key ANY_PORT_def split: option.split)
qed

theorem acl_tcp_lookup_order_witness:
  "hebpf_acl_tc_ingress (\<lambda>t. if tup_dport t = htons 80 then Some ACL_ACTION_DENY else None)
     (htons ETH_P_IP) (demo_frame IPPROTO_TCP 16) = Some (Return TC_ACT_SHOT)"
  by (subst acl_tcp_lookup_order [where ihl = "5" and sa = "0x0100000A" and da = "0x0200000A"
        and sp = "0xD204" and dp = "0x5000", OF _ _ _ _ _ _ _ _ refl])
     (simp_all add: demo_fields demo_consts header_sizes)

text \<open>
  The size test of the filters comes before the protocol test, so a UDP datagram with at
  least 20 bytes behind its IP header never has its ports read: it is looked up with both ports 0,
  and unless a rule with destination port 0 denies it, it passes whatever its ports are.
\<close>

theorem acl_udp_ports_ignored:
  assumes "ETH_HLEN + IP_HLEN \<le> length p" and "ip_protocol p = Some IPPROTO_UDP"
    and "ip_ihl p = Some ihl" and "ETH_HLEN + ihl * 4 + TCP_HLEN \<le> length p"
    and "ip_saddr p = Some sa" and "ip_daddr p = Some da"
    and "lookup \<lparr>tup_saddr = sa, tup_daddr = da, tup_sport = 0, tup_dport = 0,
                 tup_protocol = IPPROTO_UDP, tup_padding = 0\<rparr> \<noteq> Some ACL_ACTION_DENY"
  shows "hebpf_acl_tc_ingress lookup (htons ETH_P_IP) p = Some (Chain_then TC_ACT_OK)"
proof -
  have "acl_classify p = Some (\<lparr>tup_saddr = sa, tup_daddr = da, tup_sport = 0, tup_dport = 0,
          tup_protocol = IPPROTO_UDP, tup_padding = 0\<rparr>, 0)"
    using assms by (simp add: acl_classify_def ANY_PORT_def header_sizes)
  then show ?thesis
    using assms(7)
    by (auto simp: tc_refines acl_denies_def acl_action_def ANY_PORT_def split: option.split)
qed

theorem acl_udp_ports_ignored_witness:
  "hebpf_acl_tc_ingress (\<lambda>t. if tup_dport t = htons 80 then Some ACL_ACTION_DENY else None)
     (htons ETH_P_IP) (demo_frame IPPROTO_UDP 16) = Some (Chain_then TC_ACT_OK)"
  by (rule acl_udp_ports_ignored [where ihl = "5" and sa = "0x0100000A" and da = "0x0200000A"])
     (simp_all add: demo_fields demo_consts header_sizes)

end
