(* ===== verification/Std_Lib.thy ===== *)
theory Std_Lib
  imports Prelude
begin

text \<open>
  The C library functions on strings that the services use: \<^verbatim>\<open>std::string::c_str\<close>,
  \<^verbatim>\<open>inet_pton(AF_INET, .)\<close>, and \<^verbatim>\<open>sscanf\<close> with the format
  \<^verbatim>\<open>"%hhx:%hhx:%hhx:%hhx:%hhx:%hhx"\<close>.
\<close>

definition NUL :: char where "NUL = CHR 0x00"

definition c_str :: "string \<Rightarrow> string" where
  "c_str s = takeWhile (\<lambda>c. c \<noteq> NUL) s"

definition is_digit :: "char \<Rightarrow> bool" where
  "is_digit c \<longleftrightarrow> c \<in> set ''0123456789''"

definition char_code :: "char \<Rightarrow> nat" where
  "char_code c = of_char c"

definition digit_val :: "char \<Rightarrow> nat" where
  "digit_val c = char_code c - 48"

section \<open>inet\_pton\<close>

text \<open>
  Four decimal octets without leading zeros and with single dots between them. \<open>os\<close> are the
  finished octets, \<open>cur\<close> the octet being read (\<open>None\<close>: no digit of it yet).
\<close>

fun pton_loop :: "string \<Rightarrow> nat list \<Rightarrow> nat option \<Rightarrow> nat list option" where
  "pton_loop [] os None = None"
| "pton_loop [] os (Some v) = (if length os = 3 then Some (os @ [v]) else None)"
| "pton_loop (c # cs) os cur =
     (if is_digit c
      then (case cur of
              None \<Rightarrow> if length os \<ge> 4 then None else pton_loop cs os (Some (digit_val c))
            | Some v \<Rightarrow>
                if v = 0 \<or> v * 10 + digit_val c > 255 then None
                else pton_loop cs os (Some (v * 10 + digit_val c)))
      else if c = CHR ''.''
      then (case cur of
              None \<Rightarrow> None
            | Some v \<Rightarrow> if length os = 3 then None else pton_loop cs (os @ [v]) None)
      else None)"

text \<open>The address as it lies in memory (network order), read as a little-endian word.\<close>

fun addr_of_octets :: "nat list \<Rightarrow> u32" where
  "addr_of_octets [a, b, c, d] =
     of_nat a OR push_bit 8 (of_nat b) OR push_bit 16 (of_nat c) OR push_bit 24 (of_nat d)"
| "addr_of_octets _ = 0"

definition inet_pton4 :: "string \<Rightarrow> u32 option" where
  "inet_pton4 s = map_option addr_of_octets (pton_loop (c_str s) [] None)"

lemma pton_loop_octets:
  "pton_loop s os cur = Some r \<Longrightarrow> length os \<le> 3 \<Longrightarrow> \<forall>v \<in> set os. v \<le> 255 \<Longrightarrow>
   (\<forall>v. cur = Some v \<longrightarrow> v \<le> 255) \<Longrightarrow> length r = 4 \<and> (\<forall>v \<in> set r. v \<le> 255)"
proof (induction s os cur rule: pton_loop.induct)
  case (3 c cs os cur)
  have "is_digit c \<Longrightarrow> digit_val c \<le> 255"
    by (auto simp: is_digit_def digit_val_def char_code_def)
  with 3 show ?case
    by (auto split: if_splits option.splits)
qed (auto split: if_splits)

section \<open>sscanf for a MAC address\<close>

definition is_space :: "char \<Rightarrow> bool" where
  "is_space c \<longleftrightarrow> char_code c = 32 \<or> 9 \<le> char_code c \<and> char_code c \<le> 13"

definition hex_val :: "char \<Rightarrow> nat option" where
  "hex_val c =
     (let n = char_code c in
      if 48 \<le> n \<and> n \<le> 57 then Some (n - 48)
      else if 97 \<le> n \<and> n \<le> 102 then Some (n - 87)
      else if 65 \<le> n \<and> n \<le> 70 then Some (n - 55)
      else None)"

fun hex_digits :: "string \<Rightarrow> nat list \<times> string" where
  "hex_digits [] = ([], [])"
| "hex_digits (c # cs) =
     (case hex_val c of
        None \<Rightarrow> ([], c # cs)
      | Some d \<Rightarrow> (let (ds, rest) = hex_digits cs in (d # ds, rest)))"

definition hex_number :: "nat list \<Rightarrow> int" where
  "hex_number ds = foldl (\<lambda>a d. 16 * a + int d) 0 ds"

text \<open>
  One \<^verbatim>\<open>%hhx\<close>: white space, an optional sign, an optional \<^verbatim>\<open>0x\<close>, at least one hexadecimal digit;
  the value is taken as \<^verbatim>\<open>unsigned long\<close> (with its largest value on overflow) and cut to a byte.
\<close>

definition scan_hhx :: "string \<Rightarrow> (u8 \<times> string) option" where
  "scan_hhx s =
     (let s1 = dropWhile is_space s;
          neg = (s1 \<noteq> [] \<and> hd s1 = CHR ''-'');
          s2 = (if s1 \<noteq> [] \<and> (hd s1 = CHR ''-'' \<or> hd s1 = CHR ''+'') then tl s1 else s1);
          s3 = (if take 2 s2 = ''0x'' \<or> take 2 s2 = ''0X'' then drop 2 s2 else s2);
          (ds, rest) = hex_digits s3;
          v = hex_number ds
      in if ds = [] then None
         else Some (if v \<ge> 2 ^ 64 then 255 else if neg then - of_int v else of_int v, rest))"

text \<open>
  The six conversions with their colons: how many were assigned, and the six bytes, of which those
  not assigned keep the value the buffer had.
\<close>

fun scan_mac_from :: "string \<Rightarrow> u8 list \<Rightarrow> nat \<times> u8 list" where
  "scan_mac_from s [] = (0, [])"
| "scan_mac_from s (b # bs) =
     (case scan_hhx s of
        None \<Rightarrow> (0, b # bs)
      | Some (v, rest) \<Rightarrow>
          (if bs = [] then (1, [v])
           else case rest of
                  c # rest' \<Rightarrow>
                    (if c = CHR '':''
                     then let (n, vs) = scan_mac_from rest' bs in (n + 1, v # vs)
                     else (1, v # bs))
                | [] \<Rightarrow> (1, v # bs)))"

definition sscanf_mac :: "string \<Rightarrow> u8 list \<Rightarrow> nat \<times> u8 list" where
  "sscanf_mac s buf = scan_mac_from (c_str s) buf"

lemma scan_mac_length: "scan_mac_from s buf = (n, vs) \<Longrightarrow> length vs = length buf \<and> n \<le> length buf"
  by (induction s buf arbitrary: n vs rule: scan_mac_from.induct)
     (auto split: option.splits list.splits if_splits prod.splits)

lemma scan_mac_prefix: "scan_mac_from s buf = (n, vs) \<Longrightarrow> drop n vs = drop n buf"
  by (induction s buf arbitrary: n vs rule: scan_mac_from.induct)
     (auto split: option.splits list.splits if_splits prod.splits)

lemma scan_mac_complete:
  "scan_mac_from s buf = (length buf, vs) \<Longrightarrow> length buf' = length buf \<Longrightarrow>
     scan_mac_from s buf' = (length buf, vs)"
proof (induction s buf arbitrary: vs buf' rule: scan_mac_from.induct)
  case (2 s b bs)
  obtain b' bs' where b': "buf' = b' # bs'" and len: "length bs' = length bs"
    using "2.prems"(2) by (cases buf') auto
  obtain v rest where v: "scan_hhx s = Some (v, rest)"
    using "2.prems"(1) by (auto split: option.splits)
  show ?case
  proof (cases "bs = []")
    case True
    with "2.prems"(1) b' len v show ?thesis by simp
  next
    case False
    with "2.prems"(1) v obtain rest' where r: "rest = CHR '':'' # rest'"
      by (auto split: list.splits if_splits)
    obtain n ws where ws: "scan_mac_from rest' bs = (n, ws)" by fastforce
    have n: "n = length bs" "vs = v # ws"
      using "2.prems"(1) v r False ws by simp_all
    have "scan_mac_from rest' bs' = (length bs, ws)"
      using "2.IH" [OF v refl False r refl, of ws bs'] ws n len by simp
    with b' v r False n len show ?thesis by auto
  qed
qed simp

text \<open>The bytes of a MAC address text with all six conversions, whatever the buffer held.\<close>

definition mac_bytes :: "string \<Rightarrow> u8 list option" where
  "mac_bytes s = (let (n, vs) = sscanf_mac s (replicate 6 0) in if n = 6 then Some vs else None)"

lemma sscanf_mac_buffer:
  "length buf = 6 \<Longrightarrow> length buf' = 6 \<Longrightarrow> sscanf_mac s buf = (6, vs) \<Longrightarrow> sscanf_mac s buf' = (6, vs)"
  using scan_mac_complete [of "c_str s" buf vs buf'] by (simp add: sscanf_mac_def)

lemma sscanf_mac_ok:
  "length buf = 6 \<Longrightarrow> mac_bytes s = Some vs \<Longrightarrow> sscanf_mac s buf = (6, vs)"
  by (rule sscanf_mac_buffer [of "replicate 6 0"])
     (auto simp: mac_bytes_def split: prod.splits if_splits)

lemma sscanf_mac_bad:
  assumes "length buf = 6" and "mac_bytes s = None"
  shows "fst (sscanf_mac s buf) \<noteq> 6"
proof
  assume "fst (sscanf_mac s buf) = 6"
  then have "sscanf_mac s (replicate 6 0) = (6, snd (sscanf_mac s buf))"
    using sscanf_mac_buffer [of buf "replicate 6 0" s] assms(1) by (simp add: prod_eq_iff)
  with assms(2) show False by (simp add: mac_bytes_def)
qed

section \<open>Decimal numbers\<close>

fun dec_digits :: "nat \<Rightarrow> nat list" where
  "dec_digits n = (if n < 10 then [n] else dec_digits (n div 10) @ [n mod 10])"

declare dec_digits.simps [simp del]

definition digit_char :: "nat \<Rightarrow> char" where
  "digit_char d = ''0123456789'' ! d"

definition string_of_nat :: "nat \<Rightarrow> string" where
  "string_of_nat n = map digit_char (dec_digits n)"

definition string_of_int :: "int \<Rightarrow> string" where
  "string_of_int i = (if i < 0 then CHR ''-'' # string_of_nat (nat (- i)) else string_of_nat (nat i))"

definition dec_number :: "nat list \<Rightarrow> nat" where
  "dec_number ds = foldl (\<lambda>a d. 10 * a + d) 0 ds"

lemma dec_digits_small: "d \<in> set (dec_digits n) \<Longrightarrow> d < 10"
  by (induction n rule: dec_digits.induct) (subst (asm) dec_digits.simps, auto split: if_splits)

lemma dec_number_digits [simp]: "dec_number (dec_digits n) = n"
proof (induction n rule: dec_digits.induct)
  case (1 n)
  then show ?case
    by (cases "n < 10") (simp_all add: dec_digits.simps [of n] dec_number_def)
qed

lemma digit_char_val:
  assumes "d < 10" shows "digit_val (digit_char d) = d"
proof -
  have "\<forall>d \<in> set [0 ..< 10]. digit_val (digit_char d) = d" by code_simp
  with assms show ?thesis by simp
qed

lemma digit_val_string: "map digit_val (string_of_nat n) = dec_digits n"
  unfolding string_of_nat_def map_map
  by (rule map_idI) (simp add: digit_char_val dec_digits_small)

lemma string_of_nat_inj: "string_of_nat m = string_of_nat n \<longleftrightarrow> m = n"
  by (metis digit_val_string dec_number_digits)

lemma string_of_nat_nonempty: "string_of_nat n \<noteq> []"
  by (simp add: string_of_nat_def dec_digits.simps [of n])

lemma string_of_nat_digits:
  assumes "c \<in> set (string_of_nat n)" shows "is_digit c"
proof -
  obtain d where "c = digit_char d" "d < 10"
    using assms dec_digits_small by (auto simp: string_of_nat_def)
  moreover have "d < 10 \<Longrightarrow> digit_char d \<in> set ''0123456789''"
    unfolding digit_char_def by (rule nth_mem) simp
  ultimately show ?thesis by (simp add: is_digit_def)
qed

text \<open>\<^verbatim>\<open>fmt::format("{:#x}", n)\<close>\<close>

fun hex_digits_of :: "nat \<Rightarrow> nat list" where
  "hex_digits_of n = (if n < 16 then [n] else hex_digits_of (n div 16) @ [n mod 16])"

declare hex_digits_of.simps [simp del]

definition hex_string :: "nat \<Rightarrow> string" where
  "hex_string n = ''0x'' @ map (\<lambda>d. ''0123456789abcdef'' ! d) (hex_digits_of n)"

end
