(* ===== verification/Kernel_Maps.thy ===== *)
theory Kernel_Maps
  imports Prelude
begin

text \<open>
  The bpf(2) map calls the user-space sources make. The kernel is not part of the repository, so
  the calls are a record of operations over an unknown kernel state \<open>'w\<close>, passed to every
  definition that uses them; the locales state their documented behaviour. The two key-walking
  loops of the sources (collect, then delete; and delete while walking) are modelled here because
  the ACL service, the load balancer and the program map share them.
\<close>

section \<open>The calls\<close>

text \<open>
  \<open>m_lookup\<close> is \<^verbatim>\<open>bpf_map_lookup_elem\<close> (\<open>None\<close> for a nonzero return),
  \<open>m_update\<close> is \<^verbatim>\<open>bpf_map_update_elem\<close> with \<^verbatim>\<open>BPF_ANY\<close> (\<open>True\<close> for a zero return),
  \<open>m_delete\<close> is \<^verbatim>\<open>bpf_map_delete_elem\<close> (its result is never read by the sources),
  \<open>m_next\<close> is \<^verbatim>\<open>bpf_map_get_next_key\<close> (\<open>None\<close> as the key is the null pointer).
\<close>

record ('w, 'k, 'v) map_ops =
  m_lookup :: "'w \<Rightarrow> int \<Rightarrow> 'k \<Rightarrow> 'v option"
  m_update :: "'w \<Rightarrow> int \<Rightarrow> 'k \<Rightarrow> 'v \<Rightarrow> bool \<times> 'w"
  m_delete :: "'w \<Rightarrow> int \<Rightarrow> 'k \<Rightarrow> 'w"
  m_next :: "'w \<Rightarrow> int \<Rightarrow> 'k option \<Rightarrow> 'k option"

section \<open>The key-walking loops\<close>

text \<open>
  \<^verbatim>\<open>do { keys.push_back(k); } while (bpf_map_get_next_key(fd, &k, &k) == 0);\<close>
  \<open>None\<close> stands for a loop that does not end.
\<close>

partial_function (option) collect_from ::
  "('w, 'k, 'v) map_ops \<Rightarrow> 'w \<Rightarrow> int \<Rightarrow> 'k \<Rightarrow> 'k list \<Rightarrow> 'k list option" where
  "collect_from ops w fd k acc =
     (case m_next ops w fd (Some k) of
        None \<Rightarrow> Some (acc @ [k])
      | Some k' \<Rightarrow> collect_from ops w fd k' (acc @ [k]))"

definition collect_keys :: "('w, 'k, 'v) map_ops \<Rightarrow> 'w \<Rightarrow> int \<Rightarrow> 'k list option" where
  "collect_keys ops w fd =
     (case m_next ops w fd None of
        None \<Rightarrow> Some []
      | Some k \<Rightarrow> collect_from ops w fd k [])"

definition delete_keys :: "('w, 'k, 'v) map_ops \<Rightarrow> int \<Rightarrow> 'k list \<Rightarrow> 'w \<Rightarrow> 'w" where
  "delete_keys ops fd ks w = fold (\<lambda>k w. m_delete ops w fd k) ks w"

text \<open>
  \<^verbatim>\<open>while (bpf_map_get_next_key(fd, &key, &next) == 0) { delete(next); key = next; }\<close>
\<close>

partial_function (option) drain_from ::
  "('w, 'k, 'v) map_ops \<Rightarrow> int \<Rightarrow> 'w \<Rightarrow> 'k \<Rightarrow> 'w option" where
  "drain_from ops fd w k =
     (case m_next ops w fd (Some k) of
        None \<Rightarrow> Some w
      | Some n \<Rightarrow> drain_from ops fd (m_delete ops w fd n) n)"

declare drain_from.simps [code]

text \<open>The same walk without the deletion: the keys it visits.\<close>

partial_function (option) walk_from ::
  "('w, 'k, 'v) map_ops \<Rightarrow> 'w \<Rightarrow> int \<Rightarrow> 'k \<Rightarrow> 'k list \<Rightarrow> 'k list option" where
  "walk_from ops w fd k acc =
     (case m_next ops w fd (Some k) of
        None \<Rightarrow> Some acc
      | Some n \<Rightarrow> walk_from ops w fd n (acc @ [n]))"

section \<open>Documented behaviour of a hash map\<close>

text \<open>
  \<open>keys w\<close> is the iteration order of the map behind \<open>fd\<close>: \<^verbatim>\<open>get_next_key\<close> with the null
  pointer or with a key that is not in the map gives the first key, with a key of the map its
  successor; deletion keeps the order of the others.
\<close>

locale bpf_hash =
  fixes ops :: "('w, 'k, 'v) map_ops"
    and fd :: int
    and keys :: "'w \<Rightarrow> 'k list"
  assumes keys_distinct: "distinct (keys w)"
    and keys_lookup: "k \<in> set (keys w) \<longleftrightarrow> m_lookup ops w fd k \<noteq> None"
    and next_first: "m_next ops w fd None = (case keys w of [] \<Rightarrow> None | x # _ \<Rightarrow> Some x)"
    and next_absent: "k \<notin> set (keys w) \<Longrightarrow> m_next ops w fd (Some k) = m_next ops w fd None"
    and next_present: "keys w = xs @ k # ys \<Longrightarrow>
      m_next ops w fd (Some k) = (case ys of [] \<Rightarrow> None | y # _ \<Rightarrow> Some y)"
    and keys_delete: "keys (m_delete ops w fd k) = remove1 k (keys w)"
    and lookup_delete:
      "m_lookup ops (m_delete ops w fd k) fd k' = (if k' = k then None else m_lookup ops w fd k')"
    and lookup_update: "m_update ops w fd k v = (True, w') \<Longrightarrow>
      m_lookup ops w' fd k' = (if k' = k then Some v else m_lookup ops w fd k')"
    and update_fail: "m_update ops w fd k v = (False, w') \<Longrightarrow>
      m_lookup ops w' fd k' = m_lookup ops w fd k'"
begin

lemma collect_from_suffix:
  "keys w = xs @ k # ys \<Longrightarrow> collect_from ops w fd k acc = Some (acc @ k # ys)"
proof (induction ys arbitrary: xs k acc)
  case Nil
  then show ?case
    by (simp add: collect_from.simps [of ops w fd k] next_present [of w xs k "[]"])
next
  case (Cons y ys)
  have "keys w = (xs @ [k]) @ y # ys"
    using Cons.prems by simp
  then have "collect_from ops w fd y (acc @ [k]) = Some ((acc @ [k]) @ y # ys)"
    by (rule Cons.IH)
  then show ?case
    using Cons.prems
    by (simp add: collect_from.simps [of ops w fd k] next_present [of w xs k "y # ys"])
qed

lemma collect_keys_eq: "collect_keys ops w fd = Some (keys w)"
  using collect_from_suffix [of w "[]"]
  by (cases "keys w") (simp_all add: collect_keys_def next_first)

lemma walk_from_suffix:
  "keys w = xs @ k # ys \<Longrightarrow> walk_from ops w fd k acc = Some (acc @ ys)"
proof (induction ys arbitrary: xs k acc)
  case Nil
  then show ?case
    by (simp add: walk_from.simps [of ops w fd k] next_present [of w xs k "[]"])
next
  case (Cons y ys)
  have "keys w = (xs @ [k]) @ y # ys"
    using Cons.prems by simp
  from Cons.IH [OF this, of "acc @ [y]"] show ?case
    using Cons.prems
    by (simp add: walk_from.simps [of ops w fd k] next_present [of w xs k "y # ys"])
qed

lemma walk_from_absent: "k \<notin> set (keys w) \<Longrightarrow> walk_from ops w fd k [] = Some (keys w)"
  using walk_from_suffix [of w "[]"]
  by (cases "keys w") (simp_all add: walk_from.simps [of ops w fd k] next_absent next_first)

lemma delete_keys_lookup:
  "m_lookup ops (delete_keys ops fd ks w) fd k = (if k \<in> set ks then None else m_lookup ops w fd k)"
  by (induction ks arbitrary: w) (auto simp: delete_keys_def lookup_delete)

lemma delete_all_keys: "m_lookup ops (delete_keys ops fd (keys w) w) fd k = None"
  using keys_lookup [of k w] by (auto simp: delete_keys_lookup)

lemma drain_from_absent:
  "k \<notin> set (keys w) \<Longrightarrow> \<exists>w'. drain_from ops fd w k = Some w' \<and> keys w' = []"
proof (induction "keys w" arbitrary: w k)
  case Nil
  then show ?case
    using next_absent [of k w] by (simp add: drain_from.simps [of ops fd w k] next_first)
next
  case (Cons n ns)
  let ?w = "m_delete ops w fd n"
  have nxt: "m_next ops w fd (Some k) = Some n"
    using Cons.hyps(2) [symmetric] Cons.prems next_absent [of k w] by (simp add: next_first)
  have kw: "keys ?w = ns"
    using Cons.hyps(2) [symmetric] by (simp add: keys_delete)
  have "n \<notin> set (keys ?w)"
    using Cons.hyps(2) keys_distinct [of w] kw by (metis distinct.simps(2))
  then have "\<exists>w'. drain_from ops fd ?w n = Some w' \<and> keys w' = []"
    by (rule Cons.hyps(1) [OF kw [symmetric]])
  then show ?case
    by (simp add: drain_from.simps [of ops fd w k] nxt)
qed

lemma empty_keys_lookup: "keys w = [] \<Longrightarrow> m_lookup ops w fd k = None"
  using keys_lookup [of k w] by auto

end

text \<open>A bounded map: an existing key, or a new one while there is room, is always stored.\<close>

locale bpf_hash_cap = bpf_hash ops fd keys
  for ops :: "('w, 'k, 'v) map_ops" and fd :: int and keys :: "'w \<Rightarrow> 'k list" +
  fixes cap :: nat
  assumes update_room:
    "k \<in> set (keys w) \<or> length (keys w) < cap \<Longrightarrow> fst (m_update ops w fd k v)"
    and update_full:
    "k \<notin> set (keys w) \<Longrightarrow> cap \<le> length (keys w) \<Longrightarrow> \<not> fst (m_update ops w fd k v)"
begin

lemma update_keys: "m_update ops w fd k v = (True, w') \<Longrightarrow> set (keys w') = insert k (set (keys w))"
  using keys_lookup lookup_update by (auto simp: set_eq_iff split: if_splits)

lemma update_keys_length:
  assumes "m_update ops w fd k v = (True, w')"
  shows "length (keys w') \<le> Suc (length (keys w))"
proof -
  have "card (set (keys w')) \<le> Suc (card (set (keys w)))"
    by (simp add: update_keys [OF assms] card_insert_if)
  then show ?thesis
    by (simp add: distinct_card keys_distinct)
qed

lemma update_outcome:
  "fst (m_update ops w fd k v) \<longleftrightarrow> k \<in> set (keys w) \<or> length (keys w) < cap"
  using update_room [of k w v] update_full [of k w v] by (meson not_less)

end

section \<open>A reference kernel map\<close>

text \<open>
  A bounded map that behaves as the locales say: per file descriptor an association list, of which
  the first pair of each key counts. It instantiates the parameters in the witnesses; no other
  statement rests on it.
\<close>

type_synonym ('k, 'v) ref_world = "int \<Rightarrow> ('k \<times> 'v) list"

fun succ_of :: "'k \<Rightarrow> 'k list \<Rightarrow> 'k option" where
  "succ_of k [] = None"
| "succ_of k [x] = None"
| "succ_of k (x # y # zs) = (if x = k then Some y else succ_of k (y # zs))"

definition ref_keys :: "int \<Rightarrow> ('k, 'v) ref_world \<Rightarrow> 'k list" where
  "ref_keys fd w = remdups (map fst (w fd))"

definition ref_next :: "('k, 'v) ref_world \<Rightarrow> int \<Rightarrow> 'k option \<Rightarrow> 'k option" where
  "ref_next w fd ko =
     (case ref_keys fd w of
        [] \<Rightarrow> None
      | x # xs \<Rightarrow>
          (case ko of
             None \<Rightarrow> Some x
           | Some k \<Rightarrow> (if k \<in> set (x # xs) then succ_of k (x # xs) else Some x)))"

definition ref_ops :: "nat \<Rightarrow> (('k, 'v) ref_world, 'k, 'v) map_ops" where
  "ref_ops cap =
     \<lparr>m_lookup = (\<lambda>w fd k. map_of (w fd) k),
      m_update = (\<lambda>w fd k v.
        if k \<in> set (ref_keys fd w) \<or> length (ref_keys fd w) < cap
        then (True, w(fd := al_upd k v (w fd))) else (False, w)),
      m_delete = (\<lambda>w fd k. w(fd := al_del k (w fd))),
      m_next = ref_next\<rparr>"

lemma ref_ops_sel [simp]:
  "m_lookup (ref_ops cap) w fd k = map_of (w fd) k"
  "m_update (ref_ops cap) w fd k v =
     (if k \<in> set (ref_keys fd w) \<or> length (ref_keys fd w) < cap
      then (True, w(fd := al_upd k v (w fd))) else (False, w))"
  "m_delete (ref_ops cap) w fd k = w(fd := al_del k (w fd))"
  "m_next (ref_ops cap) = ref_next"
  by (simp_all add: ref_ops_def)

lemma succ_of_split:
  "k \<notin> set xs \<Longrightarrow> succ_of k (xs @ k # ys) = (case ys of [] \<Rightarrow> None | y # _ \<Rightarrow> Some y)"
proof (induction xs)
  case Nil
  then show ?case by (cases ys) auto
next
  case (Cons x xs)
  then show ?case by (cases xs) auto
qed

lemma distinct_ref_keys [simp]: "distinct (ref_keys fd w)"
  by (simp add: ref_keys_def)

lemma ref_next_present:
  assumes "ref_keys fd w = xs @ k # ys"
  shows "ref_next w fd (Some k) = (case ys of [] \<Rightarrow> None | y # _ \<Rightarrow> Some y)"
proof -
  have "k \<notin> set xs"
    using distinct_ref_keys [of fd w] assms by simp
  then have "succ_of k (ref_keys fd w) = (case ys of [] \<Rightarrow> None | y # _ \<Rightarrow> Some y)"
    by (simp add: assms succ_of_split)
  moreover have "k \<in> set (ref_keys fd w)"
    using assms by simp
  ultimately show ?thesis
    unfolding ref_next_def by (cases "ref_keys fd w") auto
qed

lemma ref_next_absent: "k \<notin> set (ref_keys fd w) \<Longrightarrow> ref_next w fd (Some k) = ref_next w fd None"
  by (auto simp: ref_next_def split: list.splits)

lemma ref_keys_del: "ref_keys fd (w(fd := al_del k (w fd))) = remove1 k (ref_keys fd w)"
  by (simp add: ref_keys_def keys_al_del flip: remdups_filter filter_neq_remove1)

lemma ref_keys_lookup: "k \<in> set (ref_keys fd w) \<longleftrightarrow> map_of (w fd) k \<noteq> None"
  by (simp add: ref_keys_def map_of_eq_None_iff)

lemma ref_next_None: "ref_next w fd None = (case ref_keys fd w of [] \<Rightarrow> None | x # _ \<Rightarrow> Some x)"
  by (simp add: ref_next_def split: list.split)

interpretation refmap: bpf_hash_cap "ref_ops cap" fd "ref_keys fd" cap
  for cap :: nat and fd :: int
  by unfold_locales
    (auto simp: ref_keys_del ref_next_present ref_next_absent ref_next_None ref_keys_lookup al_simps
      split: if_splits)

end
