(* ===== verification/Ebpf_Skel.thy ===== *)
theory Ebpf_Skel
  imports Enums Kernel_Maps Json_If
begin

text \<open>
  \<^verbatim>\<open>src/ebpf/ebpf_if.h\<close> and \<^verbatim>\<open>ebpf_if.tpp\<close>: the life cycle every eBPF service inherits. The
  skeleton type that libbpf's generator produces is not in the repository; its static functions are
  the record \<open>skel_ops\<close> over an unknown kernel state. A weak pointer to the I/O module is the
  identity of the module or null, and \<open>alive\<close> tells whether it can still be locked.
\<close>

record ('w, 's) skel_ops =
  sk_open :: "'w \<Rightarrow> 's option \<times> 'w"
  sk_load :: "'w \<Rightarrow> 's \<Rightarrow> int \<times> 'w"
  sk_attach :: "'w \<Rightarrow> 's \<Rightarrow> int \<times> 'w"
  sk_detach :: "'w \<Rightarrow> 's \<Rightarrow> 'w"
  sk_destroy :: "'w \<Rightarrow> 's \<Rightarrow> 'w"
  sk_map_fd :: "'s \<Rightarrow> string \<Rightarrow> int"
  sk_prog_fd :: "'s \<Rightarrow> string \<Rightarrow> int"

record ('w, 's) EbpfSkelIf =
  kernel :: 'w
  skel :: "'s option"
  io_ctx :: "nat option"

text \<open>Operations of the base class; each works on any extension of its state.\<close>

definition skel_is_set :: "('w, 's, 'z) EbpfSkelIf_scheme \<Rightarrow> bool" where
  "skel_is_set s \<longleftrightarrow> skel s \<noteq> None"

text \<open>The constructors, and the move assignment of an object from another one.\<close>

definition EbpfSkelIf_new :: "'w \<Rightarrow> 's option \<Rightarrow> ('w, 's) EbpfSkelIf" where
  "EbpfSkelIf_new w sk = \<lparr>kernel = w, skel = sk, io_ctx = None\<rparr>"

definition EbpfSkelIf_move :: "('w, 's, 'z) EbpfSkelIf_scheme \<Rightarrow> ('w, 's) EbpfSkelIf \<times> ('w, 's, 'z) EbpfSkelIf_scheme" where
  "EbpfSkelIf_move other = (EbpfSkelIf_new (kernel other) (skel other), other\<lparr>skel := None\<rparr>)"

definition skel_move :: "('w, 's, 'z) EbpfSkelIf_scheme \<Rightarrow> ('w, 's, 'z) EbpfSkelIf_scheme \<Rightarrow>
    ('w, 's, 'z) EbpfSkelIf_scheme \<times> ('w, 's, 'z) EbpfSkelIf_scheme" where
  "skel_move this other = (this\<lparr>skel := skel other\<rparr>, other\<lparr>skel := None\<rparr>)"

definition skel_open :: "('w, 's) skel_ops \<Rightarrow> (unit, ('w, 's, 'z) EbpfSkelIf_scheme) st" where
  "skel_open K s =
     (if skel s = None
      then let (sk, w) = sk_open K (kernel s) in (Inr (), s\<lparr>skel := sk, kernel := w\<rparr>)
      else (Inr (), s))"

text \<open>The common shape of the calls that need the skeleton: \<^verbatim>\<open>ASSERT\<close>, then the dereference.\<close>

definition with_skel :: "build \<Rightarrow> ('s \<Rightarrow> ('a, ('w, 's, 'z) EbpfSkelIf_scheme) st) \<Rightarrow>
    ('a, ('w, 's, 'z) EbpfSkelIf_scheme) st" where
  "with_skel b f s =
     (case skel s of
        Some sk \<Rightarrow> f sk s
      | None \<Rightarrow> (hb_assert b False (Inl Crash), s))"

definition skel_load :: "build \<Rightarrow> ('w, 's) skel_ops \<Rightarrow> (unit, ('w, 's, 'z) EbpfSkelIf_scheme) st" where
  "skel_load b K =
     with_skel b (\<lambda>sk s.
       let (r, w) = sk_load K (kernel s) sk
       in (if r < 0 then Inl (Except ''Failed to load BPF program'') else Inr (), s\<lparr>kernel := w\<rparr>))"

definition skel_attach :: "build \<Rightarrow> ('w, 's) skel_ops \<Rightarrow> (unit, ('w, 's, 'z) EbpfSkelIf_scheme) st" where
  "skel_attach b K =
     with_skel b (\<lambda>sk s.
       let (r, w) = sk_attach K (kernel s) sk
       in (if r < 0 then Inl (Except ''Failed to attach BPF program'') else Inr (), s\<lparr>kernel := w\<rparr>))"

definition skel_detach :: "build \<Rightarrow> ('w, 's) skel_ops \<Rightarrow> (unit, ('w, 's, 'z) EbpfSkelIf_scheme) st" where
  "skel_detach b K = with_skel b (\<lambda>sk. st_mod (\<lambda>s. s\<lparr>kernel := sk_detach K (kernel s) sk\<rparr>))"

text \<open>\<^verbatim>\<open>release()\<close> after the library has freed the skeleton: the pointer becomes null.\<close>

definition skel_destroy :: "build \<Rightarrow> ('w, 's) skel_ops \<Rightarrow> (unit, ('w, 's, 'z) EbpfSkelIf_scheme) st" where
  "skel_destroy b K =
     with_skel b (\<lambda>sk. st_mod (\<lambda>s. s\<lparr>kernel := sk_destroy K (kernel s) sk, skel := None\<rparr>))"

definition lock_io :: "(nat \<Rightarrow> bool) \<Rightarrow> nat option \<Rightarrow> nat option" where
  "lock_io alive io = (case io of Some i \<Rightarrow> if alive i then Some i else None | None \<Rightarrow> None)"

definition skel_start :: "(nat \<Rightarrow> bool) \<Rightarrow> nat option \<Rightarrow> (bool, ('w, 's, 'z) EbpfSkelIf_scheme) st" where
  "skel_start alive io s =
     (let s' = (if lock_io alive io \<noteq> None then s\<lparr>io_ctx := io\<rparr> else s)
      in (Inr (lock_io alive (io_ctx s') \<noteq> None), s'))"

text \<open>A service that does not override it takes no configuration.\<close>

definition skel_onConfigUpdate :: "HookType \<Rightarrow> int \<Rightarrow> 'j \<Rightarrow> (unit, ('w, 's, 'z) EbpfSkelIf_scheme) st" where
  "skel_onConfigUpdate hook_type ifindex config = st_ret ()"

definition skel_getPrometheusStatus :: "'j json_ops \<Rightarrow> ('w, 's, 'z) EbpfSkelIf_scheme \<Rightarrow> 'j" where
  "skel_getPrometheusStatus J s = j_null J"

definition skel_getDebugStatus :: "'j json_ops \<Rightarrow> ('w, 's, 'z) EbpfSkelIf_scheme \<Rightarrow> 'j" where
  "skel_getDebugStatus J s = j_null J"

definition skel_getMainProgFd :: "('w, 's, 'z) EbpfSkelIf_scheme \<Rightarrow> int" where
  "skel_getMainProgFd s = -1"

lemmas skel_defs = skel_open_def with_skel_def skel_load_def skel_attach_def skel_detach_def
  skel_destroy_def skel_start_def lock_io_def

section \<open>Start and stop of the packet services\<close>

text \<open>
  \<^verbatim>\<open>AclBase\<close>, \<^verbatim>\<open>LbBase\<close> and \<^verbatim>\<open>SchedulerBase\<close> write the same \<^verbatim>\<open>start\<close> and \<^verbatim>\<open>stop\<close>.
\<close>

definition service_start :: "build \<Rightarrow> ('w, 's) skel_ops \<Rightarrow> string \<Rightarrow> (nat \<Rightarrow> bool) \<Rightarrow> nat option \<Rightarrow>
    (bool, ('w, 's, 'z) EbpfSkelIf_scheme) st" where
  "service_start b K name alive io =
     st_bind (skel_start alive io) (\<lambda>ok.
     if \<not> ok then st_throw (Except (''Start '' @ name @ '' service failed''))
     else
       st_bind (skel_open K) (\<lambda>_.
       st_bind (st_get (\<lambda>s. skel s = None)) (\<lambda>null.
       if null then st_ret False
       else
         st_bind (skel_load b K) (\<lambda>_.
         st_bind (skel_attach b K) (\<lambda>_.
         st_ret True)))))"

definition service_stop :: "build \<Rightarrow> ('w, 's) skel_ops \<Rightarrow> (unit, ('w, 's, 'z) EbpfSkelIf_scheme) st" where
  "service_stop b K = st_bind (skel_detach b K) (\<lambda>_. skel_destroy b K)"

lemma skel_open_keeps: "skel_open K s = (r, s') \<Longrightarrow> io_ctx s' = io_ctx s"
  by (auto simp: skel_open_def split: if_splits prod.splits)

lemma skel_load_keeps: "skel_load b K s = (r, s') \<Longrightarrow> skel s' = skel s \<and> io_ctx s' = io_ctx s"
  by (auto simp: skel_load_def with_skel_def split: option.splits prod.splits)

lemma skel_attach_keeps: "skel_attach b K s = (r, s') \<Longrightarrow> skel s' = skel s \<and> io_ctx s' = io_ctx s"
  by (auto simp: skel_attach_def with_skel_def split: option.splits prod.splits)

lemma skel_start_true: "skel_start alive io s = (Inr True, s') \<Longrightarrow> lock_io alive (io_ctx s') \<noteq> None"
  by (auto simp: skel_start_def Let_def)

text \<open>A service that reports it has started has a skeleton and an I/O module it can lock.\<close>

lemma service_start_true:
  assumes "service_start b K name alive io s = (Inr True, s')"
  shows "skel s' \<noteq> None \<and> lock_io alive (io_ctx s') \<noteq> None"
proof -
  obtain s1 s2 s3 where 1: "skel_start alive io s = (Inr True, s1)"
    and 2: "skel_open K s1 = (Inr (), s2)" "skel s2 \<noteq> None"
    and 3: "skel_load b K s2 = (Inr (), s3)" "skel_attach b K s3 = (Inr (), s')"
    using assms
    by (auto simp: service_start_def st_bind_Inr_iff st_get_def st_ret_def st_throw_def
        split: if_splits)
  have "lock_io alive (io_ctx s1) \<noteq> None"
    using 1 by (rule skel_start_true)
  with 2 3 show ?thesis
    using skel_open_keeps [OF 2(1)] skel_load_keeps [OF 3(1)] skel_attach_keeps [OF 3(2)] by simp
qed

lemma service_stop_ok:
  "skel s = Some sk \<Longrightarrow>
   service_stop b K s =
     (Inr (), s\<lparr>skel := None, kernel := sk_destroy K (sk_detach K (kernel s) sk) sk\<rparr>)"
  by (simp add: service_stop_def skel_defs st_simps)

lemma service_stop_null:
  "skel s = None \<Longrightarrow> service_stop b K s = (Inl (if b = Debug then Abort else Crash), s)"
  by (cases b) (simp_all add: service_stop_def skel_defs st_simps)

end
