(* ===== verification/Net_Hook.thy ===== *)
theory Net_Hook
  imports Enums Ebpf_Skel
begin

text \<open>
  \<^verbatim>\<open>src/ebpf/ebpf_net_hook_if.cc\<close>, \<^verbatim>\<open>tc_hook.cc\<close>, \<^verbatim>\<open>xdp_hook.cc\<close>, \<^verbatim>\<open>ebpf_with_net_hook.tpp\<close> and
  \<^verbatim>\<open>src/fd/fd.cc\<close>: attaching one program to a network interface. The libbpf calls are the record
  \<open>net_ops\<close> over an unknown kernel state; their integer results are kept, 0 is success.
\<close>

section \<open>External calls\<close>

datatype Direct = INGRESS | EGRESS

datatype attach_point = BPF_TC_INGRESS | BPF_TC_EGRESS

record bpf_tc_hook =
  th_ifindex :: int
  th_attach_point :: attach_point
  th_parent :: u32

record 'w net_ops =
  n_tc_hook_create :: "'w \<Rightarrow> bpf_tc_hook \<Rightarrow> int \<times> 'w"
  n_tc_hook_destroy :: "'w \<Rightarrow> bpf_tc_hook \<Rightarrow> int \<times> 'w"
  n_tc_attach :: "'w \<Rightarrow> bpf_tc_hook \<Rightarrow> int \<Rightarrow> (int \<times> u32 \<times> u32) \<times> 'w"
  n_tc_detach :: "'w \<Rightarrow> bpf_tc_hook \<Rightarrow> u32 \<Rightarrow> u32 \<Rightarrow> int \<times> 'w"
  n_xdp_attach :: "'w \<Rightarrow> int \<Rightarrow> int \<Rightarrow> u32 \<Rightarrow> int \<times> 'w"
  n_xdp_detach :: "'w \<Rightarrow> int \<Rightarrow> u32 \<Rightarrow> int \<times> 'w"
  n_close :: "'w \<Rightarrow> int \<Rightarrow> 'w"

section \<open>Fd\<close>


definition Fd_close :: "'w net_ops \<Rightarrow> int \<Rightarrow> 'w \<Rightarrow> 'w" where
  "Fd_close N fd w = (if fd \<noteq> FD_INVALID then n_close N w fd else w)"

text \<open>Move assignment from another object: the old descriptor is closed, the other becomes invalid.\<close>

definition Fd_move_assign :: "'w net_ops \<Rightarrow> bool \<Rightarrow> int \<Rightarrow> int \<Rightarrow> 'w \<Rightarrow> (int \<times> int) \<times> 'w" where
  "Fd_move_assign N same this other w =
     (if \<not> same then ((other, FD_INVALID), Fd_close N this w) else ((this, other), w))"

section \<open>EbpfNetHookIf\<close>

record EbpfNetHookIf =
  hk_ifindex :: int
  hk_attached :: bool
  hk_prog_fd :: "int option"

text \<open>The virtual functions of a derived hook, on kernel state and hook object.\<close>

record ('w, 'h) hook_vtable =
  do_attach :: "int \<Rightarrow> 'w \<times> 'h \<Rightarrow> int \<times> 'w \<times> 'h"
  do_detach :: "'w \<times> 'h \<Rightarrow> int \<times> 'w \<times> 'h"
  pre_attach_check :: "'w \<times> 'h \<Rightarrow> int \<times> 'w \<times> 'h"
  post_detach_cleanup :: "'w \<times> 'h \<Rightarrow> 'w \<times> 'h"

definition base_pre_attach_check :: "'w \<times> 'h \<Rightarrow> int \<times> 'w \<times> 'h" where
  "base_pre_attach_check wh = (0, wh)"

definition base_post_detach_cleanup :: "'w \<times> 'h \<Rightarrow> 'w \<times> 'h" where
  "base_post_detach_cleanup wh = wh"

text \<open>
  \<^verbatim>\<open>fd\<close> is a unique pointer to an \<^verbatim>\<open>Fd\<close>: on every path that does not move it into the hook it is
  destroyed at the end of the call, which closes the descriptor.
\<close>

definition hook_attach :: "'w net_ops \<Rightarrow> ('w, 'z EbpfNetHookIf_scheme) hook_vtable \<Rightarrow> int \<Rightarrow>
    'w \<times> 'z EbpfNetHookIf_scheme \<Rightarrow> bool \<times> 'w \<times> 'z EbpfNetHookIf_scheme" where
  "hook_attach N V fd wh =
     (if hk_attached (snd wh) then (False, Fd_close N fd (fst wh), snd wh)
      else case pre_attach_check V wh of (err, w1, h1) \<Rightarrow>
        if err < 0 then (False, Fd_close N fd w1, h1)
        else case do_attach V fd (w1, h1) of (err, w2, h2) \<Rightarrow>
          if err = 0 then (True, w2, h2\<lparr>hk_attached := True, hk_prog_fd := Some fd\<rparr>)
          else (False, Fd_close N fd w2, h2))"

definition hook_detach :: "'w net_ops \<Rightarrow> ('w, 'z EbpfNetHookIf_scheme) hook_vtable \<Rightarrow>
    'w \<times> 'z EbpfNetHookIf_scheme \<Rightarrow> bool \<times> 'w \<times> 'z EbpfNetHookIf_scheme" where
  "hook_detach N V wh =
     (if \<not> hk_attached (snd wh) then (True, wh)
      else case do_detach V wh of (err, w1, h1) \<Rightarrow>
        (let (w2, h2) =
           (if err = 0
            then ((case hk_prog_fd h1 of Some fd \<Rightarrow> Fd_close N fd w1 | None \<Rightarrow> w1),
                  h1\<lparr>hk_attached := False, hk_prog_fd := None\<rparr>)
            else (w1, h1))
         in (err = 0, post_detach_cleanup V (w2, h2))))"

text \<open>
  The contract of a derived hook: its virtual functions leave the base members alone. A hook holds
  a descriptor exactly while it is attached.
\<close>

definition hook_inv :: "'z EbpfNetHookIf_scheme \<Rightarrow> bool" where
  "hook_inv h \<longleftrightarrow> (hk_attached h \<longleftrightarrow> hk_prog_fd h \<noteq> None)"

definition same_base :: "'z EbpfNetHookIf_scheme \<Rightarrow> 'z EbpfNetHookIf_scheme \<Rightarrow> bool" where
  "same_base h h' \<longleftrightarrow> hk_attached h' = hk_attached h \<and> hk_prog_fd h' = hk_prog_fd h
     \<and> hk_ifindex h' = hk_ifindex h"

locale net_hook =
  fixes V :: "('w, 'z EbpfNetHookIf_scheme) hook_vtable"
  assumes do_attach_base: "same_base h (snd (snd (do_attach V fd (w, h))))"
    and do_detach_base: "same_base h (snd (snd (do_detach V (w, h))))"
    and pre_check_base: "same_base h (snd (snd (pre_attach_check V (w, h))))"
    and cleanup_base: "same_base h (snd (post_detach_cleanup V (w, h)))"
begin

lemma attach_result:
  assumes "hook_attach N V fd (w, h) = (ok, w', h')"
  shows "hk_ifindex h' = hk_ifindex h"
    and "ok \<Longrightarrow> \<not> hk_attached h \<and> hk_attached h' \<and> hk_prog_fd h' = Some fd"
    and "\<not> ok \<Longrightarrow> hk_attached h' = hk_attached h \<and> hk_prog_fd h' = hk_prog_fd h"
proof -
  obtain e1 w1 h1 where 1: "pre_attach_check V (w, h) = (e1, w1, h1)" by (metis prod_cases3)
  obtain e2 w2 h2 where 2: "do_attach V fd (w1, h1) = (e2, w2, h2)" by (metis prod_cases3)
  have base: "same_base h h1" "same_base h1 h2"
    using pre_check_base [of h w] do_attach_base [of h1 fd w1] by (simp_all add: 1 2)
  show "hk_ifindex h' = hk_ifindex h"
    using assms base by (auto simp: hook_attach_def 1 2 same_base_def split: if_splits)
  show "ok \<Longrightarrow> \<not> hk_attached h \<and> hk_attached h' \<and> hk_prog_fd h' = Some fd"
    using assms by (auto simp: hook_attach_def 1 2 split: if_splits)
  show "\<not> ok \<Longrightarrow> hk_attached h' = hk_attached h \<and> hk_prog_fd h' = hk_prog_fd h"
    using assms base by (auto simp: hook_attach_def 1 2 same_base_def split: if_splits)
qed

lemma attach_full:
  "hook_attach N V fd (w, h) = (ok, w', h') \<Longrightarrow>
     hk_ifindex h' = hk_ifindex h \<and>
     (if ok then \<not> hk_attached h \<and> hk_attached h' \<and> hk_prog_fd h' = Some fd
      else hk_attached h' = hk_attached h \<and> hk_prog_fd h' = hk_prog_fd h)"
  using attach_result [of N fd w h ok w' h'] by simp

lemma attach_inv: "hook_attach N V fd (w, h) = (ok, w', h') \<Longrightarrow> hook_inv h \<Longrightarrow> hook_inv h'"
  using attach_result [of N fd w h ok w' h'] by (cases ok) (auto simp: hook_inv_def)

lemma detach_result:
  assumes "hook_detach N V (w, h) = (ok, w', h')" and "hook_inv h"
  shows "hook_inv h' \<and> (ok \<longleftrightarrow> \<not> hk_attached h')"
proof -
  obtain e1 w1 h1 where 1: "do_detach V (w, h) = (e1, w1, h1)" by (metis prod_cases3)
  have base: "same_base h h1"
    using do_detach_base [of h w] by (simp add: 1)
  show ?thesis
  proof (cases "hk_attached h")
    case False
    with assms show ?thesis by (auto simp: hook_detach_def)
  next
    case True
    define wh2 where "wh2 = (if e1 = 0
      then ((case hk_prog_fd h1 of Some fd \<Rightarrow> Fd_close N fd w1 | None \<Rightarrow> w1),
            h1\<lparr>hk_attached := False, hk_prog_fd := None\<rparr>)
      else (w1, h1))"
    obtain w2 h2 where wh2: "wh2 = (w2, h2)" by fastforce
    have "ok = (e1 = 0)" and post: "post_detach_cleanup V (w2, h2) = (w', h')"
      using assms(1) True by (simp_all add: hook_detach_def 1 wh2 flip: wh2_def)
    moreover have "same_base h2 h'"
      using cleanup_base [of h2 w2] by (simp add: post)
    moreover have "hook_inv h2 \<and> (e1 = 0 \<longleftrightarrow> \<not> hk_attached h2)"
      using wh2 base assms(2) True
      by (auto simp: wh2_def hook_inv_def same_base_def split: if_splits)
    ultimately show ?thesis
      by (auto simp: hook_inv_def same_base_def)
  qed
qed

end

section \<open>TcHook\<close>

record TcHook = EbpfNetHookIf +
  tc_direct :: Direct
  tc_hook :: bpf_tc_hook
  tc_hook_created :: bool
  tc_handle :: u32
  tc_priority :: u32

definition EEXIST :: int where "EEXIST = 17"

definition setBpfTcHook :: "int \<Rightarrow> Direct \<Rightarrow> u32 \<Rightarrow> bpf_tc_hook" where
  "setBpfTcHook ifindex direct parent =
     \<lparr>th_ifindex = ifindex,
      th_attach_point = (case direct of INGRESS \<Rightarrow> BPF_TC_INGRESS | EGRESS \<Rightarrow> BPF_TC_EGRESS),
      th_parent = parent\<rparr>"

definition TcHook_new :: "int \<Rightarrow> Direct \<Rightarrow> TcHook" where
  "TcHook_new ifindex direct =
     \<lparr>hk_ifindex = ifindex, hk_attached = False, hk_prog_fd = None, tc_direct = direct,
      tc_hook = setBpfTcHook ifindex direct 0, tc_hook_created = False, tc_handle = 0,
      tc_priority = 0\<rparr>"

definition tc_do_attach :: "'w net_ops \<Rightarrow> int \<Rightarrow> 'w \<times> TcHook \<Rightarrow> int \<times> 'w \<times> TcHook" where
  "tc_do_attach N prog_fd wh =
     (let ((err, handle, priority), w) = n_tc_attach N (fst wh) (tc_hook (snd wh)) prog_fd
      in (err, w, if err = 0 then (snd wh)\<lparr>tc_handle := handle, tc_priority := priority\<rparr> else snd wh))"

definition tc_do_detach :: "'w net_ops \<Rightarrow> 'w \<times> TcHook \<Rightarrow> int \<times> 'w \<times> TcHook" where
  "tc_do_detach N wh =
     (let (err, w) = n_tc_detach N (fst wh) (tc_hook (snd wh)) (tc_handle (snd wh)) (tc_priority (snd wh))
      in (err, w, snd wh))"

definition tc_pre_attach_check :: "'w net_ops \<Rightarrow> 'w \<times> TcHook \<Rightarrow> int \<times> 'w \<times> TcHook" where
  "tc_pre_attach_check N wh =
     (let (err, w) = n_tc_hook_create N (fst wh) (tc_hook (snd wh))
      in if err = 0 then (0, w, (snd wh)\<lparr>tc_hook_created := True\<rparr>)
         else if err = - EEXIST then (0, w, (snd wh)\<lparr>tc_hook_created := False\<rparr>)
         else (err, w, snd wh))"

definition tc_post_detach_cleanup :: "'w net_ops \<Rightarrow> 'w \<times> TcHook \<Rightarrow> 'w \<times> TcHook" where
  "tc_post_detach_cleanup N wh =
     (if tc_hook_created (snd wh)
      then let (err, w) = n_tc_hook_destroy N (fst wh) (tc_hook (snd wh))
           in (w, if err = 0 then (snd wh)\<lparr>tc_hook_created := False\<rparr> else snd wh)
      else wh)"

definition tc_vtable :: "'w net_ops \<Rightarrow> ('w, TcHook) hook_vtable" where
  "tc_vtable N =
     \<lparr>do_attach = tc_do_attach N, do_detach = tc_do_detach N,
      pre_attach_check = tc_pre_attach_check N, post_detach_cleanup = tc_post_detach_cleanup N\<rparr>"

interpretation tchook: net_hook "tc_vtable N" for N :: "'w net_ops"
  by unfold_locales
    (auto simp: tc_vtable_def tc_do_attach_def tc_do_detach_def tc_pre_attach_check_def
      tc_post_detach_cleanup_def same_base_def split: prod.split)

section \<open>XdpHook\<close>

datatype Mode = XDP_GENERIC | XDP_NATIVE | XDP_OFFLOAD | UNKNOWN

record XdpHook = EbpfNetHookIf +
  xdp_mode :: Mode
  xdp_hook_created :: bool

definition XDP_FLAGS_SKB_MODE :: u32 where "XDP_FLAGS_SKB_MODE = 2"
definition XDP_FLAGS_DRV_MODE :: u32 where "XDP_FLAGS_DRV_MODE = 4"
definition XDP_FLAGS_HW_MODE :: u32 where "XDP_FLAGS_HW_MODE = 8"

definition XdpHook_new :: "int \<Rightarrow> Mode \<Rightarrow> XdpHook" where
  "XdpHook_new ifindex mode =
     \<lparr>hk_ifindex = ifindex, hk_attached = False, hk_prog_fd = None, xdp_mode = mode,
      xdp_hook_created = False\<rparr>"

fun getFlags :: "Mode \<Rightarrow> u32" where
  "getFlags Mode.XDP_NATIVE = XDP_FLAGS_DRV_MODE"
| "getFlags Mode.XDP_OFFLOAD = XDP_FLAGS_HW_MODE"
| "getFlags _ = XDP_FLAGS_SKB_MODE"

definition xdp_do_attach :: "'w net_ops \<Rightarrow> int \<Rightarrow> 'w \<times> XdpHook \<Rightarrow> int \<times> 'w \<times> XdpHook" where
  "xdp_do_attach N prog_fd wh =
     (let (err, w) = n_xdp_attach N (fst wh) (hk_ifindex (snd wh)) prog_fd (getFlags (xdp_mode (snd wh)))
      in (err, w, snd wh))"

definition xdp_do_detach :: "'w net_ops \<Rightarrow> 'w \<times> XdpHook \<Rightarrow> int \<times> 'w \<times> XdpHook" where
  "xdp_do_detach N wh =
     (let (err, w) = n_xdp_detach N (fst wh) (hk_ifindex (snd wh)) (getFlags (xdp_mode (snd wh)))
      in (err, w, snd wh))"

definition xdp_vtable :: "'w net_ops \<Rightarrow> ('w, XdpHook) hook_vtable" where
  "xdp_vtable N =
     \<lparr>do_attach = xdp_do_attach N, do_detach = xdp_do_detach N,
      pre_attach_check = base_pre_attach_check, post_detach_cleanup = base_post_detach_cleanup\<rparr>"

interpretation xdphook: net_hook "xdp_vtable N" for N :: "'w net_ops"
  by unfold_locales
    (auto simp: xdp_vtable_def xdp_do_attach_def xdp_do_detach_def base_pre_attach_check_def
      base_post_detach_cleanup_def same_base_def split: prod.split)

section \<open>Calls through the base pointer\<close>

datatype NetHook = TcHook_obj TcHook | XdpHook_obj XdpHook

fun NetHook_attach :: "'w net_ops \<Rightarrow> int \<Rightarrow> 'w \<times> NetHook \<Rightarrow> bool \<times> 'w \<times> NetHook" where
  "NetHook_attach N fd (w, TcHook_obj h) =
     (case hook_attach N (tc_vtable N) fd (w, h) of (ok, w', h') \<Rightarrow> (ok, w', TcHook_obj h'))"
| "NetHook_attach N fd (w, XdpHook_obj h) =
     (case hook_attach N (xdp_vtable N) fd (w, h) of (ok, w', h') \<Rightarrow> (ok, w', XdpHook_obj h'))"

fun NetHook_detach :: "'w net_ops \<Rightarrow> 'w \<times> NetHook \<Rightarrow> bool \<times> 'w \<times> NetHook" where
  "NetHook_detach N (w, TcHook_obj h) =
     (case hook_detach N (tc_vtable N) (w, h) of (ok, w', h') \<Rightarrow> (ok, w', TcHook_obj h'))"
| "NetHook_detach N (w, XdpHook_obj h) =
     (case hook_detach N (xdp_vtable N) (w, h) of (ok, w', h') \<Rightarrow> (ok, w', XdpHook_obj h'))"

fun NetHook_attached :: "NetHook \<Rightarrow> bool" where
  "NetHook_attached (TcHook_obj h) = hk_attached h"
| "NetHook_attached (XdpHook_obj h) = hk_attached h"

fun NetHook_ifindex :: "NetHook \<Rightarrow> int" where
  "NetHook_ifindex (TcHook_obj h) = hk_ifindex h"
| "NetHook_ifindex (XdpHook_obj h) = hk_ifindex h"

fun NetHook_prog_fd :: "NetHook \<Rightarrow> int option" where
  "NetHook_prog_fd (TcHook_obj h) = hk_prog_fd h"
| "NetHook_prog_fd (XdpHook_obj h) = hk_prog_fd h"

definition NetHook_inv :: "NetHook \<Rightarrow> bool" where
  "NetHook_inv h \<longleftrightarrow> (NetHook_attached h \<longleftrightarrow> NetHook_prog_fd h \<noteq> None)"

text \<open>
  The destructor of the base class calls \<^verbatim>\<open>detach()\<close>, and with it the pure virtual \<^verbatim>\<open>do_detach()\<close>,
  when the derived part is already gone: destroying an attached hook ends the process.
\<close>

definition NetHook_destructor :: "NetHook \<Rightarrow> unit res" where
  "NetHook_destructor h = (if NetHook_attached h then Inl Crash else Inr ())"

lemma NetHook_attach_result:
  assumes "NetHook_attach N fd (w, h) = (ok, w', h')" and "NetHook_inv h"
  shows "NetHook_inv h' \<and> NetHook_ifindex h' = NetHook_ifindex h \<and>
     (if ok then \<not> NetHook_attached h \<and> NetHook_prog_fd h' = Some fd
      else NetHook_attached h' = NetHook_attached h)"
proof (cases h)
  case (TcHook_obj t)
  then show ?thesis
    using assms
    by (auto simp: NetHook_inv_def split: prod.splits if_splits dest!: tchook.attach_full)
next
  case (XdpHook_obj t)
  then show ?thesis
    using assms
    by (auto simp: NetHook_inv_def split: prod.splits if_splits dest!: xdphook.attach_full)
qed

lemma NetHook_detach_result:
  assumes "NetHook_detach N (w, h) = (ok, w', h')" and "NetHook_inv h"
  shows "NetHook_inv h' \<and> (ok \<longleftrightarrow> \<not> NetHook_attached h')"
proof (cases h)
  case (TcHook_obj t)
  then show ?thesis
    using assms tchook.detach_result [where h = t]
    by (fastforce simp: NetHook_inv_def hook_inv_def split: prod.splits)
next
  case (XdpHook_obj t)
  then show ?thesis
    using assms xdphook.detach_result [where h = t]
    by (fastforce simp: NetHook_inv_def hook_inv_def split: prod.splits)
qed

section \<open>EbpfWithNetHook\<close>

record ('w, 's) EbpfWithNetHook = "('w, 's) EbpfSkelIf" +
  wh_hook :: "NetHook option"
  wh_ifindex :: int
  wh_attached :: bool

definition EbpfWithNetHook_new :: "'w \<Rightarrow> 's option \<Rightarrow> ('w, 's) EbpfWithNetHook" where
  "EbpfWithNetHook_new w sk =
     \<lparr>kernel = w, skel = sk, io_ctx = None, wh_hook = None, wh_ifindex = FD_INVALID,
      wh_attached = False\<rparr>"

text \<open>The result of the hook's own \<^verbatim>\<open>detach\<close> is not looked at.\<close>

definition net_detach :: "'w net_ops \<Rightarrow> ('w, 's, 'z) EbpfWithNetHook_scheme \<Rightarrow>
    ('w, 's, 'z) EbpfWithNetHook_scheme" where
  "net_detach N s =
     (if \<not> wh_attached s then s
      else case wh_hook s of
             None \<Rightarrow> s
           | Some h \<Rightarrow>
               (case NetHook_detach N (kernel s, h) of
                  (ok, w, h') \<Rightarrow> s\<lparr>kernel := w, wh_hook := Some h', wh_attached := False\<rparr>))"

fun make_hook :: "HookType \<Rightarrow> int \<Rightarrow> NetHook option" where
  "make_hook TC ifindex = Some (TcHook_obj (TcHook_new ifindex INGRESS))"
| "make_hook HookType.XDP_GENERIC ifindex = Some (XdpHook_obj (XdpHook_new ifindex Mode.XDP_GENERIC))"
| "make_hook HookType.XDP_NATIVE ifindex = Some (XdpHook_obj (XdpHook_new ifindex Mode.XDP_NATIVE))"
| "make_hook HookType.XDP_OFFLOAD ifindex = Some (XdpHook_obj (XdpHook_new ifindex Mode.XDP_OFFLOAD))"
| "make_hook _ ifindex = None"

text \<open>
  \<^verbatim>\<open>fd\<close> is the result of the virtual \<^verbatim>\<open>getMainProgFd()\<close>. Assigning the new hook destroys the one the
  member still holds.
\<close>

definition attachGeneric :: "'w net_ops \<Rightarrow> int \<Rightarrow> HookType \<Rightarrow> int \<Rightarrow>
    (bool, ('w, 's, 'z) EbpfWithNetHook_scheme) st" where
  "attachGeneric N fd hook_type ifindex s =
     (if ifindex < 0 then (Inr False, s)
      else if wh_attached s then (Inr True, s)
      else if fd < 0 then (Inr False, s)
      else case make_hook hook_type ifindex of
        None \<Rightarrow> (Inr False, s)
      | Some h \<Rightarrow>
          (case (case wh_hook s of Some old \<Rightarrow> NetHook_destructor old | None \<Rightarrow> Inr ()) of
             Inl e \<Rightarrow> (Inl e, s)
           | Inr _ \<Rightarrow>
               (case NetHook_attach N fd (kernel s, h) of
                  (ok, w, h') \<Rightarrow>
                    if \<not> ok then (Inr False, s\<lparr>kernel := w, wh_hook := None\<rparr>)
                    else (Inr True, s\<lparr>kernel := w, wh_hook := Some h', wh_ifindex := ifindex,
                                      wh_attached := True\<rparr>))))"

lemma make_hook_new: "make_hook ht i = Some h \<Longrightarrow>
    NetHook_inv h \<and> \<not> NetHook_attached h \<and> NetHook_ifindex h = i"
  by (cases ht) (auto simp: NetHook_inv_def TcHook_new_def XdpHook_new_def)

text \<open>
  A service that says it is attached holds an attached hook on the interface it names; every hook
  it holds has a program descriptor exactly while attached.
\<close>

definition with_hook_inv :: "('w, 's, 'z) EbpfWithNetHook_scheme \<Rightarrow> bool" where
  "with_hook_inv s \<longleftrightarrow>
     (\<forall>h. wh_hook s = Some h \<longrightarrow> NetHook_inv h) \<and>
     (wh_attached s \<longrightarrow> (case wh_hook s of
        None \<Rightarrow> False
      | Some h \<Rightarrow> NetHook_attached h \<and> NetHook_ifindex h = wh_ifindex s))"

lemma with_hook_inv_new: "with_hook_inv (EbpfWithNetHook_new w sk)"
  by (simp add: with_hook_inv_def EbpfWithNetHook_new_def)

lemma attachGeneric_inv:
  assumes "attachGeneric N fd ht i s = (r, s')" and "with_hook_inv s"
  shows "with_hook_inv s' \<and> (r = Inr True \<longrightarrow> wh_attached s')"
proof (cases "i < 0 \<or> wh_attached s \<or> fd < 0 \<or> make_hook ht i = None")
  case True
  with assms show ?thesis
    by (auto simp: attachGeneric_def split: if_splits)
next
  case False
  then obtain h where h: "make_hook ht i = Some h" by auto
  obtain ok w' h' where a: "NetHook_attach N fd (kernel s, h) = (ok, w', h')"
    by (metis prod_cases3)
  note new = make_hook_new [OF h]
  note res = NetHook_attach_result [OF a conjunct1 [OF new]]
  show ?thesis
    using assms False h a res new
    by (cases ok) (auto simp: attachGeneric_def with_hook_inv_def NetHook_inv_def
        split: sum.splits option.splits if_splits)
qed

lemma net_detach_inv:
  assumes "with_hook_inv s"
  shows "with_hook_inv (net_detach N s) \<and> \<not> wh_attached (net_detach N s)"
proof (cases "wh_attached s")
  case False
  with assms show ?thesis by (simp add: net_detach_def)
next
  case True
  with assms obtain h where h: "wh_hook s = Some h"
    by (auto simp: with_hook_inv_def split: option.splits)
  obtain ok w' h' where d: "NetHook_detach N (kernel s, h) = (ok, w', h')"
    by (metis prod_cases3)
  have "NetHook_inv h'"
    using NetHook_detach_result [OF d] assms h by (simp add: with_hook_inv_def)
  with True h d show ?thesis
    by (simp add: net_detach_def with_hook_inv_def)
qed

text \<open>Any sequence of attach and detach calls on one service; an exception ends it.\<close>

datatype net_call = Attach_call int HookType int | Detach_call

fun net_run :: "'w net_ops \<Rightarrow> net_call list \<Rightarrow> (unit, ('w, 's, 'z) EbpfWithNetHook_scheme) st" where
  "net_run N [] s = (Inr (), s)"
| "net_run N (Attach_call fd ht i # cs) s =
     (case attachGeneric N fd ht i s of
        (Inl e, s') \<Rightarrow> (Inl e, s')
      | (Inr ok, s') \<Rightarrow> net_run N cs s')"
| "net_run N (Detach_call # cs) s = net_run N cs (net_detach N s)"

lemma net_run_inv: "with_hook_inv s \<Longrightarrow> with_hook_inv (snd (net_run N cs s))"
proof (induction N cs s rule: net_run.induct)
  case (2 N fd ht i cs s)
  obtain r s' where a: "attachGeneric N fd ht i s = (r, s')" by fastforce
  then have "with_hook_inv s'"
    using attachGeneric_inv [OF a 2(2)] by simp
  with a 2(1) show ?case
    by (cases r) simp_all
qed (simp_all add: net_detach_inv)

text \<open>Calls into a driver whose requests all succeed, or whose detach fails, for the witnesses.\<close>

definition demo_net :: "int \<Rightarrow> int list net_ops" where
  "demo_net detach_result =
     \<lparr>n_tc_hook_create = (\<lambda>w h. (0, w)), n_tc_hook_destroy = (\<lambda>w h. (0, w)),
      n_tc_attach = (\<lambda>w h fd. ((0, 1, 1), w)), n_tc_detach = (\<lambda>w h a b. (detach_result, w)),
      n_xdp_attach = (\<lambda>w i fd fl. (0, w)), n_xdp_detach = (\<lambda>w i fl. (detach_result, w)),
      n_close = (\<lambda>w fd. fd # w)\<rparr>"

lemmas net_eval = demo_net_def net_detach_def attachGeneric_def hook_attach_def hook_detach_def
  tc_vtable_def xdp_vtable_def tc_do_attach_def tc_do_detach_def tc_pre_attach_check_def
  tc_post_detach_cleanup_def xdp_do_attach_def xdp_do_detach_def base_pre_attach_check_def
  base_post_detach_cleanup_def TcHook_new_def XdpHook_new_def EbpfWithNetHook_new_def
  NetHook_destructor_def Fd_close_def FD_INVALID_def

section \<open>Properties\<close>

text \<open>
  Claim C23. Over any sequence of attach and detach calls, whatever the driver answers: a service
  says it is attached only while it holds a hook that is attached to the very interface it names,
  and a hook holds a program descriptor exactly while it is attached.
\<close>

theorem net_hook_consistent:
  "case snd (net_run N cs (EbpfWithNetHook_new w sk)) of s \<Rightarrow>
     (\<forall>h. wh_hook s = Some h \<longrightarrow> (NetHook_attached h \<longleftrightarrow> NetHook_prog_fd h \<noteq> None)) \<and>
     (wh_attached s \<longrightarrow>
        (\<exists>h. wh_hook s = Some h \<and> NetHook_attached h \<and> NetHook_ifindex h = wh_ifindex s))"
  using net_run_inv [OF with_hook_inv_new, of N cs w sk]
  by (auto simp: with_hook_inv_def NetHook_inv_def split: option.splits)

theorem net_hook_consistent_witness:
  "wh_ifindex (snd (net_run (demo_net 0) [Attach_call 7 TC 3] (EbpfWithNetHook_new [] (Some ())))) = 3"
  using net_hook_consistent [of "demo_net 0" "[Attach_call 7 TC 3]" "[]" "Some ()"]
  by (simp add: net_eval setBpfTcHook_def)

text \<open>
  \<^verbatim>\<open>EbpfWithNetHook::detach\<close> ignores a failed detach of the hook but forgets that it was
  attached; the next \<^verbatim>\<open>attachGeneric\<close> that gets as far as making its hook destroys the one that is
  still attached and ends the process in a pure virtual call.
\<close>

theorem failed_detach_then_attach_crashes:
  assumes "wh_attached s" and "wh_hook s = Some h" and "NetHook_inv h"
    and "NetHook_detach N (kernel s, h) = (False, w, h')"
    and "0 \<le> i" and "0 \<le> fd" and "make_hook ht i \<noteq> None"
  shows "fst (attachGeneric N fd ht i (net_detach N s)) = Inl Crash"
proof -
  have "NetHook_attached h'"
    using NetHook_detach_result [OF assms(4,3)] by simp
  with assms show ?thesis
    by (auto simp: net_detach_def attachGeneric_def NetHook_destructor_def)
qed

theorem failed_detach_then_attach_crashes_witness:
  "fst (attachGeneric (demo_net (-22)) 7 TC 3 (net_detach (demo_net (-22))
     (snd (attachGeneric (demo_net (-22)) 7 TC 3 (EbpfWithNetHook_new [] (Some ())))))) = Inl Crash"
  by (rule failed_detach_then_attach_crashes, simp_all add: net_eval)
     (simp_all add: net_eval NetHook_inv_def)

text \<open>
  A hook owns the descriptor it was given: attaching a service to a free interface and
  detaching it closes the program descriptor that the skeleton of the service still owns.
\<close>

theorem attach_detach_closes_prog_fd:
  assumes "wh_hook s = None" and "0 \<le> fd"
    and "attachGeneric N fd HookType.XDP_GENERIC i s = (Inr True, s')" and "\<not> wh_attached s"
    and "n_xdp_detach N (kernel s') i XDP_FLAGS_SKB_MODE = (0, w)"
  shows "kernel (net_detach N s') = n_close N w fd"
proof -
  define h where "h = (XdpHook_new i Mode.XDP_GENERIC)\<lparr>hk_attached := True, hk_prog_fd := Some fd\<rparr>"
  have "0 \<le> i" using assms by (auto simp: attachGeneric_def split: if_splits)
  then have "wh_attached s' \<and> wh_hook s' = Some (XdpHook_obj h)"
    using assms(1-4)
    by (auto simp: attachGeneric_def hook_attach_def xdp_vtable_def base_pre_attach_check_def
        xdp_do_attach_def XdpHook_new_def h_def split: if_splits prod.splits)
  with assms(2,5) show ?thesis
    by (simp add: net_detach_def hook_detach_def xdp_vtable_def xdp_do_detach_def XdpHook_new_def
        base_post_detach_cleanup_def Fd_close_def FD_INVALID_def h_def)
qed

theorem attach_detach_closes_prog_fd_witness:
  "kernel (net_detach (demo_net 0) (snd (attachGeneric (demo_net 0) 7 HookType.XDP_GENERIC 3
     (EbpfWithNetHook_new [] (Some ()))))) = [7]"
  by (subst attach_detach_closes_prog_fd [where w = "[]" and i = 3 and fd = 7 and
        s = "EbpfWithNetHook_new [] (Some ())"])
     (simp_all add: net_eval)

end
