(* ===== verification/Acl_Service.thy ===== *)
theory Acl_Service
  imports Acl_Rules Acl_Datapath Std_Lib Net_Hook
begin

text \<open>
  \<^verbatim>\<open>src/services/acl/acl_base.tpp\<close>: the user-space half of the ACL service, which turns a
  configuration into entries of the kernel map that the two packet filters read.
\<close>

section \<open>AclBase\<close>

definition MAX_RULES_SIZE :: nat where "MAX_RULES_SIZE = 10240"

record ('w, 's) AclBase = "('w, 's) EbpfWithNetHook" +
  base_rules :: AclRules

type_synonym 'w acl_map = "('w, ipv4_tuple, u32) map_ops"

definition AclBase_new :: "'w \<Rightarrow> 's option \<Rightarrow> ('w, 's) AclBase" where
  "AclBase_new w sk =
     \<lparr>kernel = w, skel = sk, io_ctx = None, wh_hook = None, wh_ifindex = FD_INVALID,
      wh_attached = False, base_rules = AclRules_new\<rparr>"

definition acl_start :: "build \<Rightarrow> ('w, 's) skel_ops \<Rightarrow> (nat \<Rightarrow> bool) \<Rightarrow> nat option \<Rightarrow>
    (bool, ('w, 's) AclBase) st" where
  "acl_start b K = service_start b K ''acl''"

definition acl_stop :: "build \<Rightarrow> ('w, 's) skel_ops \<Rightarrow> (unit, ('w, 's) AclBase) st" where
  "acl_stop b K = service_stop b K"

text \<open>The template parameter: \<open>True\<close> for \<^verbatim>\<open>acl_bpf\<close>, \<open>False\<close> for \<^verbatim>\<open>acl_xdp_bpf\<close>.\<close>

definition acl_getMainProgFd :: "bool \<Rightarrow> ('w, 's) skel_ops \<Rightarrow> ('w, 's) AclBase \<Rightarrow> int" where
  "acl_getMainProgFd tc K s =
     (case skel s of
        None \<Rightarrow> -1
      | Some sk \<Rightarrow> sk_prog_fd K sk (if tc then ''hebpf_acl_tc_ingress'' else ''hebpf_acl_xdp_generic''))"

definition acl_getDebugStatus :: "'j json_ops \<Rightarrow> ('w, 's) AclBase \<Rightarrow> 'j" where
  "acl_getDebugStatus J s = AclRules_to_json J (base_rules s)"

definition acl_getMapFd :: "build \<Rightarrow> ('w, 's) skel_ops \<Rightarrow> (int, ('w, 's) AclBase) st" where
  "acl_getMapFd b K =
     with_skel b (\<lambda>sk.
       if sk_map_fd K sk ''hebpf_krules_acl'' < 0
       then st_throw (Except ''Failed to get ACL rules in kernel mode'')
       else st_ret (sk_map_fd K sk ''hebpf_krules_acl''))"

definition acl_clearKernelRules :: "build \<Rightarrow> ('w, 's) skel_ops \<Rightarrow> 'w acl_map \<Rightarrow>
    (unit, ('w, 's) AclBase) st" where
  "acl_clearKernelRules b K M =
     st_bind (acl_getMapFd b K) (\<lambda>map_fd s.
       case collect_keys M (kernel s) map_fd of
         None \<Rightarrow> (Inl Diverge, s)
       | Some keys \<Rightarrow>
           (Inr (), s\<lparr>kernel := delete_keys M map_fd keys (kernel s),
                      base_rules := clearRules (base_rules s)\<rparr>))"

text \<open>One rule of the configuration, in the order of the checks; \<open>None\<close> is a \<^verbatim>\<open>continue\<close>.\<close>

definition acl_entry :: "AclRulesElem \<Rightarrow> (ipv4_tuple \<times> u32) option" where
  "acl_entry rule =
     (case inet_pton4 (elem_saddr rule) of
        None \<Rightarrow> None
      | Some saddr \<Rightarrow>
     (case inet_pton4 (elem_daddr rule) of
        None \<Rightarrow> None
      | Some daddr \<Rightarrow>
     (let tup = (\<lambda>pr. \<lparr>tup_saddr = saddr, tup_daddr = daddr, tup_sport = htons (elem_sport rule),
                       tup_dport = htons (elem_dport rule), tup_protocol = pr, tup_padding = 0\<rparr>)
      in case (case elem_protocol rule of
                 TCP \<Rightarrow> Some IPPROTO_TCP
               | UDP \<Rightarrow> Some IPPROTO_UDP
               | Protocol.UNKNOWN \<Rightarrow> None) of
           None \<Rightarrow> None
         | Some pr \<Rightarrow>
             (case elem_action rule of
                DROP \<Rightarrow> Some (tup pr, ACL_ACTION_DENY)
              | ACCEPT \<Rightarrow> Some (tup pr, ACL_ACTION_ALLOW)
              | Action.UNKNOWN \<Rightarrow> None))))"

fun acl_install :: "'w acl_map \<Rightarrow> int \<Rightarrow> AclRulesElem list \<Rightarrow> nat \<Rightarrow> ('w, 's) AclBase \<Rightarrow>
    ('w, 's) AclBase" where
  "acl_install M map_fd [] success s = s"
| "acl_install M map_fd (rule # rules) success s =
     (case acl_entry rule of
        None \<Rightarrow> acl_install M map_fd rules success s
      | Some (tup, action_u) \<Rightarrow>
          (case m_update M (kernel s) map_fd tup action_u of
             (False, w) \<Rightarrow> acl_install M map_fd rules success (s\<lparr>kernel := w\<rparr>)
           | (True, w) \<Rightarrow>
               (let s' = s\<lparr>kernel := w, base_rules := addRules rule (base_rules s)\<rparr>
                in if success + 1 \<ge> MAX_RULES_SIZE then s'
                   else acl_install M map_fd rules (success + 1) s')))"

definition acl_onConfigUpdate :: "build \<Rightarrow> 'j json_ops \<Rightarrow> ('w, 's) skel_ops \<Rightarrow> 'w acl_map \<Rightarrow>
    HookType \<Rightarrow> int \<Rightarrow> 'j \<Rightarrow> (unit, ('w, 's) AclBase) st" where
  "acl_onConfigUpdate b J K M hook_type ifindex config =
     st_bind (st_catch (st_res (AclRules_from_json J config AclRules_new))
                (\<lambda>e. st_throw (Except (''Invalid ACL config: '' @ exc_text e)))) (\<lambda>acl_rules.
     st_bind (acl_clearKernelRules b K M) (\<lambda>_.
     st_bind (acl_getMapFd b K) (\<lambda>map_fd.
     st_mod (acl_install M map_fd (AclRules.acl_rules acl_rules) 0))))"

section \<open>What a configuration installs\<close>

definition installable :: "AclRulesElem list \<Rightarrow> (ipv4_tuple \<times> u32) list" where
  "installable rules = List.map_filter acl_entry rules"

text \<open>The map a configuration asks for: per tuple, the action of the last rule that has it.\<close>

definition acl_table :: "AclRulesElem list \<Rightarrow> ipv4_tuple \<Rightarrow> u32 option" where
  "acl_table rules = map_of (rev (installable rules))"

definition accepted :: "AclRulesElem list \<Rightarrow> AclRulesElem list" where
  "accepted rules = filter (\<lambda>r. acl_entry r \<noteq> None) rules"

lemma installable_simps [simp]:
  "installable [] = []"
  "installable (r # rs) = (case acl_entry r of None \<Rightarrow> installable rs | Some e \<Rightarrow> e # installable rs)"
  by (simp_all add: installable_def List.map_filter_def split: option.split)

lemma install_skel: "skel (acl_install M fd rs n s) = skel s"
  by (induction rs arbitrary: n s) (auto simp: Let_def split: option.split prod.split bool.split)

text \<open>However the map behaves, at most \<open>MAX_RULES_SIZE\<close> rules are kept, all of them well formed.\<close>

lemma install_rules:
  "n < MAX_RULES_SIZE \<Longrightarrow>
   \<exists>rs'. AclRules.acl_rules (base_rules (acl_install M fd rs n s)) = AclRules.acl_rules (base_rules s) @ rs' \<and>
     n + length rs' \<le> MAX_RULES_SIZE \<and> (\<forall>r \<in> set rs'. acl_entry r \<noteq> None)"
proof (induction rs arbitrary: n s)
  case Nil
  then show ?case by simp
next
  case (Cons rule rules)
  show ?case
  proof (cases "acl_entry rule")
    case None
    with Cons show ?thesis by simp
  next
    case (Some e)
    obtain tup a where e: "e = (tup, a)" by fastforce
    obtain ok w where u: "m_update M (kernel s) fd tup a = (ok, w)" by fastforce
    define s' where "s' = s\<lparr>kernel := w, base_rules := addRules rule (base_rules s)\<rparr>"
    have rules': "AclRules.acl_rules (base_rules s') = AclRules.acl_rules (base_rules s) @ [rule]"
      by (simp add: s'_def addRules_def)
    consider "\<not> ok" | "ok" "n + 1 \<ge> MAX_RULES_SIZE" | "ok" "n + 1 < MAX_RULES_SIZE" by linarith
    then show ?thesis
    proof cases
      case 1
      with Cons.IH [of n "s\<lparr>kernel := w\<rparr>"] Cons.prems Some e u show ?thesis by simp
    next
      case 2
      then have "acl_install M fd (rule # rules) n s = s'"
        using Some e u by (simp add: s'_def)
      with rules' Cons.prems Some show ?thesis by (intro exI [of _ "[rule]"]) simp
    next
      case 3
      then have step: "acl_install M fd (rule # rules) n s = acl_install M fd rules (n + 1) s'"
        using Some e u by (simp add: s'_def)
      obtain rs' where "AclRules.acl_rules (base_rules (acl_install M fd rules (n + 1) s'))
          = AclRules.acl_rules (base_rules s') @ rs'"
        "n + 1 + length rs' \<le> MAX_RULES_SIZE" "\<forall>r \<in> set rs'. acl_entry r \<noteq> None"
        using Cons.IH [of "n + 1" s'] 3(2) by auto
      with step rules' Some show ?thesis by (intro exI [of _ "rule # rs'"]) auto
    qed
  qed
qed

text \<open>The rule map of the service, a bounded hash map from tuples to actions.\<close>

locale acl_map = bpf_hash_cap ops fd keys cap
  for ops :: "('w, ipv4_tuple, u32) map_ops" and fd :: int and keys :: "'w \<Rightarrow> ipv4_tuple list"
    and cap :: nat
begin

text \<open>While the map has room, every well-formed rule is stored and kept, later ones over earlier ones.\<close>

lemma install_all:
  "n + length (installable rs) \<le> MAX_RULES_SIZE \<Longrightarrow>
   length (keys (kernel s)) + length (installable rs) \<le> cap \<Longrightarrow>
   s' = acl_install ops fd rs n s \<Longrightarrow>
   m_lookup ops (kernel s') fd t =
     (case acl_table rs t of Some a \<Rightarrow> Some a | None \<Rightarrow> m_lookup ops (kernel s) fd t) \<and>
   AclRules.acl_rules (base_rules s') = AclRules.acl_rules (base_rules s) @ accepted rs"
proof (induction rs arbitrary: n s s')
  case Nil
  then show ?case by (simp add: acl_table_def accepted_def)
next
  case (Cons rule rules)
  show ?case
  proof (cases "acl_entry rule")
    case None
    with Cons show ?thesis by (simp add: acl_table_def accepted_def)
  next
    case (Some e)
    obtain tup a where e: "e = (tup, a)" by fastforce
    have len: "length (installable (rule # rules)) = Suc (length (installable rules))"
      by (simp add: Some)
    obtain w where u: "m_update ops (kernel s) fd tup a = (True, w)"
      using update_outcome [of "kernel s" tup a] Cons.prems(2) len
      by (cases "m_update ops (kernel s) fd tup a") auto
    define s1 where "s1 = s\<lparr>kernel := w, base_rules := addRules rule (base_rules s)\<rparr>"
    have s1: "AclRules.acl_rules (base_rules s1) = AclRules.acl_rules (base_rules s) @ [rule]"
      "m_lookup ops (kernel s1) fd t = (if t = tup then Some a else m_lookup ops (kernel s) fd t)"
      using lookup_update [OF u] by (simp_all add: s1_def addRules_def)
    have room: "length (keys (kernel s1)) + length (installable rules) \<le> cap"
      using update_keys_length [OF u] Cons.prems(2) len by (simp add: s1_def)
    have table: "acl_table (rule # rules) t =
        (case acl_table rules t of Some b \<Rightarrow> Some b | None \<Rightarrow> if t = tup then Some a else None)"
      by (simp add: acl_table_def Some e map_add_def split: option.split)
    show ?thesis
    proof (cases "n + 1 \<ge> MAX_RULES_SIZE")
      case True
      have "length (installable rules) = 0"
        using True Cons.prems(1) len by linarith
      then have none: "installable rules = []" by simp
      have s': "s' = s1"
        using True Cons.prems(3) Some e u by (simp add: s1_def)
      from none have "accepted rules = []" "acl_table rules t = None"
        by (auto simp: acl_table_def accepted_def installable_def map_filter_def filter_empty_conv)
      with s' s1 table Some show ?thesis by (simp add: accepted_def)
    next
      case False
      then have "s' = acl_install ops fd rules (n + 1) s1"
        using Cons.prems(3) Some e u by (simp add: s1_def)
      from Cons.IH [OF _ room this] Cons.prems(1) len s1 table Some show ?thesis
        by (cases "t = tup") (simp_all add: accepted_def split: option.split)
    qed
  qed
qed

end

interpretation ref_acl: acl_map "ref_ops cap" fd "ref_keys fd" cap for cap :: nat and fd :: int
  by unfold_locales

section \<open>The whole update\<close>

text \<open>An update with a readable configuration, a skeleton and a map is a clearing and an installation.\<close>

lemma onConfigUpdate_run:
  assumes "skel s = Some sk" and "sk_map_fd K sk ''hebpf_krules_acl'' = fd" and "0 \<le> fd"
    and "collect_keys M (kernel s) fd = Some ks"
    and "AclRules_from_json J config AclRules_new = Inr a"
  shows "acl_onConfigUpdate b J K M ht i config s =
    (Inr (), acl_install M fd (AclRules.acl_rules a) 0
       (s\<lparr>kernel := delete_keys M fd ks (kernel s), base_rules := clearRules (base_rules s)\<rparr>))"
  using assms
  by (simp add: acl_onConfigUpdate_def acl_clearKernelRules_def acl_getMapFd_def with_skel_def
      st_simps st_catch_def)

context acl_map
begin

lemma cleared_room: "length (keys (delete_keys ops fd (keys w) w)) = 0"
proof -
  have "k \<notin> set (keys (delete_keys ops fd (keys w) w))" for k
    by (simp add: keys_lookup delete_all_keys)
  then have "keys (delete_keys ops fd (keys w) w) = []"
    by (metis list.set_intros(1) neq_Nil_conv)
  then show ?thesis by simp
qed

lemma onConfigUpdate_table:
  assumes sk: "skel s = Some sk" "sk_map_fd K sk ''hebpf_krules_acl'' = fd" "0 \<le> fd"
    and a: "AclRules_from_json J config AclRules_new = Inr a"
    and fits: "length (installable (AclRules.acl_rules a)) \<le> min cap MAX_RULES_SIZE"
  shows "\<exists>s'. acl_onConfigUpdate b J K ops ht i config s = (Inr (), s') \<and>
    (\<forall>t. m_lookup ops (kernel s') fd t = acl_table (AclRules.acl_rules a) t) \<and>
    AclRules.acl_rules (base_rules s') = accepted (AclRules.acl_rules a)"
proof -
  let ?s0 = "s\<lparr>kernel := delete_keys ops fd (keys (kernel s)) (kernel s), base_rules := clearRules (base_rules s)\<rparr>"
  let ?s' = "acl_install ops fd (AclRules.acl_rules a) 0 ?s0"
  have run: "acl_onConfigUpdate b J K ops ht i config s = (Inr (), ?s')"
    by (rule onConfigUpdate_run [OF sk collect_keys_eq a])
  have "m_lookup ops (kernel ?s') fd t = (case acl_table (AclRules.acl_rules a) t of
        Some x \<Rightarrow> Some x | None \<Rightarrow> m_lookup ops (kernel ?s0) fd t) \<and>
      AclRules.acl_rules (base_rules ?s') = accepted (AclRules.acl_rules a)" for t
    using install_all [of 0 "AclRules.acl_rules a" ?s0 ?s' t] fits cleared_room [of "kernel s"]
    by (simp add: clearRules_def)
  then show ?thesis
    using run by (auto simp: delete_all_keys split: option.splits)
qed

end

section \<open>Properties\<close>

definition demo_skel :: "int \<Rightarrow> ('w, unit) skel_ops" where
  "demo_skel fd =
     \<lparr>sk_open = (\<lambda>w. (Some (), w)), sk_load = (\<lambda>w s. (0, w)), sk_attach = (\<lambda>w s. (0, w)),
      sk_detach = (\<lambda>w s. w), sk_destroy = (\<lambda>w s. w), sk_map_fd = (\<lambda>s name. fd),
      sk_prog_fd = (\<lambda>s name. fd)\<rparr>"

definition demo_rule :: "Action \<Rightarrow> AclRulesElem" where
  "demo_rule a = \<lparr>elem_saddr = ''10.0.0.1'', elem_daddr = ''10.0.0.2'', elem_sport = 0,
     elem_dport = 80, elem_protocol = TCP, elem_action = a\<rparr>"

definition demo_acl :: "(int \<Rightarrow> (ipv4_tuple \<times> u32) list, unit) AclBase" where
  "demo_acl = AclBase_new (\<lambda>_. [(\<lparr>tup_saddr = 1, tup_daddr = 2, tup_sport = 3, tup_dport = 4,
     tup_protocol = 6, tup_padding = 0\<rparr>, ACL_ACTION_DENY)]) (Some ())"

lemma demo_pton:
  "inet_pton4 ''10.0.0.1'' = Some 0x0100000A" "inet_pton4 ''10.0.0.2'' = Some 0x0200000A"
  by code_simp+

lemma demo_entry:
  "acl_entry (demo_rule a) = (case a of
     DROP \<Rightarrow> Some (\<lparr>tup_saddr = 0x0100000A, tup_daddr = 0x0200000A, tup_sport = 0,
       tup_dport = 0x5000, tup_protocol = IPPROTO_TCP, tup_padding = 0\<rparr>, ACL_ACTION_DENY)
   | ACCEPT \<Rightarrow> Some (\<lparr>tup_saddr = 0x0100000A, tup_daddr = 0x0200000A, tup_sport = 0,
       tup_dport = 0x5000, tup_protocol = IPPROTO_TCP, tup_padding = 0\<rparr>, ACL_ACTION_ALLOW)
   | Action.UNKNOWN \<Rightarrow> None)"
  by (cases a) (simp_all add: acl_entry_def demo_rule_def demo_pton demo_consts)

text \<open>
  Installing a configuration. Whatever the map held before, an update with the JSON of a
  rule list that fits the map ends without an exception, and then the map is exactly the table of
  the new rules: every well-formed rule is in it, a later rule overrides an earlier one with the
  same tuple, no entry of an earlier configuration is left; the service remembers the rules it
  installed.
\<close>

theorem acl_config_installed:
  assumes "bpf_hash_cap M fd keys cap" and "json_lib J"
    and "skel s = Some sk" and "sk_map_fd K sk ''hebpf_krules_acl'' = fd" and "0 \<le> fd"
    and "length (installable rules) \<le> min cap MAX_RULES_SIZE"
  shows "\<exists>s'. acl_onConfigUpdate b J K M ht i (AclRules_to_json J \<lparr>acl_rules = rules\<rparr>) s = (Inr (), s') \<and>
    (\<forall>t. m_lookup M (kernel s') fd t = acl_table rules t) \<and>
    AclRules.acl_rules (base_rules s') = accepted rules"
proof -
  show ?thesis
    using acl_map.onConfigUpdate_table [OF acl_map.intro [OF assms(1)] assms(3-5)
        json_lib.acl_ruleset_roundtrip [OF assms(2)], of "\<lparr>acl_rules = rules\<rparr>"] assms(6)
    by simp
qed

lemma demo_acl_sel:
  "skel demo_acl = Some ()" "sk_map_fd (demo_skel 5) () name = 5"
  by (simp_all add: demo_acl_def AclBase_new_def demo_skel_def)

theorem acl_config_installed_witness:
  "\<exists>s'. acl_onConfigUpdate Debug ref_json (demo_skel 5) (ref_ops 10) TC 1
      (AclRules_to_json ref_json \<lparr>acl_rules = [demo_rule DROP, demo_rule ACCEPT]\<rparr>) demo_acl = (Inr (), s') \<and>
    (\<forall>t. m_lookup (ref_ops 10) (kernel s') 5 t = acl_table [demo_rule DROP, demo_rule ACCEPT] t) \<and>
    AclRules.acl_rules (base_rules s') = accepted [demo_rule DROP, demo_rule ACCEPT]"
  by (rule acl_config_installed [OF refmap.bpf_hash_cap_axioms refjson.json_lib_axioms])
     (simp_all add: demo_acl_sel demo_entry MAX_RULES_SIZE_def)

text \<open>
  Claim C6. From the configuration to the packet. After a configuration is installed, the TC filter
  drops a TCP segment exactly when the last rule for its addresses and destination port with source
  port 0 is DROP, or there is none and the last rule with the segment's own source port is DROP.
\<close>

theorem acl_config_to_verdict:
  assumes "bpf_hash_cap M fd keys cap" and "json_lib J"
    and "skel s = Some sk" and "sk_map_fd K sk ''hebpf_krules_acl'' = fd" and "0 \<le> fd"
    and "length (installable rules) \<le> min cap MAX_RULES_SIZE"
    and "acl_onConfigUpdate b J K M ht i (AclRules_to_json J \<lparr>acl_rules = rules\<rparr>) s = (r, s')"
    and "ETH_HLEN + IP_HLEN \<le> length p" and "ip_protocol p = Some IPPROTO_TCP"
    and "ip_ihl p = Some ihl" and "ETH_HLEN + ihl * 4 + TCP_HLEN \<le> length p"
    and "ip_saddr p = Some sa" and "ip_daddr p = Some da"
    and "l4_source p (ETH_HLEN + ihl * 4) = Some sp" and "l4_dest p (ETH_HLEN + ihl * 4) = Some dp"
    and key: "\<And>x. key x = \<lparr>tup_saddr = sa, tup_daddr = da, tup_sport = x, tup_dport = dp,
                            tup_protocol = IPPROTO_TCP, tup_padding = 0\<rparr>"
  shows "hebpf_acl_tc_ingress (m_lookup M (kernel s') fd) (htons ETH_P_IP) p = Some (Return TC_ACT_SHOT) \<longleftrightarrow>
    acl_table rules (key 0) = Some ACL_ACTION_DENY \<or>
    acl_table rules (key 0) = None \<and> acl_table rules (key sp) = Some ACL_ACTION_DENY"
proof -
  have "m_lookup M (kernel s') fd t = acl_table rules t" for t
    using acl_map.onConfigUpdate_table [OF acl_map.intro [OF assms(1)] assms(3-5)
        json_lib.acl_ruleset_roundtrip [OF assms(2)], of "\<lparr>acl_rules = rules\<rparr>" b ht i] assms(6,7)
    by simp
  moreover have "acl_classify p = Some (key 0, sp)"
    using assms(8-) by (simp add: acl_classify_def key ANY_PORT_def)
  ultimately show ?thesis
    by (auto simp: tc_refines acl_denies_def acl_action_def key ANY_PORT_def split: option.split)
qed

theorem acl_config_to_verdict_witness:
  "hebpf_acl_tc_ingress (m_lookup (ref_ops 10) (kernel (snd
      (acl_onConfigUpdate Debug ref_json (demo_skel 5) (ref_ops 10) TC 1
        (AclRules_to_json ref_json \<lparr>acl_rules = [demo_rule ACCEPT, demo_rule DROP]\<rparr>) demo_acl))) 5)
    (htons ETH_P_IP) (demo_frame IPPROTO_TCP 16) = Some (Return TC_ACT_SHOT)"
  by (subst acl_config_to_verdict [OF refmap.bpf_hash_cap_axioms refjson.json_lib_axioms _ _ _ _
        prod.collapse [symmetric], where ihl = "5" and sa = "0x0100000A" and da = "0x0200000A"
        and sp = "0xD204" and dp = "0x5000" and rules = "[demo_rule ACCEPT, demo_rule DROP]"])
     (simp_all add: demo_acl_sel demo_entry MAX_RULES_SIZE_def demo_fields demo_consts header_sizes
       acl_table_def, simp_all add: demo_consts)

text \<open>
  A configuration the JSON library rejects changes nothing: the update throws, and
  neither the kernel map nor the remembered rules are touched.
\<close>

theorem acl_bad_config_keeps_rules:
  assumes "AclRules_from_json J config AclRules_new = Inl e" and "catchable e"
  shows "acl_onConfigUpdate b J K M ht i config s =
    (Inl (Except (''Invalid ACL config: '' @ exc_text e)), s)"
  using assms by (simp add: acl_onConfigUpdate_def st_simps st_catch_def)

theorem acl_bad_config_keeps_rules_witness:
  "acl_onConfigUpdate Debug ref_json (demo_skel 5) (ref_ops 10) TC 1 (JObj [(''rules'', JNull)]) demo_acl
    = (Inl (Except ''Invalid ACL config: type_error''), demo_acl)"
  by (subst acl_bad_config_keeps_rules [where e = "StdError ''type_error''"])
     (simp_all add: AclRules_from_json_def j_field_def exc_text_def)

definition acl_rules_ok :: "('w, 's) AclBase \<Rightarrow> bool" where
  "acl_rules_ok s \<longleftrightarrow> length (AclRules.acl_rules (base_rules s)) \<le> MAX_RULES_SIZE \<and>
     (\<forall>r \<in> set (AclRules.acl_rules (base_rules s)). acl_entry r \<noteq> None)"

lemma acl_clear_ok:
  "acl_clearKernelRules b K M s = (r, s1) \<Longrightarrow> acl_rules_ok s \<Longrightarrow>
     acl_rules_ok s1 \<and> (r = Inr () \<longrightarrow> AclRules.acl_rules (base_rules s1) = [])"
  by (cases "skel s"; cases b)
     (auto simp: acl_clearKernelRules_def acl_getMapFd_def with_skel_def st_simps clearRules_def
       acl_rules_ok_def split: if_splits option.splits)

lemma acl_mapfd_keeps: "acl_getMapFd b K s = (r, s') \<Longrightarrow> s' = s"
  by (cases "skel s") (auto simp: acl_getMapFd_def with_skel_def st_simps split: if_splits)

text \<open>
  Claim C26. Whatever the kernel map and the JSON library answer, the service never remembers more
  than \<open>MAX_RULES_SIZE\<close> rules, and each rule it remembers has readable addresses, a known
  protocol and a known action: every update keeps this invariant, also one that throws.
\<close>

theorem acl_rules_bounded:
  assumes "acl_rules_ok s"
  shows "acl_rules_ok (snd (acl_onConfigUpdate b J K M ht i config s))"
proof -
  obtain r s1 where c: "acl_clearKernelRules b K M s = (r, s1)" by fastforce
  obtain r2 s2 where m: "acl_getMapFd b K s1 = (r2, s2)" by fastforce
  note ok = acl_clear_ok [OF c assms] and keep = acl_mapfd_keeps [OF m]
  have "r = Inr () \<Longrightarrow> acl_rules_ok (acl_install M fd rs 0 s1)" for fd rs
    using install_rules [of 0 M fd rs s1] ok by (auto simp: acl_rules_ok_def MAX_RULES_SIZE_def)
  then show ?thesis
    using assms ok keep c m
    by (auto simp: acl_onConfigUpdate_def st_simps st_catch_def split: sum.split prod.split)
qed

theorem acl_rules_bounded_witness:
  "acl_rules_ok (snd (acl_onConfigUpdate Debug ref_json (demo_skel 5) (ref_ops 1) TC 1
      (AclRules_to_json ref_json \<lparr>acl_rules = [demo_rule DROP, demo_rule Action.UNKNOWN]\<rparr>) demo_acl))"
  by (rule acl_rules_bounded) (simp add: acl_rules_ok_def demo_acl_def AclBase_new_def AclRules_new_def)

end
