(* ===== verification/Lb_Rules.thy ===== *)
theory Lb_Rules
  imports Json_If
begin

text \<open>
  \<^verbatim>\<open>src/services/lb/lb_rules.h\<close> and \<^verbatim>\<open>lb_rules.cc\<close>: a backend, one virtual service, the load balancer's
  rule set, and their JSON conversions.
\<close>

record Backends =
  be_mac :: string

definition Backends_new :: Backends where
  "Backends_new = \<lparr>be_mac = ''''\<rparr>"

definition setMac :: "string \<Rightarrow> Backends \<Rightarrow> Backends" where
  "setMac mac b = b\<lparr>be_mac := mac\<rparr>"

definition getMac :: "Backends \<Rightarrow> string" where [simp]: "getMac b = be_mac b"

definition Backends_of :: "string \<Rightarrow> Backends" where
  "Backends_of mac = setMac mac Backends_new"

record LbRulesElem =
  lbe_vip :: string
  lbe_vport :: u16
  lbe_backends :: "Backends list"

definition LbRulesElem_new :: LbRulesElem where
  "LbRulesElem_new = \<lparr>lbe_vip = '''', lbe_vport = 0, lbe_backends = []\<rparr>"

definition setVip :: "string \<Rightarrow> LbRulesElem \<Rightarrow> LbRulesElem" where
  "setVip vip e = e\<lparr>lbe_vip := vip\<rparr>"

definition setVport :: "u16 \<Rightarrow> LbRulesElem \<Rightarrow> LbRulesElem" where
  "setVport vport e = e\<lparr>lbe_vport := vport\<rparr>"

definition setBackends :: "Backends list \<Rightarrow> LbRulesElem \<Rightarrow> LbRulesElem" where
  "setBackends backends e = e\<lparr>lbe_backends := backends\<rparr>"

definition getVip :: "LbRulesElem \<Rightarrow> string" where [simp]: "getVip e = lbe_vip e"
definition getVport :: "LbRulesElem \<Rightarrow> u16" where [simp]: "getVport e = lbe_vport e"
definition getBackends :: "LbRulesElem \<Rightarrow> Backends list" where [simp]: "getBackends e = lbe_backends e"

definition LbRulesElem_of :: "string \<Rightarrow> u16 \<Rightarrow> Backends list \<Rightarrow> LbRulesElem" where
  "LbRulesElem_of vip vport backends = setBackends backends (setVport vport (setVip vip LbRulesElem_new))"

record LbRules =
  lb_local_mac :: string
  lb_rules :: "LbRulesElem list"

definition LbRules_new :: LbRules where
  "LbRules_new = \<lparr>lb_local_mac = '''', lb_rules = []\<rparr>"

definition setLocalMac :: "string \<Rightarrow> LbRules \<Rightarrow> LbRules" where
  "setLocalMac local_mac r = r\<lparr>lb_local_mac := local_mac\<rparr>"

definition lb_setRules :: "LbRulesElem list \<Rightarrow> LbRules \<Rightarrow> LbRules" where
  "lb_setRules rules r = r\<lparr>lb_rules := rules\<rparr>"

definition lb_addRules :: "LbRulesElem \<Rightarrow> LbRules \<Rightarrow> LbRules" where
  "lb_addRules rule r = r\<lparr>lb_rules := lb_rules r @ [rule]\<rparr>"

definition lb_clearRules :: "LbRules \<Rightarrow> LbRules" where
  "lb_clearRules r = r\<lparr>lb_rules := []\<rparr>"

definition getLocalMac :: "LbRules \<Rightarrow> string" where [simp]: "getLocalMac r = lb_local_mac r"
definition lb_getRules :: "LbRules \<Rightarrow> LbRulesElem list" where [simp]: "lb_getRules r = lb_rules r"

definition LbRules_of :: "string \<Rightarrow> LbRulesElem list \<Rightarrow> LbRules" where
  "LbRules_of local_mac rules = lb_setRules rules (setLocalMac local_mac LbRules_new)"

lemmas lb_setters = setMac_def setVip_def setVport_def setBackends_def setLocalMac_def
  lb_setRules_def lb_addRules_def lb_clearRules_def

section \<open>JSON\<close>

definition Backends_from_json :: "'j json_ops \<Rightarrow> 'j \<Rightarrow> Backends \<Rightarrow> Backends res" where
  "Backends_from_json J json b = j_field J json ''mac'' (j_get_string J) setMac b"

definition Backends_to_json :: "'j json_ops \<Rightarrow> Backends \<Rightarrow> 'j" where
  "Backends_to_json J b = j_obj J [(''mac'', j_str J (getMac b))]"

definition j_list :: "'j json_ops \<Rightarrow> ('j \<Rightarrow> 'a res) \<Rightarrow> 'j \<Rightarrow> 'a list res" where
  "j_list J get v = res_bind (j_get_array J v) (res_map get)"

definition LbRulesElem_from_json :: "'j json_ops \<Rightarrow> 'j \<Rightarrow> LbRulesElem \<Rightarrow> LbRulesElem res" where
  "LbRulesElem_from_json J json e =
     res_bind (j_field J json ''vip'' (j_get_string J) setVip e) (\<lambda>e.
     res_bind (j_field J json ''vport'' (j_get_u16 J) setVport e) (\<lambda>e.
     j_field J json ''backends'' (j_list J (\<lambda>j. Backends_from_json J j Backends_new)) setBackends e))"

definition LbRulesElem_to_json :: "'j json_ops \<Rightarrow> LbRulesElem \<Rightarrow> 'j" where
  "LbRulesElem_to_json J e =
     j_obj J [(''vip'', j_str J (getVip e)), (''vport'', j_u16 J (getVport e)),
              (''backends'', j_arr J (map (Backends_to_json J) (getBackends e)))]"

definition LbRules_from_json :: "'j json_ops \<Rightarrow> 'j \<Rightarrow> LbRules \<Rightarrow> LbRules res" where
  "LbRules_from_json J json r =
     res_bind (j_field J json ''local_mac'' (j_get_string J) setLocalMac r) (\<lambda>r.
     j_field J json ''rules'' (j_list J (\<lambda>j. LbRulesElem_from_json J j LbRulesElem_new)) lb_setRules r)"

definition LbRules_to_json :: "'j json_ops \<Rightarrow> LbRules \<Rightarrow> 'j" where
  "LbRules_to_json J r =
     j_obj J [(''local_mac'', j_str J (getLocalMac r)),
              (''rules'', j_arr J (map (LbRulesElem_to_json J) (lb_getRules r)))]"

context json_lib
begin

lemma j_list_roundtrip:
  "(\<And>x. get (put x) = Inr x) \<Longrightarrow> j_list J get (j_arr J (map put xs)) = Inr xs"
  by (simp add: j_list_def array_arr, induction xs) auto

lemma lb_backend_roundtrip: "Backends_from_json J (Backends_to_json J b) b0 = Inr b"
  by (simp add: Backends_from_json_def Backends_to_json_def j_field_def contains_obj at_obj
      string_str lb_setters)

lemma lb_elem_roundtrip: "LbRulesElem_from_json J (LbRulesElem_to_json J e) e0 = Inr e"
  by (simp add: LbRulesElem_from_json_def LbRulesElem_to_json_def j_field_def contains_obj at_obj
      string_str u16_u16 lb_setters j_list_roundtrip lb_backend_roundtrip)

lemma lb_ruleset_roundtrip: "LbRules_from_json J (LbRules_to_json J r) r0 = Inr r"
  by (simp add: LbRules_from_json_def LbRules_to_json_def j_field_def contains_obj at_obj
      string_str lb_setters j_list_roundtrip lb_elem_roundtrip)

end

end
