(* ===== verification/Lb_Datapath.thy ===== *)
theory Lb_Datapath
  imports Packet
begin

text \<open>
  \<^verbatim>\<open>src/services/lb/lb_xdp.bpf.c\<close>: the direct-server-return load balancer. It looks the packet's
  destination up among the virtual services, picks a backend by the source address, rewrites the
  two MAC addresses and sends the frame back out. The three maps are arguments, as lookup functions.
\<close>

section \<open>Keys and values (lb\_common.h)\<close>

definition MAX_BACKENDS_PER_VIP :: nat where "MAX_BACKENDS_PER_VIP = 8"
definition TOTAL_BACKENDS :: nat where "TOTAL_BACKENDS = 256"
definition MAXSIZE_LB_HASH :: nat where "MAXSIZE_LB_HASH = 64"

record vip_key =
  vk_vip :: u32
  vk_vport :: u16
  vk_padding :: u16

text \<open>\<open>vg_backends\<close> is an array of \<open>MAX_BACKENDS_PER_VIP\<close> pool indices.\<close>

record vip_group =
  vg_backends :: "u32 list"
  vg_count :: u32
  vg_padding :: u32

text \<open>\<^verbatim>\<open>unsigned char mac[6]\<close>\<close>

datatype mac_addr = Mac u8 u8 u8 u8 u8 u8

fun mac_list :: "mac_addr \<Rightarrow> u8 list" where
  "mac_list (Mac a b c d e f) = [a, b, c, d, e, f]"

definition mac_of :: "u8 list \<Rightarrow> mac_addr" where
  "mac_of bs = Mac (bs ! 0) (bs ! 1) (bs ! 2) (bs ! 3) (bs ! 4) (bs ! 5)"

lemma length_mac_list [simp]: "length (mac_list m) = 6"
  by (cases m) simp

record backend_info =
  bi_mac :: mac_addr
  bi_padding :: u16

record lb_maps =
  vip_backends :: "vip_key \<Rightarrow> vip_group option"
  backend_pool :: "u32 \<Rightarrow> backend_info option"
  lb_lomac :: "u32 \<Rightarrow> mac_addr option"

section \<open>The program\<close>

text \<open>
  \<^verbatim>\<open>__builtin_memcpy(eth->h_dest, mac, 6)\<close> and the same for \<^verbatim>\<open>h_source\<close>: six bytes at offset 0 or
  6; \<open>None\<close> when they do not fit the packet.
\<close>

definition wr_mac :: "frame \<Rightarrow> nat \<Rightarrow> mac_addr \<Rightarrow> frame option" where
  "wr_mac p i mac =
     (if i + 6 \<le> length p then Some (take i p @ mac_list mac @ drop (i + 6) p) else None)"

text \<open>\<open>Some (Some dport)\<close>, \<open>Some None\<close> for \<^verbatim>\<open>return XDP_PASS\<close>; other protocols go to the chain.\<close>

definition lb_dport :: "frame \<Rightarrow> u8 \<Rightarrow> nat \<Rightarrow> u16 option option" where
  "lb_dport p proto l4 =
     (if l4 + (if proto = IPPROTO_TCP then TCP_HLEN else UDP_HLEN) > length p then Some None
      else map_option Some (l4_dest p l4))"

text \<open>The backend for a packet, \<open>None\<close> for the paths that jump to \<^verbatim>\<open>chain\<close> without one.\<close>

definition lb_select :: "lb_maps \<Rightarrow> u32 \<Rightarrow> u32 \<Rightarrow> u16 \<Rightarrow> backend_info option" where
  "lb_select m saddr daddr dport =
     (case vip_backends m \<lparr>vk_vip = daddr, vk_vport = dport, vk_padding = 0\<rparr> of
        None \<Rightarrow> None
      | Some grp \<Rightarrow>
          (if vg_count grp = 0 then None
           else let idx = saddr mod vg_count grp
                in if unat idx \<ge> MAX_BACKENDS_PER_VIP then None
                   else backend_pool m (vg_backends grp ! unat idx)))"

text \<open>The frame is part of the result, since the program writes into the packet.\<close>

definition hebpf_lb_xdp_gen :: "lb_maps \<Rightarrow> frame \<Rightarrow> (xdp_act outcome \<times> frame) option" where
  "hebpf_lb_xdp_gen m p =
     (if ETH_HLEN > length p then Some (Return XDP_PASS, p)
      else
        Option.bind (h_proto p) (\<lambda>eth_proto.
        if eth_proto \<noteq> htons ETH_P_IP then Some (Return XDP_PASS, p)
        else if ETH_HLEN + IP_HLEN > length p then Some (Return XDP_PASS, p)
        else
          Option.bind (ip_protocol p) (\<lambda>proto.
          if proto \<noteq> IPPROTO_TCP \<and> proto \<noteq> IPPROTO_UDP then Some (Chain_then XDP_PASS, p)
          else
            Option.bind (ip_ihl p) (\<lambda>ihl.
            Option.bind (lb_dport p proto (ETH_HLEN + ihl * 4)) (\<lambda>port.
            case port of
              None \<Rightarrow> Some (Return XDP_PASS, p)
            | Some dport \<Rightarrow>
                Option.bind (ip_daddr p) (\<lambda>daddr.
                Option.bind (ip_saddr p) (\<lambda>saddr.
                case lb_select m saddr daddr dport of
                  None \<Rightarrow> Some (Chain_then XDP_PASS, p)
                | Some be \<Rightarrow>
                    Option.bind (case lb_lomac m 0 of
                                   None \<Rightarrow> Some p
                                 | Some mac \<Rightarrow> wr_mac p 6 mac) (\<lambda>p1.
                    Option.bind (wr_mac p1 0 (bi_mac be)) (\<lambda>p2.
                    Some (Chain_then XDP_TX, p2))))))))))"

section \<open>Abstract balancer\<close>

text \<open>The virtual service of a packet: its addresses and destination port, if it is IPv4 TCP or UDP.\<close>

definition lb_flow :: "frame \<Rightarrow> (u32 \<times> u32 \<times> u16) option" where
  "lb_flow p =
     (if ETH_HLEN + IP_HLEN \<le> length p \<and> h_proto p = Some (htons ETH_P_IP)
         \<and> (the (ip_protocol p) = IPPROTO_TCP
              \<and> ETH_HLEN + the (ip_ihl p) * 4 + TCP_HLEN \<le> length p
            \<or> the (ip_protocol p) = IPPROTO_UDP
              \<and> ETH_HLEN + the (ip_ihl p) * 4 + UDP_HLEN \<le> length p)
      then Some (the (ip_saddr p), the (ip_daddr p), the (l4_dest p (ETH_HLEN + the (ip_ihl p) * 4)))
      else None)"

definition lb_backend :: "lb_maps \<Rightarrow> frame \<Rightarrow> backend_info option" where
  "lb_backend m p = Option.bind (lb_flow p) (\<lambda>(sa, da, dp). lb_select m sa da dp)"

text \<open>The rewritten frame: destination MAC of the backend, source MAC of the balancer if it is known.\<close>

definition lb_rewrite :: "lb_maps \<Rightarrow> backend_info \<Rightarrow> frame \<Rightarrow> frame" where
  "lb_rewrite m be p =
     mac_list (bi_mac be)
     @ (case lb_lomac m 0 of Some mac \<Rightarrow> mac_list mac | None \<Rightarrow> take 6 (drop 6 p))
     @ drop 12 p"

lemma lb_rewritten:
  assumes "ETH_HLEN \<le> length p"
  shows "Option.bind (case lb_lomac m 0 of None \<Rightarrow> Some p | Some mac \<Rightarrow> wr_mac p 6 mac) (\<lambda>p1.
         Option.bind (wr_mac p1 0 (bi_mac be)) (\<lambda>p2. Some (Chain_then XDP_TX, p2)))
       = Some (Chain_then XDP_TX, lb_rewrite m be p)"
proof -
  have len: "12 \<le> length p" using assms(1) by (simp add: header_sizes)
  have dst: "wr_mac q 0 mac = Some (mac_list mac @ drop 6 q)" if "12 \<le> length q" for q mac
    using that by (simp add: wr_mac_def)
  show ?thesis
  proof (cases "lb_lomac m 0")
    case None
    have "drop 6 p = take 6 (drop 6 p) @ drop 12 p"
      using append_take_drop_id [of 6 "drop 6 p"] by simp
    with None len show ?thesis by (simp add: dst lb_rewrite_def)
  next
    case (Some mac)
    have src: "wr_mac p 6 mac = Some (take 6 p @ mac_list mac @ drop 12 p)"
      using len by (simp add: wr_mac_def)
    from Some len show ?thesis by (simp add: src dst lb_rewrite_def)
  qed
qed

lemma lb_xdp_flow:
  assumes "ETH_HLEN \<le> length p" and "lb_flow p = Some (sa, da, dp)"
  shows "hebpf_lb_xdp_gen m p = Some (case lb_select m sa da dp of
      None \<Rightarrow> (Chain_then XDP_PASS, p)
    | Some be \<Rightarrow> (Chain_then XDP_TX, lb_rewrite m be p))"
proof -
  have len: "ETH_HLEN + IP_HLEN \<le> length p" "h_proto p = Some (htons ETH_P_IP)"
    using assms(2) by (auto simp: lb_flow_def split: if_splits)
  then obtain ihl proto sa' da' where f: "ip_ihl p = Some ihl" "ip_protocol p = Some proto"
    "ip_saddr p = Some sa'" "ip_daddr p = Some da'"
    by (auto elim: ip_header_read)
  let ?l4 = "ETH_HLEN + ihl * 4"
  from assms(2) f have pr: "proto = IPPROTO_TCP \<and> ?l4 + TCP_HLEN \<le> length p
      \<or> proto = IPPROTO_UDP \<and> ?l4 + UDP_HLEN \<le> length p"
    by (auto simp: lb_flow_def split: if_splits)
  then obtain d where d: "l4_dest p ?l4 = Some d"
    using l4_ports_read [of ?l4 p] by blast
  with assms(2) f have eq: "sa = sa'" "da = da'" "dp = d"
    by (auto simp: lb_flow_def split: if_splits)
  have port: "lb_dport p proto ?l4 = Some (Some d)"
    using pr d by (auto simp: lb_dport_def IPPROTO_TCP_def IPPROTO_UDP_def)
  show ?thesis
  proof (cases "lb_select m sa da dp")
    case None
    with len f port pr eq show ?thesis
      by (auto simp: hebpf_lb_xdp_gen_def)
  next
    case (Some be)
    note rw = lb_rewritten [OF assms(1), of m be]
    from Some len f port pr eq show ?thesis
      by (auto simp: hebpf_lb_xdp_gen_def rw)
  qed
qed

lemma lb_xdp_no_flow:
  assumes "lb_flow p = None"
  shows "\<exists>v. hebpf_lb_xdp_gen m p = Some (v, p) \<and> (v = Return XDP_PASS \<or> v = Chain_then XDP_PASS)"
proof (cases "ETH_HLEN + IP_HLEN \<le> length p")
  case False
  then show ?thesis
    using h_proto_read [of p] by (auto simp: hebpf_lb_xdp_gen_def)
next
  case True
  then obtain ep ihl proto where f: "h_proto p = Some ep" "ip_ihl p = Some ihl" "ip_protocol p = Some proto"
    by (auto elim: ip_header_read)
  with assms True show ?thesis
    by (auto simp: hebpf_lb_xdp_gen_def lb_flow_def lb_dport_def)
qed

lemma lb_flow_len: "lb_flow p = Some f \<Longrightarrow> ETH_HLEN \<le> length p"
  by (auto simp: lb_flow_def split: if_splits)

lemma lb_xdp_backend:
  assumes "lb_backend m p = Some be"
  shows "hebpf_lb_xdp_gen m p = Some (Chain_then XDP_TX, lb_rewrite m be p)"
proof -
  obtain sa da dp where f: "lb_flow p = Some (sa, da, dp)" "lb_select m sa da dp = Some be"
    using assms by (auto simp: lb_backend_def bind_eq_Some_conv)
  with lb_xdp_flow [OF lb_flow_len [OF f(1)] f(1)] show ?thesis by simp
qed

lemma lb_xdp_no_backend:
  assumes "lb_backend m p = None"
  shows "hebpf_lb_xdp_gen m p = Some (Return XDP_PASS, p) \<or>
         hebpf_lb_xdp_gen m p = Some (Chain_then XDP_PASS, p)"
proof (cases "lb_flow p")
  case None
  then show ?thesis using lb_xdp_no_flow [OF None, of m] by blast
next
  case (Some f)
  obtain sa da dp where f: "f = (sa, da, dp)" by (cases f)
  from lb_xdp_flow [OF lb_flow_len [OF Some] Some [unfolded f]] Some f assms
  show ?thesis by (auto simp: lb_backend_def split: option.splits)
qed

section \<open>Properties\<close>

text \<open>
  Claim C9. The load balancer never reads or writes outside the packet, for any frame and any
  maps. It sends back out exactly the IPv4 TCP and UDP packets whose
  destination is a virtual service with a backend, with the MAC addresses rewritten; every other
  packet is passed on as it came.
\<close>

theorem lb_xdp_correct:
  "case lb_backend m p of
      Some be \<Rightarrow> hebpf_lb_xdp_gen m p = Some (Chain_then XDP_TX, lb_rewrite m be p)
    | None \<Rightarrow> hebpf_lb_xdp_gen m p = Some (Return XDP_PASS, p)
            \<or> hebpf_lb_xdp_gen m p = Some (Chain_then XDP_PASS, p)"
  using lb_xdp_backend [of m p] lb_xdp_no_backend [of m p]
  by (auto split: option.split)

definition demo_lb_maps :: lb_maps where
  "demo_lb_maps =
     \<lparr>vip_backends = (\<lambda>k. if vk_vip k = 0x0200000A then
        Some \<lparr>vg_backends = [0, 1, 0, 0, 0, 0, 0, 0], vg_count = 2, vg_padding = 0\<rparr> else None),
      backend_pool = (\<lambda>k. Some \<lparr>bi_mac = Mac 2 0 0 0 0 (ucast k), bi_padding = 0\<rparr>),
      lb_lomac = (\<lambda>k. Some (Mac 2 0 0 0 0 9))\<rparr>"

definition demo_packet :: frame where
  "demo_packet =
     [0, 0, 0, 0, 0, 0, 0, 0, 0, 0, 0, 0, 0x08, 0x00]
     @ [0x45, 0, 0, 0, 0, 0, 0, 0, 64, 17, 0, 0, 10, 0, 0, 1, 10, 0, 0, 2]
     @ [0x04, 0xD2, 0x00, 80, 0, 0, 0, 0]"

lemma demo_packet_flow: "lb_flow demo_packet = Some (0x0100000A, 0x0200000A, 0x5000)"
  by (simp add: lb_flow_def demo_packet_def header_fields header_sizes rd8_def rd16_def rd32_def
      IPPROTO_TCP_def IPPROTO_UDP_def ETH_P_IP_def htons_def)

text \<open>
  Direct server return: the load balancer changes at most the two MAC addresses. The
  frame keeps its length, and everything from the Ethernet type on (addresses, ports, payload) is
  untouched, whatever the verdict.
\<close>

theorem lb_only_macs_change:
  assumes "hebpf_lb_xdp_gen m p = Some (v, q)"
  shows "length q = length p \<and> drop 12 q = drop 12 p"
proof (cases "lb_backend m p")
  case None
  with lb_xdp_no_backend [OF None] assms show ?thesis by auto
next
  case (Some be)
  then obtain sa da dp where f: "lb_flow p = Some (sa, da, dp)" "lb_select m sa da dp = Some be"
    by (auto simp: lb_backend_def bind_eq_Some_conv)
  have len: "12 \<le> length p"
    using lb_flow_len [OF f(1)] by (simp add: header_sizes)
  have "q = lb_rewrite m be p"
    using lb_xdp_backend [OF Some] assms by simp
  then show ?thesis
    using len by (auto simp: lb_rewrite_def split: option.split)
qed

theorem lb_only_macs_change_witness:
  "drop 12 (snd (the (hebpf_lb_xdp_gen demo_lb_maps demo_packet))) = drop 12 demo_packet"
proof -
  obtain v q where "hebpf_lb_xdp_gen demo_lb_maps demo_packet = Some (v, q)"
    using lb_xdp_flow [OF _ demo_packet_flow]
    by (cases "hebpf_lb_xdp_gen demo_lb_maps demo_packet")
       (auto simp: demo_packet_def header_sizes)
  then show ?thesis
    using lb_only_macs_change by simp
qed

end
