(* ===== verification/Lb_Service.thy ===== *)
theory Lb_Service
  imports Lb_Rules Lb_Datapath Std_Lib Net_Hook
begin

text \<open>
  \<^verbatim>\<open>src/services/lb/lb_base.tpp\<close>: the user-space half of the load balancer, which writes three
  kernel maps: the virtual services, the pool of backends and the balancer's own MAC address.
  \<^verbatim>\<open>boost::asio::ip::make_address_v4\<close> is the parameter \<open>addr4\<close>; the stack bytes a buffer holds
  before it is written are the parameter \<open>junk\<close>.
\<close>

section \<open>Array maps\<close>

text \<open>
  Documented behaviour of \<^verbatim>\<open>BPF_MAP_TYPE_ARRAY\<close>: every index below the size is present, an update
  beyond it fails, a deletion does nothing, \<^verbatim>\<open>get_next_key\<close> counts upwards and ends.
\<close>

locale bpf_array =
  fixes ops :: "('w, u32, 'v) map_ops" and fd :: int and size :: nat
  assumes size_pos: "0 < size" and size_max: "size < 2 ^ 32"
    and arr_next_first: "m_next ops w fd None = Some 0"
    and arr_next: "unat k < size \<Longrightarrow>
      m_next ops w fd (Some k) = (if unat k + 1 = size then None else Some (k + 1))"
    and arr_delete: "m_delete ops w fd k = w"
    and arr_update: "fst (m_update ops w fd k v) \<longleftrightarrow> unat k < size"
    and arr_lookup: "m_update ops w fd k v = (True, w') \<Longrightarrow>
      m_lookup ops w' fd k' = (if k' = k then Some v else m_lookup ops w fd k')"
begin

lemma arr_collect_from:
  "unat k < size \<Longrightarrow> \<exists>ks. collect_from ops w fd k acc = Some ks"
proof (induction "size - unat k" arbitrary: k acc rule: less_induct)
  case less
  show ?case
  proof (cases "unat k + 1 = size")
    case True
    then show ?thesis
      using arr_next [OF less.prems] by (simp add: collect_from.simps [of ops w fd k])
  next
    case False
    have "unat (k + 1) = unat k + 1"
      using less.prems False size_max unat_word_ariths(1) [of k 1] by simp
    then have "\<exists>ks. collect_from ops w fd (k + 1) (acc @ [k]) = Some ks"
      using less.hyps [of "k + 1"] less.prems False by simp
    then show ?thesis
      using arr_next [OF less.prems] False by (simp add: collect_from.simps [of ops w fd k])
  qed
qed

lemma arr_collect: "\<exists>ks. collect_keys ops w fd = Some ks"
  using arr_collect_from [of 0] size_pos by (simp add: collect_keys_def arr_next_first)

lemma arr_delete_keys: "delete_keys ops fd ks w = w"
  by (induction ks) (simp_all add: delete_keys_def arr_delete)

end

section \<open>LbBase\<close>

definition LB_MAX_RULES_SIZE :: nat where "LB_MAX_RULES_SIZE = 10240"

record ('w, 's) LbBase = "('w, 's) EbpfWithNetHook" +
  lb_base_rules :: LbRules

text \<open>The map calls of the service: virtual services, backend pool, local MAC address.\<close>

record 'w lb_kernel_ops =
  k_vip :: "('w, vip_key, vip_group) map_ops"
  k_pool :: "('w, u32, backend_info) map_ops"
  k_lomac :: "('w, u32, mac_addr) map_ops"

definition LbBase_new :: "'w \<Rightarrow> 's option \<Rightarrow> ('w, 's) LbBase" where
  "LbBase_new w sk =
     \<lparr>kernel = w, skel = sk, io_ctx = None, wh_hook = None, wh_ifindex = FD_INVALID,
      wh_attached = False, lb_base_rules = LbRules_new\<rparr>"

definition lb_start :: "build \<Rightarrow> ('w, 's) skel_ops \<Rightarrow> (nat \<Rightarrow> bool) \<Rightarrow> nat option \<Rightarrow>
    (bool, ('w, 's) LbBase) st" where
  "lb_start b K = service_start b K ''lb''"

definition lb_stop :: "build \<Rightarrow> ('w, 's) skel_ops \<Rightarrow> (unit, ('w, 's) LbBase) st" where
  "lb_stop b K = service_stop b K"

text \<open>The template parameter: \<open>True\<close> for \<^verbatim>\<open>lb_xdp_bpf\<close>.\<close>

definition lb_getMainProgFd :: "bool \<Rightarrow> ('w, 's) skel_ops \<Rightarrow> ('w, 's) LbBase \<Rightarrow> int" where
  "lb_getMainProgFd xdp K s =
     (case skel s of
        None \<Rightarrow> -1
      | Some sk \<Rightarrow> sk_prog_fd K sk (if xdp then ''hebpf_lb_xdp_gen'' else ''hebpf_lb_tc''))"

definition lb_getDebugStatus :: "'j json_ops \<Rightarrow> ('w, 's) LbBase \<Rightarrow> 'j" where
  "lb_getDebugStatus J s = LbRules_to_json J (lb_base_rules s)"

definition getVipBackendsFd :: "build \<Rightarrow> ('w, 's) skel_ops \<Rightarrow> (int, ('w, 's) LbBase) st" where
  "getVipBackendsFd b K =
     with_skel b (\<lambda>sk.
       if sk_map_fd K sk ''vip_backends'' < 0
       then st_throw (Except ''Failed to get LB hash rules in kernel mode'')
       else st_ret (sk_map_fd K sk ''vip_backends''))"

definition getBackendsPoolFd :: "build \<Rightarrow> ('w, 's) skel_ops \<Rightarrow> (int, ('w, 's) LbBase) st" where
  "getBackendsPoolFd b K =
     with_skel b (\<lambda>sk.
       if sk_map_fd K sk ''backend_pool'' < 0
       then st_throw (Except ''Failed to get LB array rules in kernel mode'')
       else st_ret (sk_map_fd K sk ''backend_pool''))"

definition getLocalMacFd :: "build \<Rightarrow> ('w, 's) skel_ops \<Rightarrow> (int, ('w, 's) LbBase) st" where
  "getLocalMacFd b K =
     with_skel b (\<lambda>sk.
       if sk_map_fd K sk ''lb_lomac'' < 0
       then st_throw (Except ''Failed to get LB array rules in kernel mode'')
       else st_ret (sk_map_fd K sk ''lb_lomac''))"

definition lb_clear_map :: "('w, 'k, 'v) map_ops \<Rightarrow> int \<Rightarrow> (unit, ('w, 's) LbBase) st" where
  "lb_clear_map M fd s =
     (case collect_keys M (kernel s) fd of
        None \<Rightarrow> (Inl Diverge, s)
      | Some keys \<Rightarrow> (Inr (), s\<lparr>kernel := delete_keys M fd keys (kernel s)\<rparr>))"

definition lb_clearKernelRules :: "build \<Rightarrow> ('w, 's) skel_ops \<Rightarrow> 'w lb_kernel_ops \<Rightarrow>
    (unit, ('w, 's) LbBase) st" where
  "lb_clearKernelRules b K M =
     st_bind (getVipBackendsFd b K) (\<lambda>vip_hash_fd.
     st_bind (lb_clear_map (k_vip M) vip_hash_fd) (\<lambda>_.
     st_bind (getBackendsPoolFd b K) (\<lambda>backend_array_fd.
     st_bind (lb_clear_map (k_pool M) backend_array_fd) (\<lambda>_.
     st_mod (\<lambda>s. s\<lparr>lb_base_rules := lb_clearRules (lb_base_rules s)\<rparr>)))))"

text \<open>
  The inner loop over the backends of one rule, from backend \<open>i\<close> on: next free index of the pool,
  kernel state and the group's index array. A pool that is full ends the loop; an unreadable MAC
  address or a failed update skips the backend after its pool index has been taken.
\<close>

fun lb_fill :: "('w, u32, backend_info) map_ops \<Rightarrow> int \<Rightarrow> Backends list \<Rightarrow> nat \<Rightarrow> nat \<Rightarrow> 'w \<Rightarrow> u32 list \<Rightarrow>
    nat \<times> 'w \<times> u32 list" where
  "lb_fill P fd [] i pool_next w arr = (pool_next, w, arr)"
| "lb_fill P fd (be # bes) i pool_next w arr =
     (if pool_next \<ge> TOTAL_BACKENDS then (pool_next, w, arr)
      else
        let idx = pool_next;
            (n, mac) = sscanf_mac (be_mac be) (replicate 6 0)
        in if n \<noteq> 6 then lb_fill P fd bes (i + 1) (pool_next + 1) w arr
           else case m_update P w fd (of_nat idx) \<lparr>bi_mac = mac_of mac, bi_padding = 0\<rparr> of
                  (False, w') \<Rightarrow> lb_fill P fd bes (i + 1) (pool_next + 1) w' arr
                | (True, w') \<Rightarrow>
                    lb_fill P fd bes (i + 1) (pool_next + 1) w' (arr[i := of_nat idx]))"

fun lb_install :: "(string \<Rightarrow> u32 option) \<Rightarrow> 'w lb_kernel_ops \<Rightarrow> int \<Rightarrow> int \<Rightarrow> LbRulesElem list \<Rightarrow>
    nat \<Rightarrow> nat \<Rightarrow> ('w, 's) LbBase \<Rightarrow> ('w, 's) LbBase" where
  "lb_install addr4 M vfd pfd [] success pool_next s = s"
| "lb_install addr4 M vfd pfd (rule # rules) success pool_next s =
     (case addr4 (lbe_vip rule) of
        None \<Rightarrow> lb_install addr4 M vfd pfd rules success pool_next s
      | Some vip_addr \<Rightarrow>
          let vkey = \<lparr>vk_vip = htonl vip_addr, vk_vport = htons (lbe_vport rule), vk_padding = 0\<rparr>;
              be_count = min (length (lbe_backends rule)) MAX_BACKENDS_PER_VIP;
              (pool_next', w, arr) =
                lb_fill (k_pool M) pfd (take be_count (lbe_backends rule)) 0 pool_next (kernel s)
                  (replicate MAX_BACKENDS_PER_VIP 0);
              groups = \<lparr>vg_backends = arr, vg_count = of_nat be_count, vg_padding = 0\<rparr>
          in (case m_update (k_vip M) w vfd vkey groups of
                (False, w') \<Rightarrow>
                  lb_install addr4 M vfd pfd rules success pool_next' (s\<lparr>kernel := w'\<rparr>)
              | (True, w') \<Rightarrow>
                  (let s' = s\<lparr>kernel := w', lb_base_rules := lb_addRules rule (lb_base_rules s)\<rparr>
                   in if success + 1 \<ge> LB_MAX_RULES_SIZE then s'
                      else lb_install addr4 M vfd pfd rules (success + 1) pool_next' s')))"

text \<open>\<^verbatim>\<open>mac\<close> is an uninitialised array; the update stores it whether or not the text was readable.\<close>

definition lb_store_local_mac :: "'w lb_kernel_ops \<Rightarrow> mac_addr \<Rightarrow> int \<Rightarrow> string \<Rightarrow>
    (unit, ('w, 's) LbBase) st" where
  "lb_store_local_mac M junk fd local_mac =
     st_mod (\<lambda>s. s\<lparr>kernel := snd (m_update (k_lomac M) (kernel s) fd 0 (mac_of (snd (sscanf_mac local_mac (mac_list junk))))),
                   lb_base_rules := setLocalMac local_mac (lb_base_rules s)\<rparr>)"

definition lb_onConfigUpdate :: "build \<Rightarrow> 'j json_ops \<Rightarrow> ('w, 's) skel_ops \<Rightarrow> 'w lb_kernel_ops \<Rightarrow>
    (string \<Rightarrow> u32 option) \<Rightarrow> mac_addr \<Rightarrow> HookType \<Rightarrow> int \<Rightarrow> 'j \<Rightarrow> (unit, ('w, 's) LbBase) st" where
  "lb_onConfigUpdate b J K M addr4 junk hook_type ifindex config =
     st_bind (st_catch (st_res (LbRules_from_json J config LbRules_new))
                (\<lambda>e. st_throw (Except (''Invalid LB config: '' @ exc_text e)))) (\<lambda>rules.
     st_bind (lb_clearKernelRules b K M) (\<lambda>_.
     st_bind (getLocalMacFd b K) (\<lambda>local_mac_fd.
     st_bind (lb_store_local_mac M junk local_mac_fd (lb_local_mac rules)) (\<lambda>_.
     st_bind (getVipBackendsFd b K) (\<lambda>vip_hash_fd.
     st_bind (getBackendsPoolFd b K) (\<lambda>backend_array_fd.
     st_mod (lb_install addr4 M vip_hash_fd backend_array_fd (lb_rules rules) 0 0)))))))"

section \<open>What a configuration installs\<close>

definition vip_key_of :: "(string \<Rightarrow> u32 option) \<Rightarrow> LbRulesElem \<Rightarrow> vip_key" where
  "vip_key_of addr4 rule =
     \<lparr>vk_vip = htonl (the (addr4 (lbe_vip rule))), vk_vport = htons (lbe_vport rule), vk_padding = 0\<rparr>"

definition used_backends :: "LbRulesElem \<Rightarrow> Backends list" where
  "used_backends rule = take MAX_BACKENDS_PER_VIP (lbe_backends rule)"

definition pool_entry :: "Backends \<Rightarrow> backend_info" where
  "pool_entry be = \<lparr>bi_mac = mac_of (the (mac_bytes (be_mac be))), bi_padding = 0\<rparr>"

definition pool_of :: "LbRulesElem list \<Rightarrow> backend_info list" where
  "pool_of rules = map pool_entry (concat (map used_backends rules))"

definition group_of :: "nat \<Rightarrow> nat \<Rightarrow> vip_group" where
  "group_of pn n =
     \<lparr>vg_backends = map of_nat [pn ..< pn + n] @ replicate (MAX_BACKENDS_PER_VIP - n) 0,
      vg_count = of_nat n, vg_padding = 0\<rparr>"

fun lb_table :: "(string \<Rightarrow> u32 option) \<Rightarrow> LbRulesElem list \<Rightarrow> nat \<Rightarrow> (vip_key \<times> vip_group) list" where
  "lb_table addr4 [] pn = []"
| "lb_table addr4 (r # rs) pn =
     (vip_key_of addr4 r, group_of pn (length (used_backends r)))
     # lb_table addr4 rs (pn + length (used_backends r))"

text \<open>A rule without any of the mistakes the update only logs.\<close>

definition lb_valid :: "(string \<Rightarrow> u32 option) \<Rightarrow> LbRulesElem \<Rightarrow> bool" where
  "lb_valid addr4 rule \<longleftrightarrow> addr4 (lbe_vip rule) \<noteq> None \<and>
     (\<forall>be \<in> set (used_backends rule). mac_bytes (be_mac be) \<noteq> None)"

text \<open>The service between clearing the maps and installing the rules; \<open>ks\<close> are the keys it deletes.\<close>

definition lb_emptied :: "'w lb_kernel_ops \<Rightarrow> int \<Rightarrow> int \<Rightarrow> vip_key list \<Rightarrow> LbRules \<Rightarrow> mac_addr \<Rightarrow> ('w, 's) LbBase \<Rightarrow> ('w, 's) LbBase" where
  "lb_emptied M vfd lfd ks a junk s = s\<lparr>
     kernel := snd (m_update (k_lomac M) (delete_keys (k_vip M) vfd ks (kernel s)) lfd 0
       (mac_of (snd (sscanf_mac (lb_local_mac a) (mac_list junk))))),
     lb_base_rules := setLocalMac (lb_local_mac a) (lb_clearRules (lb_base_rules s))\<rparr>"

text \<open>The three maps behind the descriptors of one service.\<close>

locale lb_kernel =
  vipmap: bpf_hash_cap "k_vip M" vfd keys cap + poolmap: bpf_array "k_pool M" pfd TOTAL_BACKENDS
  for M :: "'w lb_kernel_ops" and vfd :: int and pfd :: int and keys :: "'w \<Rightarrow> vip_key list"
    and cap :: nat +
  fixes lfd :: int
  assumes vip_of_pool:
      "m_lookup (k_vip M) (snd (m_update (k_pool M) w pfd k v)) vfd x = m_lookup (k_vip M) w vfd x"
    and pool_of_vip:
      "m_lookup (k_pool M) (snd (m_update (k_vip M) w vfd k' g)) pfd y = m_lookup (k_pool M) w pfd y"
    and vip_of_lomac:
      "m_lookup (k_vip M) (snd (m_update (k_lomac M) w lfd k mac)) vfd x = m_lookup (k_vip M) w vfd x"
begin

lemma same_keys:
  assumes "\<And>x. m_lookup (k_vip M) w' vfd x = m_lookup (k_vip M) w vfd x"
  shows "length (keys w') = length (keys w)"
proof -
  have "set (keys w') = set (keys w)"
    using vipmap.keys_lookup assms by auto
  then show ?thesis
    by (metis distinct_card vipmap.keys_distinct)
qed

lemma fill_valid:
  "\<forall>be \<in> set bes. mac_bytes (be_mac be) \<noteq> None \<Longrightarrow> pn + length bes \<le> TOTAL_BACKENDS \<Longrightarrow>
   i + length bes \<le> length arr \<Longrightarrow>
   \<exists>w'. lb_fill (k_pool M) pfd bes i pn w arr =
      (pn + length bes, w', take i arr @ map of_nat [pn ..< pn + length bes] @ drop (i + length bes) arr) \<and>
     (\<forall>y. m_lookup (k_pool M) w' pfd y =
        (if pn \<le> unat y \<and> unat y < pn + length bes
         then Some (pool_entry (bes ! (unat y - pn))) else m_lookup (k_pool M) w pfd y)) \<and>
     (\<forall>x. m_lookup (k_vip M) w' vfd x = m_lookup (k_vip M) w vfd x)"
proof (induction bes arbitrary: i pn w arr)
  case Nil
  then show ?case by auto
next
  case (Cons be bes)
  have room: "pn < TOTAL_BACKENDS" "unat (of_nat pn :: u32) = pn"
    using Cons.prems(2) by (simp_all add: TOTAL_BACKENDS_def unat_of_nat)
  obtain mac where mac: "mac_bytes (be_mac be) = Some mac" using Cons.prems(1) by auto
  note scan = sscanf_mac_ok [of "replicate 6 0", simplified, OF mac]
  obtain w1 where u: "m_update (k_pool M) w pfd (of_nat pn) (pool_entry be) = (True, w1)"
    using poolmap.arr_update [of w "of_nat pn" "pool_entry be"] room
    by (cases "m_update (k_pool M) w pfd (of_nat pn) (pool_entry be)") auto
  let ?arr = "arr[i := of_nat pn]"
  have step: "lb_fill (k_pool M) pfd (be # bes) i pn w arr =
      lb_fill (k_pool M) pfd bes (i + 1) (pn + 1) w1 ?arr"
    using scan u room mac by (simp add: pool_entry_def)
  obtain w' where
    f: "lb_fill (k_pool M) pfd bes (i + 1) (pn + 1) w1 ?arr =
      (pn + 1 + length bes, w', take (i + 1) ?arr @ map of_nat [pn + 1 ..< pn + 1 + length bes]
         @ drop (i + 1 + length bes) ?arr)" and
    p: "\<forall>y. m_lookup (k_pool M) w' pfd y =
        (if pn + 1 \<le> unat y \<and> unat y < pn + 1 + length bes
         then Some (pool_entry (bes ! (unat y - (pn + 1)))) else m_lookup (k_pool M) w1 pfd y)" and
    v: "\<forall>x. m_lookup (k_vip M) w' vfd x = m_lookup (k_vip M) w1 vfd x"
    using Cons.IH [of "pn + 1" "i + 1" ?arr w1] Cons.prems by auto
  have arr: "take (i + 1) ?arr = take i arr @ [of_nat pn]" "drop (i + 1 + length bes) ?arr = drop (i + 1 + length bes) arr"
    using Cons.prems(3) by (simp_all add: take_Suc_conv_app_nth)
  have eq: "y = of_nat pn \<longleftrightarrow> unat y = pn" for y :: u32
    by (simp add: word_unat_eq_iff room)
  have "m_lookup (k_pool M) w' pfd y =
        (if pn \<le> unat y \<and> unat y < pn + length (be # bes)
         then Some (pool_entry ((be # bes) ! (unat y - pn))) else m_lookup (k_pool M) w pfd y)" for y
    using p poolmap.arr_lookup [OF u, of y] eq [of y] by (auto simp: nth_Cons')
  moreover have "m_lookup (k_vip M) w' vfd x = m_lookup (k_vip M) w vfd x" for x
    using v vip_of_pool [of w "of_nat pn" "pool_entry be" x] u by simp
  moreover have "lb_fill (k_pool M) pfd (be # bes) i pn w arr =
      (pn + length (be # bes), w', take i arr @ map of_nat [pn ..< pn + length (be # bes)]
         @ drop (i + length (be # bes)) arr)"
    unfolding step f arr by (simp add: upt_conv_Cons del: upt_Suc)
  ultimately show ?case by blast
qed

lemma install_valid:
  "\<forall>r \<in> set rs. lb_valid addr4 r \<Longrightarrow> pn + length (pool_of rs) \<le> TOTAL_BACKENDS \<Longrightarrow>
   n + length rs \<le> LB_MAX_RULES_SIZE \<Longrightarrow> length (keys (kernel s)) + length rs \<le> cap \<Longrightarrow>
   s' = lb_install addr4 M vfd pfd rs n pn s \<Longrightarrow>
   (\<forall>x. m_lookup (k_vip M) (kernel s') vfd x =
      (case map_of (rev (lb_table addr4 rs pn)) x of
         Some g \<Rightarrow> Some g | None \<Rightarrow> m_lookup (k_vip M) (kernel s) vfd x)) \<and>
   (\<forall>y. m_lookup (k_pool M) (kernel s') pfd y =
      (if pn \<le> unat y \<and> unat y < pn + length (pool_of rs)
       then Some (pool_of rs ! (unat y - pn)) else m_lookup (k_pool M) (kernel s) pfd y)) \<and>
   lb_rules (lb_base_rules s') = lb_rules (lb_base_rules s) @ rs"
proof (induction rs arbitrary: n pn s s')
  case Nil
  then show ?case by (auto simp: pool_of_def)
next
  case (Cons r rs)
  let ?u = "used_backends r" and ?k = "vip_key_of addr4 r"
  let ?n = "length ?u" and ?g = "group_of pn (length (used_backends r))"
  obtain a where a: "addr4 (lbe_vip r) = Some a"
    using Cons.prems(1) by (auto simp: lb_valid_def)
  have n8: "min (length (lbe_backends r)) MAX_BACKENDS_PER_VIP = ?n" "?n \<le> MAX_BACKENDS_PER_VIP"
    by (simp_all add: used_backends_def)
  have take: "take ?n (lbe_backends r) = ?u"
    by (simp add: used_backends_def min_def)
  have pool: "pool_of (r # rs) = map pool_entry ?u @ pool_of rs"
    by (simp add: pool_of_def)
  obtain w1 where
    f: "lb_fill (k_pool M) pfd ?u 0 pn (kernel s) (replicate MAX_BACKENDS_PER_VIP 0) =
      (pn + ?n, w1, map of_nat [pn ..< pn + ?n] @ replicate (MAX_BACKENDS_PER_VIP - ?n) 0)" and
    p1: "\<forall>y. m_lookup (k_pool M) w1 pfd y =
        (if pn \<le> unat y \<and> unat y < pn + ?n
         then Some (pool_entry (?u ! (unat y - pn))) else m_lookup (k_pool M) (kernel s) pfd y)" and
    v1: "\<forall>x. m_lookup (k_vip M) w1 vfd x = m_lookup (k_vip M) (kernel s) vfd x"
    using fill_valid [of ?u pn 0 "replicate MAX_BACKENDS_PER_VIP 0" "kernel s"] Cons.prems(1,2) n8 pool
    by (auto simp: lb_valid_def)
  have keys1: "length (keys w1) = length (keys (kernel s))"
    by (rule same_keys) (simp add: v1)
  obtain w2 where u: "m_update (k_vip M) w1 vfd ?k ?g = (True, w2)"
    using vipmap.update_outcome [of w1 ?k ?g] keys1 Cons.prems(4)
    by (cases "m_update (k_vip M) w1 vfd ?k ?g") auto
  define s1 where "s1 = s\<lparr>kernel := w2, lb_base_rules := lb_addRules r (lb_base_rules s)\<rparr>"
  have v2: "m_lookup (k_vip M) (kernel s1) vfd x =
      (if x = ?k then Some ?g else m_lookup (k_vip M) (kernel s) vfd x)" for x
    using vipmap.lookup_update [OF u] v1 by (simp add: s1_def)
  have p2: "m_lookup (k_pool M) (kernel s1) pfd y = m_lookup (k_pool M) w1 pfd y" for y
    using pool_of_vip [of w1 ?k ?g y] u by (simp add: s1_def)
  have keys2: "length (keys (kernel s1)) + length rs \<le> cap"
    using vipmap.update_keys_length [OF u] keys1 Cons.prems(4) by (simp add: s1_def)
  have step: "lb_install addr4 M vfd pfd (r # rs) n pn s =
      (if n + 1 \<ge> LB_MAX_RULES_SIZE then s1 else lb_install addr4 M vfd pfd rs (n + 1) (pn + ?n) s1)"
    using a n8 take f u by (simp add: Let_def s1_def vip_key_of_def group_of_def)
  have s': "s' = lb_install addr4 M vfd pfd rs (n + 1) (pn + ?n) s1"
  proof (cases "n + 1 \<ge> LB_MAX_RULES_SIZE")
    case True
    then have "length rs = 0" using Cons.prems(3) unfolding list.size by linarith
    with True Cons.prems(5) step show ?thesis by simp
  next
    case False
    with Cons.prems(5) step show ?thesis by simp
  qed
  have IH: "(\<forall>x. m_lookup (k_vip M) (kernel s') vfd x =
      (case map_of (rev (lb_table addr4 rs (pn + ?n))) x of
         Some g \<Rightarrow> Some g | None \<Rightarrow> m_lookup (k_vip M) (kernel s1) vfd x)) \<and>
   (\<forall>y. m_lookup (k_pool M) (kernel s') pfd y =
      (if pn + ?n \<le> unat y \<and> unat y < pn + ?n + length (pool_of rs)
       then Some (pool_of rs ! (unat y - (pn + ?n))) else m_lookup (k_pool M) (kernel s1) pfd y)) \<and>
   lb_rules (lb_base_rules s') = lb_rules (lb_base_rules s1) @ rs"
    by (rule Cons.IH [OF _ _ _ keys2 s']) (use Cons.prems pool in auto)
  have "m_lookup (k_pool M) (kernel s') pfd y =
      (if pn \<le> unat y \<and> unat y < pn + length (pool_of (r # rs))
       then Some (pool_of (r # rs) ! (unat y - pn)) else m_lookup (k_pool M) (kernel s) pfd y)" for y
    using IH p1 p2 by (auto simp: pool nth_append)
  moreover have "m_lookup (k_vip M) (kernel s') vfd x =
      (case map_of (rev (lb_table addr4 (r # rs) pn)) x of
         Some g \<Rightarrow> Some g | None \<Rightarrow> m_lookup (k_vip M) (kernel s) vfd x)" for x
    using IH v2 [of x] by (cases "x = ?k") (auto simp: map_add_def split: option.split)
  moreover have "lb_rules (lb_base_rules s') = lb_rules (lb_base_rules s) @ r # rs"
    using IH by (simp add: s1_def lb_addRules_def)
  ultimately show ?case by blast
qed

lemma clear_run:
  assumes "skel s = Some sk" and "sk_map_fd K sk ''vip_backends'' = vfd" "0 \<le> vfd"
    and "sk_map_fd K sk ''backend_pool'' = pfd" "0 \<le> pfd"
  shows "lb_clearKernelRules b K M s =
    (Inr (), s\<lparr>kernel := delete_keys (k_vip M) vfd (keys (kernel s)) (kernel s),
               lb_base_rules := lb_clearRules (lb_base_rules s)\<rparr>)"
proof -
  obtain ks where "collect_keys (k_pool M) (delete_keys (k_vip M) vfd (keys (kernel s)) (kernel s)) pfd = Some ks"
    using poolmap.arr_collect by blast
  with assms show ?thesis
    by (simp add: lb_clearKernelRules_def lb_clear_map_def getVipBackendsFd_def getBackendsPoolFd_def
        with_skel_def st_simps vipmap.collect_keys_eq poolmap.arr_delete_keys)
qed

lemma lb_cleared: "length (keys (delete_keys (k_vip M) vfd (keys w) w)) = 0"
proof -
  have "k \<notin> set (keys (delete_keys (k_vip M) vfd (keys w) w))" for k
    by (simp add: vipmap.keys_lookup vipmap.delete_all_keys)
  then show ?thesis
    by (metis list.set_intros(1) list.size(3) neq_Nil_conv)
qed

lemma update_run:
  assumes sk: "skel s = Some sk" "sk_map_fd K sk ''vip_backends'' = vfd" "0 \<le> vfd"
      "sk_map_fd K sk ''backend_pool'' = pfd" "0 \<le> pfd" "sk_map_fd K sk ''lb_lomac'' = lfd" "0 \<le> lfd"
    and js: "LbRules_from_json J config LbRules_new = Inr a"
  shows "lb_onConfigUpdate b J K M addr4 junk ht i config s =
    (Inr (), lb_install addr4 M vfd pfd (lb_rules a) 0 0 (lb_emptied M vfd lfd (keys (kernel s)) a junk s))"
  using sk js clear_run [OF sk(1-5), of b]
  by (simp add: lb_onConfigUpdate_def getVipBackendsFd_def getBackendsPoolFd_def getLocalMacFd_def
      with_skel_def lb_store_local_mac_def st_simps st_catch_def lb_emptied_def)

lemma update_installs:
  assumes sk: "skel s = Some sk" "sk_map_fd K sk ''vip_backends'' = vfd" "0 \<le> vfd"
      "sk_map_fd K sk ''backend_pool'' = pfd" "0 \<le> pfd" "sk_map_fd K sk ''lb_lomac'' = lfd" "0 \<le> lfd"
    and js: "LbRules_from_json J config LbRules_new = Inr a"
    and ok: "\<forall>r \<in> set (lb_rules a). lb_valid addr4 r" "length (pool_of (lb_rules a)) \<le> TOTAL_BACKENDS"
      "length (lb_rules a) \<le> min cap LB_MAX_RULES_SIZE"
  shows "\<exists>s'. lb_onConfigUpdate b J K M addr4 junk ht i config s = (Inr (), s') \<and>
    (\<forall>x. m_lookup (k_vip M) (kernel s') vfd x = map_of (rev (lb_table addr4 (lb_rules a) 0)) x) \<and>
    (\<forall>y. unat y < length (pool_of (lb_rules a)) \<longrightarrow>
        m_lookup (k_pool M) (kernel s') pfd y = Some (pool_of (lb_rules a) ! unat y)) \<and>
    lb_rules (lb_base_rules s') = lb_rules a"
proof -
  let ?s1 = "lb_emptied M vfd lfd (keys (kernel s)) a junk s" and ?w0 = "delete_keys (k_vip M) vfd (keys (kernel s)) (kernel s)"
  let ?s' = "lb_install addr4 M vfd pfd (lb_rules a) 0 0 ?s1"
  have same: "m_lookup (k_vip M) (kernel ?s1) vfd x = m_lookup (k_vip M) ?w0 vfd x" for x
    by (simp add: lb_emptied_def vip_of_lomac)
  have empty: "length (keys (kernel ?s1)) = 0"
    using same_keys [OF same] lb_cleared [of "kernel s"] by simp
  have none: "m_lookup (k_vip M) (kernel ?s1) vfd x = None" for x
    using same by (simp add: vipmap.delete_all_keys)
  have "lb_rules (lb_base_rules ?s1) = []"
    by (simp add: lb_emptied_def lb_setters)
  with install_valid [OF ok(1), of 0 0 ?s1 ?s'] ok(2,3) empty none update_run [OF sk js]
  show ?thesis by (auto split: option.splits)
qed

end

section \<open>Selection\<close>

lemma lb_table_append:
  "lb_table addr4 (xs @ ys) pn = lb_table addr4 xs pn @ lb_table addr4 ys (pn + length (pool_of xs))"
  by (induction xs arbitrary: pn) (simp_all add: pool_of_def add.assoc)

lemma lb_table_keys: "map fst (lb_table addr4 rs pn) = map (vip_key_of addr4) rs"
  by (induction rs arbitrary: pn) simp_all

lemma lb_table_group:
  assumes "distinct (map (vip_key_of addr4) (xs @ r # ys))"
  shows "map_of (rev (lb_table addr4 (xs @ r # ys) 0)) (vip_key_of addr4 r) =
    Some (group_of (length (pool_of xs)) (length (used_backends r)))"
proof (rule map_of_is_SomeI)
  show "distinct (map fst (rev (lb_table addr4 (xs @ r # ys) 0)))"
    using assms by (auto simp: rev_map [symmetric] lb_table_keys)
qed (simp add: lb_table_append)

lemma group_select:
  assumes "vip_backends m \<lparr>vk_vip = da, vk_vport = dp, vk_padding = 0\<rparr> = Some (group_of pn n)"
    and "0 < n" "n \<le> MAX_BACKENDS_PER_VIP" "pn + n \<le> TOTAL_BACKENDS"
  shows "lb_select m sa da dp = backend_pool m (of_nat (pn + unat sa mod n))"
proof -
  have n: "unat (of_nat n :: u32) = n" "(of_nat n :: u32) \<noteq> 0"
    using assms(2,3) by (simp_all add: MAX_BACKENDS_PER_VIP_def unat_of_nat word_unat_eq_iff)
  then have idx: "unat (sa mod of_nat n) = unat sa mod n"
    by (simp add: unat_mod)
  have "unat sa mod n < n" using assms(2) by simp
  then show ?thesis
    using assms(1,3) n idx by (simp add: lb_select_def group_of_def Let_def nth_append)
qed

text \<open>What the packet program sees of the maps the service wrote.\<close>

definition lb_view :: "'w lb_kernel_ops \<Rightarrow> int \<Rightarrow> int \<Rightarrow> int \<Rightarrow> 'w \<Rightarrow> lb_maps" where
  "lb_view M vfd pfd lfd w =
     \<lparr>vip_backends = m_lookup (k_vip M) w vfd, backend_pool = m_lookup (k_pool M) w pfd,
      lb_lomac = m_lookup (k_lomac M) w lfd\<rparr>"

section \<open>A reference kernel\<close>

text \<open>Three maps side by side; it instantiates the parameters in the witnesses.\<close>

record lb_world =
  lw_vip :: "(vip_key, vip_group) ref_world"
  lw_pool :: "u32 \<Rightarrow> backend_info"
  lw_lomac :: "u32 \<Rightarrow> mac_addr"

definition arr_next_key :: "nat \<Rightarrow> u32 option \<Rightarrow> u32 option" where
  "arr_next_key sz k =
     (case k of None \<Rightarrow> Some 0
      | Some k \<Rightarrow> if unat k < sz then (if unat k + 1 = sz then None else Some (k + 1)) else Some 0)"

definition ref_lb :: "lb_world lb_kernel_ops" where
  "ref_lb =
     \<lparr>k_vip =
        \<lparr>m_lookup = (\<lambda>w. m_lookup (ref_ops MAXSIZE_LB_HASH) (lw_vip w)),
         m_update = (\<lambda>w fd k v. case m_update (ref_ops MAXSIZE_LB_HASH) (lw_vip w) fd k v of
           (ok, v') \<Rightarrow> (ok, w\<lparr>lw_vip := v'\<rparr>)),
         m_delete = (\<lambda>w fd k. w\<lparr>lw_vip := m_delete (ref_ops MAXSIZE_LB_HASH) (lw_vip w) fd k\<rparr>),
         m_next = (\<lambda>w. m_next (ref_ops MAXSIZE_LB_HASH) (lw_vip w))\<rparr>,
      k_pool =
        \<lparr>m_lookup = (\<lambda>w fd k. if unat k < TOTAL_BACKENDS then Some (lw_pool w k) else None),
         m_update = (\<lambda>w fd k v. if unat k < TOTAL_BACKENDS then (True, w\<lparr>lw_pool := (lw_pool w)(k := v)\<rparr>)
           else (False, w)),
         m_delete = (\<lambda>w fd k. w), m_next = (\<lambda>w fd. arr_next_key TOTAL_BACKENDS)\<rparr>,
      k_lomac =
        \<lparr>m_lookup = (\<lambda>w fd k. if unat k < 1 then Some (lw_lomac w k) else None),
         m_update = (\<lambda>w fd k v. if unat k < 1 then (True, w\<lparr>lw_lomac := (lw_lomac w)(k := v)\<rparr>)
           else (False, w)),
         m_delete = (\<lambda>w fd k. w), m_next = (\<lambda>w fd. arr_next_key 1)\<rparr>\<rparr>"

interpretation reflb: lb_kernel ref_lb vfd pfd "\<lambda>w. ref_keys vfd (lw_vip w)" MAXSIZE_LB_HASH lfd
  for vfd pfd lfd :: int
proof unfold_locales
  fix w :: lb_world and xs k ys
  assume "ref_keys vfd (lw_vip w) = xs @ k # ys"
  then show "m_next (k_vip ref_lb) w vfd (Some k) = (case ys of [] \<Rightarrow> None | y # _ \<Rightarrow> Some y)"
    by (simp add: ref_lb_def ref_next_present)
qed (auto simp: ref_lb_def ref_keys_del ref_next_absent ref_next_None ref_keys_lookup al_simps
      TOTAL_BACKENDS_def arr_next_key_def split: if_splits prod.splits)

section \<open>Properties\<close>

text \<open>
  Claim C7. From the load balancer's configuration to the packet. After an update with readable
  rules that fit the maps, a packet to the virtual service of rule \<open>r\<close> is sent back out with the MAC
  address of the backend of that very rule that the source address selects: the index is the source
  address modulo the number of backends used, at most 8.
\<close>

theorem lb_config_balances:
  assumes "lb_kernel M vfd pfd keys cap lfd" and "json_lib J"
    and "skel s = Some sk" "sk_map_fd K sk ''vip_backends'' = vfd" "0 \<le> vfd"
      "sk_map_fd K sk ''backend_pool'' = pfd" "0 \<le> pfd" "sk_map_fd K sk ''lb_lomac'' = lfd" "0 \<le> lfd"
    and "\<forall>q \<in> set (xs @ r # ys). lb_valid addr4 q" "length (pool_of (xs @ r # ys)) \<le> TOTAL_BACKENDS"
      "length (xs @ r # ys) \<le> min cap LB_MAX_RULES_SIZE"
    and "distinct (map (vip_key_of addr4) (xs @ r # ys))" and "used_backends r \<noteq> []"
    and "lb_onConfigUpdate b J K M addr4 junk ht i
           (LbRules_to_json J \<lparr>lb_local_mac = lmac, lb_rules = xs @ r # ys\<rparr>) s = (res, s')"
    and "lb_flow p = Some (sa, vk_vip (vip_key_of addr4 r), vk_vport (vip_key_of addr4 r))"
  shows "res = Inr () \<and>
    hebpf_lb_xdp_gen (lb_view M vfd pfd lfd (kernel s')) p =
      Some (Chain_then XDP_TX, lb_rewrite (lb_view M vfd pfd lfd (kernel s'))
        (pool_entry (used_backends r ! (unat sa mod length (used_backends r)))) p)"
proof -
  let ?a = "\<lparr>lb_local_mac = lmac, lb_rules = xs @ r # ys\<rparr>" and ?n = "length (used_backends r)"
  let ?m = "lb_view M vfd pfd lfd (kernel s')" and ?px = "length (pool_of xs)"
  let ?i = "unat sa mod length (used_backends r)"
  obtain s1 where s1: "lb_onConfigUpdate b J K M addr4 junk ht i (LbRules_to_json J ?a) s = (Inr (), s1)"
    and v: "\<forall>x. m_lookup (k_vip M) (kernel s1) vfd x = map_of (rev (lb_table addr4 (lb_rules ?a) 0)) x"
    and p: "\<forall>y. unat y < length (pool_of (lb_rules ?a)) \<longrightarrow>
        m_lookup (k_pool M) (kernel s1) pfd y = Some (pool_of (lb_rules ?a) ! unat y)"
    using lb_kernel.update_installs [OF assms(1,3-9) json_lib.lb_ruleset_roundtrip [OF assms(2)],
        of ?a addr4 b junk ht i] assms(10-12) by auto
  have eq: "s' = s1" "res = Inr ()" using s1 assms(15) by simp_all
  have pool: "pool_of (xs @ r # ys) = pool_of xs @ map pool_entry (used_backends r) @ pool_of ys"
    by (simp add: pool_of_def)
  have n: "0 < ?n" "?n \<le> MAX_BACKENDS_PER_VIP" "?px + ?n \<le> TOTAL_BACKENDS"
    using assms(11,14) pool by (simp_all add: used_backends_def)
  have vk: "\<lparr>vk_vip = vk_vip (vip_key_of addr4 r), vk_vport = vk_vport (vip_key_of addr4 r), vk_padding = 0\<rparr>
      = vip_key_of addr4 r"
    by (simp add: vip_key_of_def)
  have "vip_backends ?m (vip_key_of addr4 r) = Some (group_of ?px ?n)"
    using v lb_table_group [OF assms(13)] eq by (simp add: lb_view_def)
  then have sel: "lb_select ?m sa (vk_vip (vip_key_of addr4 r)) (vk_vport (vip_key_of addr4 r))
      = backend_pool ?m (of_nat (?px + ?i))"
    by (intro group_select [OF _ n]) (simp add: vk)
  have i: "?i < ?n" using n(1) by simp
  then have "?px + ?i < 2 ^ 32"
    using n(3) by (simp add: TOTAL_BACKENDS_def)
  then have "unat (of_nat (?px + ?i) :: u32) = ?px + ?i"
    by (simp add: unat_of_nat del: of_nat_add)
  then have "backend_pool ?m (of_nat (?px + ?i)) = Some (pool_entry (used_backends r ! ?i))"
    using p i eq pool by (simp add: lb_view_def nth_append)
  with sel assms(16) have "lb_backend ?m p = Some (pool_entry (used_backends r ! ?i))"
    by (simp add: lb_backend_def)
  from lb_xdp_backend [OF this] eq show ?thesis by simp
qed

definition demo_addr4 :: "string \<Rightarrow> u32 option" where
  "demo_addr4 s = (if s = ''10.0.0.2'' then Some 0x0A000002 else None)"

definition demo_lb_rule :: "string \<Rightarrow> LbRulesElem" where
  "demo_lb_rule mac = \<lparr>lbe_vip = ''10.0.0.2'', lbe_vport = 80,
     lbe_backends = [\<lparr>be_mac = ''02:00:00:00:00:01''\<rparr>, \<lparr>be_mac = mac\<rparr>]\<rparr>"

definition demo_lb :: "(lb_world, unit) LbBase" where
  "demo_lb = LbBase_new \<lparr>lw_vip = (\<lambda>_. []), lw_pool = (\<lambda>_. \<lparr>bi_mac = Mac 0 0 0 0 0 0, bi_padding = 0\<rparr>),
     lw_lomac = (\<lambda>_. Mac 0 0 0 0 0 0)\<rparr> (Some ())"

definition demo_lb_skel :: "('w, unit) skel_ops" where
  "demo_lb_skel =
     \<lparr>sk_open = (\<lambda>w. (Some (), w)), sk_load = (\<lambda>w s. (0, w)), sk_attach = (\<lambda>w s. (0, w)),
      sk_detach = (\<lambda>w s. w), sk_destroy = (\<lambda>w s. w), sk_map_fd = (\<lambda>s name. 5),
      sk_prog_fd = (\<lambda>s name. 5)\<rparr>"

lemma demo_macs:
  "mac_bytes ''02:00:00:00:00:01'' = Some [2, 0, 0, 0, 0, 1]"
  "mac_bytes ''02:00:00:00:00:02'' = Some [2, 0, 0, 0, 0, 2]"
  "mac_bytes ''02:00:00'' = None"
  by code_simp+

lemma demo_lb_sel:
  "skel demo_lb = Some ()" "sk_map_fd demo_lb_skel () name = 5"
  by (simp_all add: demo_lb_def LbBase_new_def demo_lb_skel_def)

lemma demo_lb_valid:
  "used_backends (demo_lb_rule mac) = [\<lparr>be_mac = ''02:00:00:00:00:01''\<rparr>, \<lparr>be_mac = mac\<rparr>]"
  "lb_valid demo_addr4 (demo_lb_rule mac) \<longleftrightarrow> mac_bytes mac \<noteq> None"
  "vip_key_of demo_addr4 (demo_lb_rule mac) =
     \<lparr>vk_vip = 0x0200000A, vk_vport = 0x5000, vk_padding = 0\<rparr>"
  by (simp_all add: used_backends_def demo_lb_rule_def MAX_BACKENDS_PER_VIP_def lb_valid_def
      demo_addr4_def demo_macs vip_key_of_def htonl_def htons_def)

theorem lb_config_balances_witness:
  "\<exists>s'. lb_onConfigUpdate Debug ref_json demo_lb_skel ref_lb demo_addr4 (Mac 1 2 3 4 5 6) HookType.XDP_GENERIC 1
      (LbRules_to_json ref_json \<lparr>lb_local_mac = [], lb_rules = [demo_lb_rule ''02:00:00:00:00:02'']\<rparr>) demo_lb
      = (Inr (), s') \<and>
    hebpf_lb_xdp_gen (lb_view ref_lb 5 5 5 (kernel s')) demo_packet =
      Some (Chain_then XDP_TX, lb_rewrite (lb_view ref_lb 5 5 5 (kernel s'))
        (pool_entry \<lparr>be_mac = ''02:00:00:00:00:01''\<rparr>) demo_packet)"
proof -
  let ?r = "demo_lb_rule ''02:00:00:00:00:02''"
  obtain res s' where u: "lb_onConfigUpdate Debug ref_json demo_lb_skel ref_lb demo_addr4 (Mac 1 2 3 4 5 6)
      HookType.XDP_GENERIC 1 (LbRules_to_json ref_json \<lparr>lb_local_mac = [], lb_rules = [] @ ?r # []\<rparr>) demo_lb
      = (res, s')" by fastforce
  have "res = Inr () \<and> hebpf_lb_xdp_gen (lb_view ref_lb 5 5 5 (kernel s')) demo_packet =
      Some (Chain_then XDP_TX, lb_rewrite (lb_view ref_lb 5 5 5 (kernel s'))
        (pool_entry (used_backends ?r ! (unat (0x0100000A :: u32) mod length (used_backends ?r)))) demo_packet)"
    by (rule lb_config_balances [OF reflb.lb_kernel_axioms refjson.json_lib_axioms _ _ _ _ _ _ _ _ _ _ _ _ u])
       (simp_all add: demo_lb_sel demo_lb_valid demo_macs pool_of_def TOTAL_BACKENDS_def
         MAXSIZE_LB_HASH_def LB_MAX_RULES_SIZE_def demo_packet_flow)
  moreover have "used_backends ?r ! (unat (0x0100000A :: u32) mod length (used_backends ?r))
      = \<lparr>be_mac = ''02:00:00:00:00:01''\<rparr>"
    by (simp add: demo_lb_valid flip: numeral_2_eq_2)
  ultimately show ?thesis using u by simp
qed

text \<open>The slot of a backend that could not be read, or that lies outside the list, is not written.\<close>

lemma lb_fill_slot:
  "lb_fill P fd cs i k u a = (k', u', a') \<Longrightarrow> n < length a \<Longrightarrow>
     (n < i \<or> i + length cs \<le> n \<or> mac_bytes (be_mac (cs ! (n - i))) = None) \<Longrightarrow> a' ! n = a ! n"
proof (induction cs arbitrary: i k u a)
  case (Cons c cs)
  have prem: "n < Suc i \<or> Suc i + length cs \<le> n \<or> mac_bytes (be_mac (cs ! (n - Suc i))) = None"
    using Cons.prems(3) by (cases "n \<le> i") (auto simp: nth_Cons' Suc_diff_Suc)
  have "n = i \<Longrightarrow> mac_bytes (be_mac c) = None"
    using Cons.prems(3) by auto
  then have "n = i \<Longrightarrow> fst (sscanf_mac (be_mac c) (replicate 6 0)) \<noteq> 6"
    using sscanf_mac_bad [of "replicate 6 0" "be_mac c"] by simp
  with Cons.IH [OF _ _ prem] Cons.prems(1,2) show ?case
    by (fastforce simp: Let_def split: if_splits prod.splits bool.splits)
qed simp

text \<open>
  A backend with an unreadable MAC address keeps its place in the group: it is counted,
  its slot stays 0, and every source address that selects it is sent to entry 0 of the pool, which
  belongs to the first backend of the first rule, whatever that rule's virtual service is.
\<close>

theorem lb_bad_mac_goes_to_entry_0:
  assumes "length bes \<le> MAX_BACKENDS_PER_VIP" and "j < length bes" and "mac_bytes (be_mac (bes ! j)) = None"
    and "lb_fill P fd bes 0 pn w (replicate MAX_BACKENDS_PER_VIP 0) = (pn', w', arr)"
    and "vip_backends m \<lparr>vk_vip = da, vk_vport = dp, vk_padding = 0\<rparr>
           = Some \<lparr>vg_backends = arr, vg_count = of_nat (length bes), vg_padding = 0\<rparr>"
    and "unat sa mod length bes = j"
  shows "lb_select m sa da dp = backend_pool m 0"
proof -
  have "arr ! j = 0"
    using lb_fill_slot [OF assms(4), of j] assms(1-3) by simp
  moreover have n: "unat (of_nat (length bes) :: u32) = length bes"
    using assms(1) by (simp add: unat_of_nat MAX_BACKENDS_PER_VIP_def)
  moreover have "(of_nat (length bes) :: u32) \<noteq> 0"
    using n assms(2) by (metis less_nat_zero_code unat_0)
  ultimately show ?thesis
    using assms(1,2,5,6) by (simp add: lb_select_def Let_def unat_mod)
qed

theorem lb_bad_mac_goes_to_entry_0_witness:
  "lb_select (demo_lb_maps\<lparr>vip_backends := (\<lambda>k. Some
       \<lparr>vg_backends = snd (snd (lb_fill (k_pool ref_lb) 5 [\<lparr>be_mac = ''02:00:00''\<rparr>] 0 7 (kernel demo_lb)
          (replicate MAX_BACKENDS_PER_VIP 0))), vg_count = of_nat 1, vg_padding = 0\<rparr>)\<rparr>) 9 1 1
   = Some \<lparr>bi_mac = Mac 2 0 0 0 0 0, bi_padding = 0\<rparr>"
proof -
  obtain pn' w' arr where f: "lb_fill (k_pool ref_lb) 5 [\<lparr>be_mac = ''02:00:00''\<rparr>] 0 7 (kernel demo_lb)
      (replicate MAX_BACKENDS_PER_VIP 0) = (pn', w', arr)" by (metis prod_cases3)
  have "lb_select (demo_lb_maps\<lparr>vip_backends := (\<lambda>k. Some
       \<lparr>vg_backends = arr, vg_count = of_nat 1, vg_padding = 0\<rparr>)\<rparr>) 9 1 1
     = backend_pool (demo_lb_maps\<lparr>vip_backends := (\<lambda>k. Some
       \<lparr>vg_backends = arr, vg_count = of_nat 1, vg_padding = 0\<rparr>)\<rparr>) 0"
    by (rule lb_bad_mac_goes_to_entry_0 [OF _ _ _ f, of 0]) (simp_all add: demo_macs MAX_BACKENDS_PER_VIP_def)
  then show ?thesis
    by (simp only: f snd_conv) (simp add: demo_lb_maps_def)
qed

text \<open>
  An unreadable local MAC address is only logged: the bytes that could not be read are
  taken from the uninitialised buffer and stored, so the source address the load balancer writes
  into packets ends with whatever was on the stack.
\<close>

theorem lb_bad_local_mac_stores_stack_bytes:
  assumes "mac_bytes local_mac = None"
  shows "\<exists>a b c d e. lb_store_local_mac M (Mac j0 j1 j2 j3 j4 j5) fd local_mac s =
    (Inr (), s\<lparr>kernel := snd (m_update (k_lomac M) (kernel s) fd 0 (Mac a b c d e j5)),
               lb_base_rules := setLocalMac local_mac (lb_base_rules s)\<rparr>)"
proof -
  let ?j = "[j0, j1, j2, j3, j4, j5]"
  obtain n vs where v: "sscanf_mac local_mac ?j = (n, vs)" by fastforce
  have scan: "scan_mac_from (c_str local_mac) ?j = (n, vs)"
    using v by (simp only: sscanf_mac_def)
  have "length vs = length ?j \<and> n \<le> length ?j"
    using scan by (rule scan_mac_length)
  moreover have "n \<noteq> 6"
    using sscanf_mac_bad [of ?j local_mac] assms by (simp only: v fst_conv) simp
  ultimately have n: "length vs = 6" "n \<le> 5" by simp_all
  have "drop n vs ! (5 - n) = drop n ?j ! (5 - n)"
    using scan_mac_prefix [OF scan] by (rule arg_cong)
  then have "vs ! 5 = j5" using n by simp
  then have "mac_of vs = Mac (vs ! 0) (vs ! 1) (vs ! 2) (vs ! 3) (vs ! 4) j5"
    by (simp add: mac_of_def)
  then show ?thesis
    by (simp add: lb_store_local_mac_def st_simps v) (intro exI, rule refl)
qed

theorem lb_bad_local_mac_stores_stack_bytes_witness:
  "\<exists>a b c d e. lb_store_local_mac ref_lb (Mac 1 2 3 4 5 0xEE) 5 ''02:00:00'' demo_lb =
    (Inr (), demo_lb\<lparr>kernel := snd (m_update (k_lomac ref_lb) (kernel demo_lb) 5 0 (Mac a b c d e 0xEE)),
               lb_base_rules := setLocalMac ''02:00:00'' (lb_base_rules demo_lb)\<rparr>)"
  by (rule lb_bad_local_mac_stores_stack_bytes) (rule demo_macs)

end
