(* ===== verification/Pinned_Map.thy ===== *)
theory Pinned_Map
  imports Net_Hook
begin

text \<open>
  \<^verbatim>\<open>src/ebpf/pinned_map_if.cc\<close>: the BPF file system that holds the pinned maps, mounted once and
  counted. The three static variables of the file are members of the state here; the file system
  and bpf(2) object calls are the record \<open>fs_ops\<close> over an unknown kernel state.
\<close>

record 'w fs_ops =
  fs_stat :: "'w \<Rightarrow> string \<Rightarrow> bool"
  fs_mkdir :: "'w \<Rightarrow> string \<Rightarrow> int \<times> 'w"
  fs_is_bpffs :: "'w \<Rightarrow> string \<Rightarrow> bool"
  fs_mount :: "'w \<Rightarrow> string \<Rightarrow> bool \<times> 'w"
  fs_umount :: "'w \<Rightarrow> string \<Rightarrow> bool \<times> 'w"
  fs_obj_get :: "'w \<Rightarrow> string \<Rightarrow> int \<times> 'w"
  fs_create_prog_array :: "'w \<Rightarrow> string \<Rightarrow> nat \<Rightarrow> int \<times> 'w"
  fs_create_hash :: "'w \<Rightarrow> string \<Rightarrow> nat \<Rightarrow> int \<times> 'w"
  fs_obj_pin :: "'w \<Rightarrow> int \<Rightarrow> string \<Rightarrow> bool \<times> 'w"
  fs_unlink :: "'w \<Rightarrow> string \<Rightarrow> 'w"
  fs_close :: "'w \<Rightarrow> int \<Rightarrow> 'w"

definition PATH_BPFFS :: string where "PATH_BPFFS = ''/sys/fs/bpf/''"

record 'w PinnedMapIf =
  pm_kernel :: 'w
  g_mount_refcnt :: int
  g_mount_init_flag :: bool
  g_mounted_by_us :: bool

text \<open>
  \<^verbatim>\<open>std::call_once\<close>: the flag is set when the function returns, not when it throws. \<^verbatim>\<open>mkdir\<close> gives
  an error number, 0 for success.
\<close>

definition ensureBpffsMounted :: "'w fs_ops \<Rightarrow> (unit, ('w, 'z) PinnedMapIf_scheme) st" where
  "ensureBpffsMounted F s =
     (if g_mount_init_flag s then (Inr (), s\<lparr>g_mount_refcnt := g_mount_refcnt s + 1\<rparr>)
      else
        let (mk, w) = (if fs_stat F (pm_kernel s) PATH_BPFFS then (0, pm_kernel s)
                       else fs_mkdir F (pm_kernel s) PATH_BPFFS)
        in if mk \<noteq> 0 \<and> mk \<noteq> EEXIST
           then (Inl (Except (''Failed to create '' @ PATH_BPFFS)), s\<lparr>pm_kernel := w\<rparr>)
           else if fs_is_bpffs F w PATH_BPFFS
           then (Inr (), s\<lparr>pm_kernel := w, g_mounted_by_us := False, g_mount_init_flag := True,
                           g_mount_refcnt := g_mount_refcnt s + 1\<rparr>)
           else let (ok, w') = fs_mount F w PATH_BPFFS
                in if \<not> ok then (Inl (Except ''Failed to mount bpffs''), s\<lparr>pm_kernel := w'\<rparr>)
                   else (Inr (), s\<lparr>pm_kernel := w', g_mounted_by_us := True, g_mount_init_flag := True,
                                   g_mount_refcnt := g_mount_refcnt s + 1\<rparr>))"

definition releaseBpffs :: "'w fs_ops \<Rightarrow> ('w, 'z) PinnedMapIf_scheme \<Rightarrow> ('w, 'z) PinnedMapIf_scheme" where
  "releaseBpffs F s0 =
     (let s = s0\<lparr>g_mount_refcnt := g_mount_refcnt s0 - 1\<rparr>
      in if g_mount_refcnt s = 0 \<and> g_mounted_by_us s
         then let (ok, w) = fs_umount F (pm_kernel s) PATH_BPFFS
              in if ok then s\<lparr>pm_kernel := w, g_mounted_by_us := False\<rparr> else s\<lparr>pm_kernel := w\<rparr>
         else s)"

text \<open>The mount is ours only once the flag is set, and the count follows the calls that returned.\<close>

definition bpffs_inv :: "('w, 'z) PinnedMapIf_scheme \<Rightarrow> bool" where
  "bpffs_inv s \<longleftrightarrow> (g_mounted_by_us s \<longrightarrow> g_mount_init_flag s)"

lemma ensure_inv: "ensureBpffsMounted F s = (r, s') \<Longrightarrow> bpffs_inv s \<Longrightarrow> bpffs_inv s'"
  by (auto simp: ensureBpffsMounted_def bpffs_inv_def Let_def split: if_splits prod.splits)

lemma ensure_count: "ensureBpffsMounted F s = (Inr u, s') \<Longrightarrow>
    g_mount_init_flag s' \<and> g_mount_refcnt s' = g_mount_refcnt s + 1"
  by (auto simp: ensureBpffsMounted_def Let_def split: if_splits prod.splits)

lemma release_inv: "bpffs_inv s \<Longrightarrow> bpffs_inv (releaseBpffs F s)"
  by (auto simp: releaseBpffs_def bpffs_inv_def Let_def split: if_splits prod.splits)

text \<open>
  After a release that unmounts, the flag keeps every later call from mounting again: the count goes
  up but the file system stays unmounted.
\<close>

lemma remount_never_happens:
  "g_mount_init_flag s \<Longrightarrow> pm_kernel (snd (ensureBpffsMounted F s)) = pm_kernel s"
  by (simp add: ensureBpffsMounted_def)

end
