(* ===== verification/Prog_Map.thy ===== *)
theory Prog_Map
  imports Pinned_Map Kernel_Maps Std_Lib "HOL-Library.Multiset"
begin

text \<open>
  \<^verbatim>\<open>src/ebpf/pinned_prog_map.h\<close> and \<^verbatim>\<open>pinned_prog_map.cc\<close>: the bookkeeping of the tail-call chains.
  Per hook type there are two pinned maps: a program array, in which every network interface owns a
  region, and a hash from (interface, program id) to the index in that array.
\<close>

section \<open>State\<close>

definition MAX_NIC_HOOK :: int where "MAX_NIC_HOOK = 4"
definition MAX_PER_NIC_PROGS :: int where "MAX_PER_NIC_PROGS = 8"
definition MAX_CHAIN_PROGS :: int where "MAX_CHAIN_PROGS = MAX_NIC_HOOK * MAX_PER_NIC_PROGS"

lemmas chain_sizes = MAX_NIC_HOOK_def MAX_PER_NIC_PROGS_def MAX_CHAIN_PROGS_def

text \<open>\<^verbatim>\<open>CHAIN_KEY\<close>: the interface is sign-extended before the shift; only its low 32 bits remain.\<close>

definition CHAIN_KEY :: "int \<Rightarrow> int \<Rightarrow> u64" where
  "CHAIN_KEY ifindex i = push_bit 32 (of_int ifindex) OR ucast (of_int i :: u32)"

record ProgInfo =
  pi_id :: int
  pi_hook :: HookType

record HookMaps =
  prog_array_fd :: int
  id_hash_fd :: int
  pin_path_prog_array :: string
  pin_path_id_to_index :: string

text \<open>
  A hook type without an entry in \<^verbatim>\<open>regions_\<close> has no region: the outer map is a function, the inner one
  an association list from interface to start index.
\<close>

record 'w PinnedProgMap = "'w PinnedMapIf" +
  hook_maps :: "(HookType \<times> HookMaps) list"
  regions :: "HookType \<Rightarrow> (int \<times> int) list"
  initialized :: bool
  prog_registry :: "(string \<times> ProgInfo) list"

definition PinnedProgMap_new :: "'w \<Rightarrow> 'w PinnedProgMap" where
  "PinnedProgMap_new w =
     \<lparr>pm_kernel = w, g_mount_refcnt = 0, g_mount_init_flag = False, g_mounted_by_us = False,
      hook_maps = [], regions = (\<lambda>_. []), initialized = False, prog_registry = []\<rparr>"

section \<open>Regions\<close>

text \<open>The scan over the regions, in whatever order the unordered map has them.\<close>

definition next_start_of :: "(int \<times> int) list \<Rightarrow> int" where
  "next_start_of rs = foldl (\<lambda>m r. if snd r \<ge> m then snd r + MAX_PER_NIC_PROGS else m) 0 rs"

definition allocateRegion :: "build \<Rightarrow> HookType \<Rightarrow> int \<Rightarrow> (int, 'w PinnedProgMap) st" where
  "allocateRegion b hook_type ifindex =
     st_bind (st_assert b (\<lambda>s. ifindex > 0)) (\<lambda>_ s.
       case map_of (regions s hook_type) ifindex of
         Some start \<Rightarrow> (Inr start, s)
       | None \<Rightarrow>
           (let next_start = next_start_of (regions s hook_type)
            in if next_start + MAX_PER_NIC_PROGS > MAX_CHAIN_PROGS then (Inr (-1), s)
               else (Inr next_start,
                     s\<lparr>regions := (regions s)(hook_type :=
                         al_upd ifindex next_start (regions s hook_type))\<rparr>)))"

definition releaseRegion :: "HookType \<Rightarrow> int \<Rightarrow> 'w PinnedProgMap \<Rightarrow> 'w PinnedProgMap" where
  "releaseRegion hook_type ifindex s =
     s\<lparr>regions := (regions s)(hook_type := al_del ifindex (regions s hook_type))\<rparr>"

definition getStartIndex :: "HookType \<Rightarrow> int \<Rightarrow> 'w PinnedProgMap \<Rightarrow> int" where
  "getStartIndex hook_type ifindex s =
     (case map_of (regions s hook_type) ifindex of Some start \<Rightarrow> start | None \<Rightarrow> -1)"

section \<open>Names\<close>

definition lookupProgInfo :: "string \<Rightarrow> 'w PinnedProgMap \<Rightarrow> (int \<times> HookType) option" where
  "lookupProgInfo name s = map_option (\<lambda>p. (pi_id p, pi_hook p)) (map_of (prog_registry s) name)"

datatype UnofficialName = PROGRAM | LIBRARY

definition path_filename :: "string \<Rightarrow> string" where
  "path_filename path = rev (takeWhile (\<lambda>c. c \<noteq> CHR ''/'') (rev path))"

definition ends_with :: "string \<Rightarrow> string \<Rightarrow> bool" where
  "ends_with s suffix \<longleftrightarrow> length suffix \<le> length s \<and> drop (length s - length suffix) s = suffix"

definition starts_with :: "string \<Rightarrow> string \<Rightarrow> bool" where
  "starts_with s prefix \<longleftrightarrow> take (length prefix) s = prefix"

definition toupper :: "char \<Rightarrow> char" where
  "toupper c = (if 97 \<le> char_code c \<and> char_code c \<le> 122 then char_of (char_code c - 32) else c)"

text \<open>\<open>proj\<close> is \<^verbatim>\<open>HEBPF_PROJECT\<close>, which the build generates.\<close>

definition getCanonicalName :: "build \<Rightarrow> string \<Rightarrow> HookType \<Rightarrow> UnofficialName \<Rightarrow> string \<Rightarrow> string res" where
  "getCanonicalName b proj hook_type type name =
     hb_assert b (hook_type \<noteq> HookType.UNKNOWN) (
     hb_assert b (name \<noteq> []) (
       let official = (\<lambda>path. Inr (map toupper path @ ''_'' @ enumName HookType_enum hook_type))
       in case type of
            PROGRAM \<Rightarrow> official name
          | LIBRARY \<Rightarrow>
              (let filename = path_filename name;
                   filename = (if ends_with filename ''.so''
                               then take (length filename - 3) filename else filename);
                   prefix = ''lib'' @ proj @ ''_''
               in if \<not> starts_with filename prefix then Inr name
                  else official (takeWhile (\<lambda>c. c \<noteq> CHR ''_'') (drop (length prefix) filename)))))"

definition getPinPath :: "string \<Rightarrow> string" where
  "getPinPath map_name = PATH_BPFFS @ map_name"

definition SCHEDULER_XDP_LIB :: string where
  "SCHEDULER_XDP_LIB = ''build/src/services/scheduler/libhebpf_scheduler_xdp.so''"

definition SCHEDULER_TC_LIB :: string where
  "SCHEDULER_TC_LIB = ''build/src/services/scheduler/libhebpf_scheduler.so''"

section \<open>Creating and closing the maps\<close>

definition MAP_NAME_PROG_ARRAY_TC :: string where "MAP_NAME_PROG_ARRAY_TC = ''TC_In_parray''"
definition MAP_NAME_ID_TO_INDEX_TC :: string where "MAP_NAME_ID_TO_INDEX_TC = ''TC_In_idhash''"
definition MAP_NAME_PROG_ARRAY_XDP :: string where "MAP_NAME_PROG_ARRAY_XDP = ''XDP_Gen_parray''"
definition MAP_NAME_ID_TO_INDEX_XDP :: string where "MAP_NAME_ID_TO_INDEX_XDP = ''XDP_Gen_idhash''"

fun chain_map_names :: "HookType \<Rightarrow> (string \<times> string) option" where
  "chain_map_names TC = Some (MAP_NAME_PROG_ARRAY_TC, MAP_NAME_ID_TO_INDEX_TC)"
| "chain_map_names HookType.XDP_GENERIC = Some (MAP_NAME_PROG_ARRAY_XDP, MAP_NAME_ID_TO_INDEX_XDP)"
| "chain_map_names _ = None"

definition close_if_open :: "'w fs_ops \<Rightarrow> int \<Rightarrow> 'w \<Rightarrow> 'w" where
  "close_if_open F fd w = (if fd \<ge> 0 then fs_close F w fd else w)"

text \<open>Create and pin both maps; every failure closes and unlinks what was made before it.\<close>

definition create_maps :: "'w fs_ops \<Rightarrow> string \<Rightarrow> string \<Rightarrow> 'w \<Rightarrow> (int \<times> int) option \<times> 'w" where
  "create_maps F prog_array_name id_to_index_name w0 =
     (let pa = getPinPath prog_array_name; pi = getPinPath id_to_index_name;
          (afd, w1) = fs_create_prog_array F w0 prog_array_name (nat MAX_CHAIN_PROGS)
      in if afd < 0 then (None, w1)
         else let (hfd, w2) = fs_create_hash F w1 id_to_index_name (nat MAX_CHAIN_PROGS)
         in if hfd < 0 then (None, fs_close F w2 afd)
         else let (ok1, w3) = fs_obj_pin F w2 afd pa
         in if \<not> ok1 then (None, fs_close F (fs_close F w3 afd) hfd)
         else let (ok2, w4) = fs_obj_pin F w3 hfd pi
         in if \<not> ok2 then (None, fs_close F (fs_close F (fs_unlink F w4 pa) afd) hfd)
         else (Some (afd, hfd), w4))"

definition ensureMaps :: "'w fs_ops \<Rightarrow> HookType \<Rightarrow> 'w PinnedProgMap \<Rightarrow> bool \<times> 'w PinnedProgMap" where
  "ensureMaps F hook_type s =
     (if hook_type \<in> set (map fst (hook_maps s)) then (True, s)
      else case chain_map_names hook_type of
        None \<Rightarrow> (False, s)
      | Some (prog_array_name, id_to_index_name) \<Rightarrow>
          (let pa = getPinPath prog_array_name; pi = getPinPath id_to_index_name;
               (afd, w1) = fs_obj_get F (pm_kernel s) pa;
               (hfd, w2) = fs_obj_get F w1 pi;
               (fds, w3) = (if afd < 0 \<or> hfd < 0
                            then create_maps F prog_array_name id_to_index_name
                                   (close_if_open F hfd (close_if_open F afd w2))
                            else (Some (afd, hfd), w2))
           in case fds of
                None \<Rightarrow> (False, s\<lparr>pm_kernel := w3\<rparr>)
              | Some (a, h) \<Rightarrow>
                  (True, s\<lparr>pm_kernel := w3,
                     hook_maps := al_upd hook_type
                       \<lparr>prog_array_fd = a, id_hash_fd = h, pin_path_prog_array = pa,
                        pin_path_id_to_index = pi\<rparr> (hook_maps s)\<rparr>)))"

text \<open>\<open>defaults\<close> is the generated \<^verbatim>\<open>getDefaultProgMap()\<close>.\<close>

definition PinnedProgMap_init :: "'w fs_ops \<Rightarrow> (string \<times> ProgInfo) list \<Rightarrow> (bool, 'w PinnedProgMap) st" where
  "PinnedProgMap_init F defaults =
     st_bind (ensureBpffsMounted F) (\<lambda>_ s.
       let (mk, w) = (if fs_stat F (pm_kernel s) PATH_BPFFS then (0, pm_kernel s)
                      else fs_mkdir F (pm_kernel s) PATH_BPFFS);
           s1 = s\<lparr>pm_kernel := w\<rparr>
       in if mk \<noteq> 0 \<and> mk \<noteq> EEXIST then (Inr False, s1)
          else let (ok1, s2) = ensureMaps F TC s1
          in if \<not> ok1 then (Inr False, s2)
          else let (ok2, s3) = ensureMaps F HookType.XDP_GENERIC s2
          in if \<not> ok2 then (Inr False, s3)
          else (Inr True, s3\<lparr>prog_registry := fold (\<lambda>(n, i). al_upd n i) defaults (prog_registry s3),
                             initialized := True\<rparr>))"

definition close_maps :: "'w fs_ops \<Rightarrow> HookMaps \<Rightarrow> 'w \<Rightarrow> 'w" where
  "close_maps F m w0 =
     (let w1 = (if prog_array_fd m \<ge> 0
                then fs_unlink F (fs_close F w0 (prog_array_fd m)) (pin_path_prog_array m) else w0)
      in if id_hash_fd m \<ge> 0
         then fs_unlink F (fs_close F w1 (id_hash_fd m)) (pin_path_id_to_index m) else w1)"

definition PinnedProgMap_cleanup :: "'w fs_ops \<Rightarrow> 'w PinnedProgMap \<Rightarrow> 'w PinnedProgMap" where
  "PinnedProgMap_cleanup F s =
     s\<lparr>pm_kernel := fold (\<lambda>(h, m). close_maps F m) (hook_maps s) (pm_kernel s),
       hook_maps := [], initialized := False\<rparr>"

section \<open>The chains\<close>

type_synonym 'w idhash = "('w, u64, u32) map_ops"
type_synonym 'w parray = "('w, u32, u32) map_ops"

text \<open>\<^verbatim>\<open>ifindex_orders\<close>: per interface its names in configuration order.\<close>

definition group_by_nic :: "(string \<times> int) list \<Rightarrow> (int \<times> string list) list" where
  "group_by_nic ordered_names =
     foldl (\<lambda>g (name, ifindex).
        al_upd ifindex ((case map_of g ifindex of Some ns \<Rightarrow> ns | None \<Rightarrow> []) @ [name]) g)
       [] ordered_names"

fun chain_insert :: "'w idhash \<Rightarrow> int \<Rightarrow> HookType \<Rightarrow> (string \<times> ProgInfo) list \<Rightarrow> int \<Rightarrow> string list \<Rightarrow>
    int \<Rightarrow> 'w \<Rightarrow> bool \<times> 'w" where
  "chain_insert M hash_fd hook_type reg ifindex [] index w = (True, w)"
| "chain_insert M hash_fd hook_type reg ifindex (name # names) index w =
     (case map_of reg name of
        None \<Rightarrow> chain_insert M hash_fd hook_type reg ifindex names index w
      | Some i \<Rightarrow>
          if pi_hook i \<noteq> hook_type then chain_insert M hash_fd hook_type reg ifindex names index w
          else (case m_update M w hash_fd (CHAIN_KEY ifindex (pi_id i)) (of_int index) of
                  (False, w') \<Rightarrow> (False, w')
                | (True, w') \<Rightarrow> chain_insert M hash_fd hook_type reg ifindex names (index + 1) w'))"

fun chain_nics :: "build \<Rightarrow> string \<Rightarrow> 'w idhash \<Rightarrow> int \<Rightarrow> HookType \<Rightarrow> (int \<times> string list) list \<Rightarrow>
    (bool, 'w PinnedProgMap) st" where
  "chain_nics b proj M hash_fd hook_type [] s = (Inr True, s)"
| "chain_nics b proj M hash_fd hook_type ((ifindex, names) # rest) s =
     (let index = getStartIndex hook_type ifindex s
      in if index < 0 \<and> b = Debug then (Inl Abort, s)
         else if index \<ge> MAX_PER_NIC_PROGS then chain_nics b proj M hash_fd hook_type rest s
         else case getCanonicalName b proj hook_type LIBRARY
                     (if hook_type = TC then SCHEDULER_TC_LIB else SCHEDULER_XDP_LIB) of
                Inl e \<Rightarrow> (Inl e, s)
              | Inr sched \<Rightarrow>
                  (case chain_insert M hash_fd hook_type (prog_registry s) ifindex (sched # names) index
                          (pm_kernel s) of
                     (False, w) \<Rightarrow> (Inr False, s\<lparr>pm_kernel := w\<rparr>)
                   | (True, w) \<Rightarrow> chain_nics b proj M hash_fd hook_type rest (s\<lparr>pm_kernel := w\<rparr>)))"

text \<open>\<open>it\<close> is the order in which the unordered map of interfaces is walked.\<close>

definition updateChain :: "build \<Rightarrow> string \<Rightarrow> 'w idhash \<Rightarrow>
    ((int \<times> string list) list \<Rightarrow> (int \<times> string list) list) \<Rightarrow> HookType \<Rightarrow> (string \<times> int) list \<Rightarrow>
    (bool, 'w PinnedProgMap) st" where
  "updateChain b proj M it hook_type ordered_names s =
     (if \<not> initialized s then (Inr False, s)
      else case map_of (hook_maps s) hook_type of
        None \<Rightarrow> (Inr False, s)
      | Some maps \<Rightarrow>
          (case drain_from M (id_hash_fd maps) (pm_kernel s) 0 of
             None \<Rightarrow> (Inl Diverge, s)
           | Some w \<Rightarrow>
               chain_nics b proj M (id_hash_fd maps) hook_type (it (group_by_nic ordered_names))
                 (s\<lparr>pm_kernel := w\<rparr>)))"

definition insertProg :: "build \<Rightarrow> 'w idhash \<Rightarrow> 'w parray \<Rightarrow> HookType \<Rightarrow> string \<Rightarrow> int \<Rightarrow> int \<Rightarrow>
    (bool, 'w PinnedProgMap) st" where
  "insertProg b M A hook_type name prog_fd ifindex =
     st_bind (st_assert b (\<lambda>s. prog_fd \<ge> 0)) (\<lambda>_ s.
       if \<not> initialized s then (Inr False, s)
       else case map_of (hook_maps s) hook_type of
         None \<Rightarrow> (Inr False, s)
       | Some maps \<Rightarrow>
         (case lookupProgInfo name s of
            None \<Rightarrow> (Inr False, s)
          | Some (i, hook) \<Rightarrow>
              if hook \<noteq> hook_type then (Inr False, s)
              else (case m_lookup M (pm_kernel s) (id_hash_fd maps) (CHAIN_KEY ifindex i) of
                      None \<Rightarrow> (Inr False, s)
                    | Some index \<Rightarrow>
                        (case m_update A (pm_kernel s) (prog_array_fd maps) index (of_int prog_fd) of
                           (ok, w) \<Rightarrow> (Inr ok, s\<lparr>pm_kernel := w\<rparr>)))))"

section \<open>Debug status\<close>

record EbpfHashElem =
  he_key :: string
  he_value :: u32

text \<open>Per hook type the entries of its hash and the nonzero entries of its array, under their pin paths.\<close>

definition dump_hash :: "'w idhash \<Rightarrow> int \<Rightarrow> 'w \<Rightarrow> EbpfHashElem list option" where
  "dump_hash M fd w =
     map_option (List.map_filter (\<lambda>k.
       map_option (\<lambda>v. \<lparr>he_key = hex_string (unat k), he_value = v\<rparr>) (m_lookup M w fd k)))
       (walk_from M w fd 0 [])"

definition dump_array :: "'w parray \<Rightarrow> int \<Rightarrow> 'w \<Rightarrow> u32 list" where
  "dump_array A fd w =
     filter (\<lambda>v. v \<noteq> 0)
       (List.map_filter (\<lambda>k. m_lookup A w fd (of_nat k)) [0 ..< nat MAX_CHAIN_PROGS])"

definition progmap_getDebugStatus :: "'w idhash \<Rightarrow> 'w parray \<Rightarrow> 'w PinnedProgMap \<Rightarrow>
    ((string \<times> EbpfHashElem list option) \<times> string \<times> u32 list) list" where
  "progmap_getDebugStatus M A s =
     map (\<lambda>(h, m). ((pin_path_id_to_index m, dump_hash M (id_hash_fd m) (pm_kernel s)),
                    (pin_path_prog_array m, dump_array A (prog_array_fd m) (pm_kernel s)))) (hook_maps s)"

section \<open>Regions are disjoint\<close>

text \<open>
  The regions of one hook type: one per interface, at different multiples of
  \<open>MAX_PER_NIC_PROGS\<close>, all inside the program array.
\<close>

definition regions_ok :: "(int \<times> int) list \<Rightarrow> bool" where
  "regions_ok rs \<longleftrightarrow> distinct (map fst rs) \<and> distinct (map snd rs) \<and>
     (\<forall>r \<in> set rs. 0 \<le> snd r \<and> MAX_PER_NIC_PROGS dvd snd r \<and> snd r + MAX_PER_NIC_PROGS \<le> MAX_CHAIN_PROGS)"

lemma foldl_next_start:
  "0 \<le> m \<Longrightarrow> 8 dvd m \<Longrightarrow> (\<forall>r \<in> set rs. 8 dvd snd r) \<Longrightarrow>
   m' = foldl (\<lambda>m r. if snd r \<ge> m then snd r + 8 else m) m rs \<Longrightarrow>
   m \<le> m' \<and> 8 dvd m' \<and> (\<forall>r \<in> set rs. snd r < m')" for m m' :: int
proof (induction rs arbitrary: m)
  case (Cons r rs)
  define m1 where "m1 = (if snd r \<ge> m then snd r + 8 else m)"
  have m1: "m \<le> m1" "snd r < m1" "8 dvd m1"
    using Cons.prems by (auto simp: m1_def)
  have "m1 \<le> m' \<and> 8 dvd m' \<and> (\<forall>r \<in> set rs. snd r < m')"
    by (rule Cons.IH) (use Cons.prems m1 in \<open>auto simp: m1_def\<close>)
  with m1 show ?case by auto
qed simp

lemma next_start_fresh:
  assumes "regions_ok rs"
  shows "0 \<le> next_start_of rs \<and> MAX_PER_NIC_PROGS dvd next_start_of rs \<and> next_start_of rs \<notin> set (map snd rs)"
proof -
  have "\<forall>r \<in> set rs. 8 dvd snd r"
    using assms by (simp add: regions_ok_def chain_sizes)
  then have "0 \<le> next_start_of rs \<and> 8 dvd next_start_of rs \<and> (\<forall>r \<in> set rs. snd r < next_start_of rs)"
    by (intro foldl_next_start) (simp_all only: next_start_of_def MAX_PER_NIC_PROGS_def, simp_all)
  then show ?thesis
    by (auto simp: chain_sizes)
qed

lemma regions_ok_add:
  assumes "regions_ok rs" and "map_of rs i = None"
    and "next_start_of rs + MAX_PER_NIC_PROGS \<le> MAX_CHAIN_PROGS"
  shows "regions_ok (al_upd i (next_start_of rs) rs)"
proof -
  have "al_upd i n rs = rs @ [(i, n)]" for n
    using assms(2) by (induction rs) (auto split: if_splits)
  with assms next_start_fresh [OF assms(1)] show ?thesis
    by (simp add: regions_ok_def map_of_eq_None_iff)
qed

lemma allocate_ok:
  assumes "allocateRegion b ht i s = (r, s')" and "\<And>h. regions_ok (regions s h)"
  shows "regions_ok (regions s' h) \<and>
    (case r of Inr start \<Rightarrow> start = -1 \<or> map_of (regions s' ht) i = Some start | Inl _ \<Rightarrow> s' = s)"
proof (cases "map_of (regions s ht) i = None \<and>
    next_start_of (regions s ht) + MAX_PER_NIC_PROGS \<le> MAX_CHAIN_PROGS")
  case True
  note add = regions_ok_add [OF assms(2) conjunct1 [OF True] conjunct2 [OF True]]
  show ?thesis
    using assms True add
    by (cases b; cases "i > 0")
       (auto simp: allocateRegion_def st_simps Let_def map_of_al_upd split: if_splits)
next
  case False
  then show ?thesis
    using assms
    by (cases b; cases "i > 0")
       (auto simp: allocateRegion_def st_simps Let_def split: if_splits option.splits)
qed

lemma release_ok: "regions_ok rs \<Longrightarrow> regions_ok (al_del i rs)"
  by (auto simp: regions_ok_def al_del_def distinct_map_filter)

lemma release_all_ok: "(\<And>h. regions_ok (regions s h)) \<Longrightarrow> regions_ok (regions (releaseRegion ht i s) h)"
  by (simp add: releaseRegion_def release_ok)

datatype region_call = Allocate HookType int | Release HookType int

fun region_run :: "build \<Rightarrow> region_call list \<Rightarrow> 'w PinnedProgMap \<Rightarrow> 'w PinnedProgMap" where
  "region_run b [] s = s"
| "region_run b (Allocate ht i # cs) s = region_run b cs (snd (allocateRegion b ht i s))"
| "region_run b (Release ht i # cs) s = region_run b cs (releaseRegion ht i s)"

lemma region_run_ok: "(\<And>h. regions_ok (regions s h)) \<Longrightarrow> regions_ok (regions (region_run b cs s) h)"
proof (induction b cs s arbitrary: h rule: region_run.induct)
  case (2 b ht i cs s)
  have "regions_ok (regions (snd (allocateRegion b ht i s)) h)" for h
    using allocate_ok [OF prod.collapse [symmetric] 2(2)] by blast
  with 2(1) show ?case by simp
qed (simp_all add: release_all_ok)

section \<open>Chain keys\<close>

lemma chain_key_inj:
  assumes "CHAIN_KEY n i = CHAIN_KEY m j" and "0 \<le> n" "n < 2 ^ 32" "0 \<le> m" "m < 2 ^ 32"
    and "0 \<le> i" "i < 2 ^ 32" "0 \<le> j" "j < 2 ^ 32"
  shows "n = m \<and> i = j"
proof -
  have lo: "take_bit 32 (uint (CHAIN_KEY n i)) = i" if "0 \<le> i" "i < 2 ^ 32" for n i
    using that
    by (auto simp: CHAIN_KEY_def uint_or unsigned_push_bit_eq unsigned_ucast_eq take_bit_or
        take_bit_push_bit take_bit_int_eq_self_iff unsigned_of_int)
  have hi: "drop_bit 32 (uint (CHAIN_KEY n i)) = n" if "0 \<le> n" "n < 2 ^ 32" for n i
    using that
    by (auto simp: CHAIN_KEY_def uint_or unsigned_push_bit_eq unsigned_ucast_eq drop_bit_or
        drop_bit_push_bit drop_bit_take_bit take_bit_int_eq_self unsigned_of_int)
  show ?thesis
    using lo hi assms by metis
qed

section \<open>What an update of the chain writes\<close>

definition chain_ids :: "(string \<times> ProgInfo) list \<Rightarrow> HookType \<Rightarrow> string list \<Rightarrow> int list" where
  "chain_ids reg ht names =
     map pi_id (filter (\<lambda>i. pi_hook i = ht) (List.map_filter (map_of reg) names))"

fun chain_entries :: "int \<Rightarrow> int list \<Rightarrow> int \<Rightarrow> (u64 \<times> u32) list" where
  "chain_entries nic [] start = []"
| "chain_entries nic (i # ids) start = (CHAIN_KEY nic i, of_int start) # chain_entries nic ids (start + 1)"

lemma chain_ids_Cons:
  "chain_ids reg ht (n # ns) =
     (case map_of reg n of
        Some i \<Rightarrow> if pi_hook i = ht then pi_id i # chain_ids reg ht ns else chain_ids reg ht ns
      | None \<Rightarrow> chain_ids reg ht ns)"
  by (simp add: chain_ids_def List.map_filter_def split: option.split)

lemma chain_entries_keys: "map fst (chain_entries nic ids start) = map (CHAIN_KEY nic) ids"
  by (induction ids arbitrary: start) simp_all

lemma length_chain_entries [simp]: "length (chain_entries nic ids start) = length ids"
  by (induction ids arbitrary: start) simp_all

lemma chain_entries_nth:
  "k < length ids \<Longrightarrow> (CHAIN_KEY nic (ids ! k), of_int (start + int k)) \<in> set (chain_entries nic ids start)"
proof (induction ids arbitrary: k start)
  case (Cons i ids)
  then show ?case
  proof (cases k)
    case (Suc m)
    with Cons.IH [of m "start + 1"] Cons.prems show ?thesis by (simp add: add.assoc)
  qed simp
qed simp

text \<open>The scheduler's own name under a hook type.\<close>

definition sched_name :: "build \<Rightarrow> string \<Rightarrow> HookType \<Rightarrow> string" where
  "sched_name b proj ht =
     (case getCanonicalName b proj ht LIBRARY (if ht = TC then SCHEDULER_TC_LIB else SCHEDULER_XDP_LIB) of
        Inr n \<Rightarrow> n | Inl _ \<Rightarrow> [])"

lemma sched_name_ok:
  assumes "ht \<noteq> HookType.UNKNOWN"
  shows "getCanonicalName b proj ht LIBRARY (if ht = TC then SCHEDULER_TC_LIB else SCHEDULER_XDP_LIB) =
    Inr (sched_name b proj ht)"
  using assms
  by (auto simp: sched_name_def getCanonicalName_def SCHEDULER_TC_LIB_def SCHEDULER_XDP_LIB_def Let_def
      split: sum.split)

text \<open>
  What one interface contributes: nothing when its region starts at \<open>MAX_PER_NIC_PROGS\<close> or later,
  else the scheduler and its programs at consecutive indices from the start of the region.
\<close>

definition nic_entries :: "build \<Rightarrow> string \<Rightarrow> HookType \<Rightarrow> 'w PinnedProgMap \<Rightarrow> int \<times> string list \<Rightarrow>
    (u64 \<times> u32) list" where
  "nic_entries b proj ht s nn =
     (if getStartIndex ht (fst nn) s \<ge> MAX_PER_NIC_PROGS then []
      else chain_entries (fst nn) (chain_ids (prog_registry s) ht (sched_name b proj ht # snd nn))
             (getStartIndex ht (fst nn) s))"

locale chain_map = bpf_hash_cap ops fd keys cap
  for ops :: "('w, u64, u32) map_ops" and fd :: int and keys :: "'w \<Rightarrow> u64 list" and cap :: nat
begin

lemma insert_all:
  "length (keys w) + length (chain_ids reg ht names) \<le> cap \<Longrightarrow>
   \<exists>w'. chain_insert ops fd ht reg nic names start w = (True, w') \<and>
     (\<forall>k. m_lookup ops w' fd k =
        (case map_of (rev (chain_entries nic (chain_ids reg ht names) start)) k of
           Some v \<Rightarrow> Some v | None \<Rightarrow> m_lookup ops w fd k)) \<and>
     length (keys w') \<le> length (keys w) + length (chain_ids reg ht names)"
proof (induction names arbitrary: start w)
  case Nil
  then show ?case by (simp add: chain_ids_def List.map_filter_def)
next
  case (Cons n ns)
  show ?case
  proof (cases "\<exists>i. map_of reg n = Some i \<and> pi_hook i = ht")
    case False
    with Cons.IH [of w start] Cons.prems show ?thesis
      by (cases "map_of reg n") (simp_all add: chain_ids_Cons)
  next
    case True
    then obtain i where i: "map_of reg n = Some i" "pi_hook i = ht" by blast
    let ?k = "CHAIN_KEY nic (pi_id i)"
    obtain w1 where u: "m_update ops w fd ?k (of_int start) = (True, w1)"
      using update_outcome [of w ?k "of_int start"] Cons.prems i
      by (cases "m_update ops w fd ?k (of_int start)") (auto simp: chain_ids_Cons)
    have len: "length (keys w1) \<le> Suc (length (keys w))"
      by (rule update_keys_length [OF u])
    then obtain w' where
      "chain_insert ops fd ht reg nic ns (start + 1) w1 = (True, w')"
      "\<forall>k. m_lookup ops w' fd k =
        (case map_of (rev (chain_entries nic (chain_ids reg ht ns) (start + 1))) k of
           Some v \<Rightarrow> Some v | None \<Rightarrow> m_lookup ops w1 fd k)"
      "length (keys w') \<le> length (keys w1) + length (chain_ids reg ht ns)"
      using Cons.IH [of w1 "start + 1"] Cons.prems i by (auto simp: chain_ids_Cons)
    with u len i lookup_update [OF u] show ?thesis
      by (auto simp: chain_ids_Cons map_add_def split: option.split)
  qed
qed

lemma nics_all:
  "length (keys (pm_kernel s)) + length (concat (map (nic_entries b proj ht s) g)) \<le> cap \<Longrightarrow>
   \<forall>nn \<in> set g. 0 \<le> getStartIndex ht (fst nn) s \<Longrightarrow> ht \<noteq> HookType.UNKNOWN \<Longrightarrow>
   \<exists>w'. chain_nics b proj ops fd ht g s = (Inr True, s\<lparr>pm_kernel := w'\<rparr>) \<and>
     (\<forall>k. m_lookup ops w' fd k =
        (case map_of (rev (concat (map (nic_entries b proj ht s) g))) k of
           Some v \<Rightarrow> Some v | None \<Rightarrow> m_lookup ops (pm_kernel s) fd k))"
proof (induction g arbitrary: s)
  case Nil
  then show ?case by (intro exI [of _ "pm_kernel s"]) simp
next
  case (Cons nn g)
  obtain nic names where nn: "nn = (nic, names)" by fastforce
  let ?start = "getStartIndex ht nic s" and ?ids = "chain_ids (prog_registry s) ht (sched_name b proj ht # names)"
  have start: "0 \<le> ?start" using Cons.prems(2) nn by simp
  show ?case
  proof (cases "?start \<ge> MAX_PER_NIC_PROGS")
    case True
    with Cons.IH [of s] Cons.prems nn start show ?thesis
      by (simp add: nic_entries_def Let_def)
  next
    case False
    have e: "nic_entries b proj ht s nn = chain_entries nic ?ids ?start"
      using False nn by (simp add: nic_entries_def)
    obtain w1 where w1: "chain_insert ops fd ht (prog_registry s) nic (sched_name b proj ht # names) ?start (pm_kernel s)
        = (True, w1)"
      "\<forall>k. m_lookup ops w1 fd k = (case map_of (rev (chain_entries nic ?ids ?start)) k of
           Some v \<Rightarrow> Some v | None \<Rightarrow> m_lookup ops (pm_kernel s) fd k)"
      "length (keys w1) \<le> length (keys (pm_kernel s)) + length ?ids"
      using insert_all [of "pm_kernel s" "prog_registry s" ht "sched_name b proj ht # names" nic ?start]
        Cons.prems(1) e by auto
    let ?s1 = "s\<lparr>pm_kernel := w1\<rparr>"
    have same: "nic_entries b proj ht ?s1 = nic_entries b proj ht s" "getStartIndex ht n ?s1 = getStartIndex ht n s" for n
      by (auto simp: nic_entries_def getStartIndex_def fun_eq_iff)
    have "\<exists>w'. chain_nics b proj ops fd ht g ?s1 = (Inr True, ?s1\<lparr>pm_kernel := w'\<rparr>) \<and>
      (\<forall>k. m_lookup ops w' fd k =
        (case map_of (rev (concat (map (nic_entries b proj ht s) g))) k of
           Some v \<Rightarrow> Some v | None \<Rightarrow> m_lookup ops w1 fd k))"
      using Cons.IH [of ?s1] Cons.prems w1(3) e same by (simp cong: option.case_cong)
    then obtain w' where w': "chain_nics b proj ops fd ht g ?s1 = (Inr True, ?s1\<lparr>pm_kernel := w'\<rparr>)"
      "\<forall>k. m_lookup ops w' fd k =
        (case map_of (rev (concat (map (nic_entries b proj ht s) g))) k of
           Some v \<Rightarrow> Some v | None \<Rightarrow> m_lookup ops w1 fd k)" by blast
    have "chain_nics b proj ops fd ht (nn # g) s = (Inr True, s\<lparr>pm_kernel := w'\<rparr>)"
      using w1(1) w'(1) nn start False sched_name_ok [OF Cons.prems(3), of b proj] by simp
    moreover have "m_lookup ops w' fd k =
        (case map_of (rev (concat (map (nic_entries b proj ht s) (nn # g)))) k of
           Some v \<Rightarrow> Some v | None \<Rightarrow> m_lookup ops (pm_kernel s) fd k)" for k
      using w1(2) w'(2) e by (auto simp: map_add_def split: option.split)
    ultimately show ?thesis by blast
  qed
qed

end

interpretation ref_chain: chain_map "ref_ops cap" fd "ref_keys fd" cap for cap :: nat and fd :: int
  by unfold_locales

section \<open>The table after an update\<close>

lemma group_by_nic_distinct: "distinct (map fst (group_by_nic names))"
proof -
  have "distinct (map fst g) \<Longrightarrow> distinct (map fst (foldl (\<lambda>g (name, ifindex).
        al_upd ifindex ((case map_of g ifindex of Some ns \<Rightarrow> ns | None \<Rightarrow> []) @ [name]) g) g names))" for g
    by (induction names arbitrary: g) (auto simp: distinct_al_upd)
  then show ?thesis by (simp add: group_by_nic_def)
qed

lemma updateChain_table:
  assumes h: "bpf_hash_cap M fd keys cap" and "initialized s" and "map_of (hook_maps s) ht = Some maps"
    and "id_hash_fd maps = fd" and "ht \<noteq> HookType.UNKNOWN" and "0 \<notin> set (keys (pm_kernel s))"
    and g: "\<forall>nn \<in> set (it (group_by_nic names)). 0 \<le> getStartIndex ht (fst nn) s"
    and room: "length (concat (map (nic_entries b proj ht s) (it (group_by_nic names)))) \<le> cap"
  shows "\<exists>w'. updateChain b proj M it ht names s = (Inr True, s\<lparr>pm_kernel := w'\<rparr>) \<and>
    (\<forall>k. m_lookup M w' fd k = map_of (rev (concat (map (nic_entries b proj ht s) (it (group_by_nic names))))) k)"
proof -
  have bh: "bpf_hash M fd keys" using h by (simp add: bpf_hash_cap_def)
  obtain w where w: "drain_from M fd (pm_kernel s) 0 = Some w" "keys w = []"
    using bpf_hash.drain_from_absent [OF bh assms(6)] by blast
  let ?s = "s\<lparr>pm_kernel := w\<rparr>"
  have same: "nic_entries b proj ht ?s = nic_entries b proj ht s" "getStartIndex ht n ?s = getStartIndex ht n s" for n
    by (auto simp: nic_entries_def getStartIndex_def fun_eq_iff)
  let ?g = "it (group_by_nic names)"
  have "\<exists>w'. chain_nics b proj M fd ht ?g ?s = (Inr True, ?s\<lparr>pm_kernel := w'\<rparr>) \<and>
     (\<forall>k. m_lookup M w' fd k =
        (case map_of (rev (concat (map (nic_entries b proj ht ?s) ?g))) k of
           Some v \<Rightarrow> Some v | None \<Rightarrow> m_lookup M (pm_kernel ?s) fd k))"
    by (rule chain_map.nics_all [OF chain_map.intro [OF h]]) (use assms w same in auto)
  then obtain w' where w': "chain_nics b proj M fd ht ?g ?s = (Inr True, s\<lparr>pm_kernel := w'\<rparr>)"
    "\<And>k. m_lookup M w' fd k = (case map_of (rev (concat (map (nic_entries b proj ht s) ?g))) k of
           Some v \<Rightarrow> Some v | None \<Rightarrow> m_lookup M w fd k)"
    by (auto simp: same cong: option.case_cong)
  have "m_lookup M w' fd k = map_of (rev (concat (map (nic_entries b proj ht s) ?g))) k" for k
    using w'(2) [of k] bpf_hash.empty_keys_lookup [OF bh w(2), of k] by (simp split: option.splits)
  moreover have "updateChain b proj M it ht names s = (Inr True, s\<lparr>pm_kernel := w'\<rparr>)"
    using assms(2-4) w(1) w'(1) by (simp add: updateChain_def)
  ultimately show ?thesis by blast
qed

text \<open>The entries of one interface, found again in the table of all of them.\<close>

lemma table_of_nic:
  assumes "distinct (map fst g)" and "\<forall>nn \<in> set g. 0 \<le> fst nn \<and> fst nn < 2 ^ 32"
    and "\<forall>nn \<in> set g. \<forall>i \<in> set (chain_ids (prog_registry s) ht (sched_name b proj ht # snd nn)). 0 \<le> i \<and> i < 2 ^ 32"
    and "0 \<le> nic" "nic < 2 ^ 32" "0 \<le> i" "i < 2 ^ 32"
    and "(k, v) \<in> set (concat (map (nic_entries b proj ht s) g))" and "k = CHAIN_KEY nic i"
  shows "\<exists>names. (nic, names) \<in> set g \<and> (k, v) \<in> set (nic_entries b proj ht s (nic, names))"
proof -
  obtain m names where m: "(m, names) \<in> set g" "(k, v) \<in> set (nic_entries b proj ht s (m, names))"
    using assms(8) by auto
  then have "k \<in> set (map fst (chain_entries m (chain_ids (prog_registry s) ht (sched_name b proj ht # names))
      (getStartIndex ht m s)))"
    by (force simp: nic_entries_def split: if_splits)
  then obtain j where j: "j \<in> set (chain_ids (prog_registry s) ht (sched_name b proj ht # names))"
    "k = CHAIN_KEY m j"
    unfolding chain_entries_keys by auto
  have "m = nic \<and> j = i"
    by (rule chain_key_inj) (use assms(2,3,4-7,9) m j in force)+
  with m show ?thesis by blast
qed

lemma nic_entries_distinct:
  assumes "0 \<le> fst nn" "fst nn < 2 ^ 32"
    and "\<forall>i \<in> set (chain_ids (prog_registry s) ht (sched_name b proj ht # snd nn)). 0 \<le> i \<and> i < 2 ^ 32"
    and "distinct (chain_ids (prog_registry s) ht (sched_name b proj ht # snd nn))"
  shows "distinct (map fst (nic_entries b proj ht s nn))"
proof -
  have "inj_on (CHAIN_KEY (fst nn)) (set (chain_ids (prog_registry s) ht (sched_name b proj ht # snd nn)))"
    using assms(1-3) by (auto intro!: inj_onI dest: chain_key_inj)
  then have "distinct (map (CHAIN_KEY (fst nn)) (chain_ids (prog_registry s) ht (sched_name b proj ht # snd nn)))"
    using assms(4) by (simp only: distinct_map)
  then show ?thesis
    by (simp add: nic_entries_def chain_entries_keys del: distinct_map)
qed

text \<open>
  An update that can go through: the map is open, every interface of the configuration has a region,
  its programs have different ids that fit 32 bits, and the entries fit the hash.
\<close>

definition chain_ids_of :: "build \<Rightarrow> string \<Rightarrow> HookType \<Rightarrow> 'w PinnedProgMap \<Rightarrow> string list \<Rightarrow> int list" where
  "chain_ids_of b proj ht s nms = chain_ids (prog_registry s) ht (sched_name b proj ht # nms)"

definition chain_ready :: "int \<Rightarrow> ('w \<Rightarrow> u64 list) \<Rightarrow> nat \<Rightarrow> build \<Rightarrow> string \<Rightarrow>
    ((int \<times> string list) list \<Rightarrow> (int \<times> string list) list) \<Rightarrow> HookType \<Rightarrow> (string \<times> int) list \<Rightarrow>
    'w PinnedProgMap \<Rightarrow> bool" where
  "chain_ready fd keys cap b proj it ht names s \<longleftrightarrow>
     initialized s \<and> map_option id_hash_fd (map_of (hook_maps s) ht) = Some fd \<and> ht \<noteq> HookType.UNKNOWN \<and>
     0 \<notin> set (keys (pm_kernel s)) \<and>
     mset (it (group_by_nic names)) = mset (group_by_nic names) \<and>
     length (concat (map (nic_entries b proj ht s) (it (group_by_nic names)))) \<le> cap \<and>
     (\<forall>nn \<in> set (group_by_nic names). 0 \<le> getStartIndex ht (fst nn) s \<and> 0 \<le> fst nn \<and> fst nn < 2 ^ 32 \<and>
        (\<forall>i \<in> set (chain_ids_of b proj ht s (snd nn)). 0 \<le> i \<and> i < 2 ^ 32) \<and>
        distinct (chain_ids_of b proj ht s (snd nn)))"

lemma ready_table:
  assumes "bpf_hash_cap M fd keys cap" and "chain_ready fd keys cap b proj it ht names s"
  obtains w' where "updateChain b proj M it ht names s = (Inr True, s\<lparr>pm_kernel := w'\<rparr>)"
    and "\<forall>k. m_lookup M w' fd k = map_of (rev (concat (map (nic_entries b proj ht s) (it (group_by_nic names))))) k"
    and "set (it (group_by_nic names)) = set (group_by_nic names)" "distinct (map fst (it (group_by_nic names)))"
proof -
  obtain maps where m: "map_of (hook_maps s) ht = Some maps" "id_hash_fd maps = fd"
    using assms(2) by (auto simp: chain_ready_def)
  have mset: "mset (it (group_by_nic names)) = mset (group_by_nic names)"
    using assms(2) by (simp add: chain_ready_def)
  then have set: "set (it (group_by_nic names)) = set (group_by_nic names)"
    by (rule mset_eq_setD)
  have "mset (map fst (it (group_by_nic names))) = mset (map fst (group_by_nic names))"
    by (simp only: mset_map mset)
  then have "distinct (map fst (it (group_by_nic names)))"
    using group_by_nic_distinct mset_eq_imp_distinct_iff by blast
  with that set updateChain_table [OF assms(1) _ m, of it names b proj] assms(2) show thesis
    by (auto simp: chain_ready_def)
qed

lemma ready_lookup:
  assumes "bpf_hash_cap M fd keys cap" and "chain_ready fd keys cap b proj it ht names s"
    and "updateChain b proj M it ht names s = (r, s')"
    and "0 \<le> nic" "nic < 2 ^ 32" "0 \<le> i" "i < 2 ^ 32"
    and "m_lookup M (pm_kernel s') fd (CHAIN_KEY nic i) = Some v"
  shows "\<exists>nms. (nic, nms) \<in> set (group_by_nic names) \<and>
    (CHAIN_KEY nic i, v) \<in> set (nic_entries b proj ht s (nic, nms))"
proof -
  obtain w' where w': "updateChain b proj M it ht names s = (Inr True, s\<lparr>pm_kernel := w'\<rparr>)"
    "\<forall>k. m_lookup M w' fd k = map_of (rev (concat (map (nic_entries b proj ht s) (it (group_by_nic names))))) k"
    "set (it (group_by_nic names)) = set (group_by_nic names)" "distinct (map fst (it (group_by_nic names)))"
    using ready_table [OF assms(1,2)] by blast
  let ?t = "concat (map (nic_entries b proj ht s) (it (group_by_nic names)))"
  have "s' = s\<lparr>pm_kernel := w'\<rparr>"
    using assms(3) w'(1) by simp
  then have "map_of (rev ?t) (CHAIN_KEY nic i) = Some v"
    using assms(8) w'(2) by simp
  then have "(CHAIN_KEY nic i, v) \<in> set ?t"
    using map_of_SomeD by fastforce
  from table_of_nic [OF w'(4) _ _ assms(4-7) this refl] w'(3) assms(2) show ?thesis
    by (auto simp: chain_ready_def chain_ids_of_def)
qed

section \<open>Properties\<close>

text \<open>
  Claim C11. Whatever regions are asked for and given back, in any order: under each hook type every
  interface has one region, different interfaces have different ones, and each region is a block of
  \<open>MAX_PER_NIC_PROGS\<close> entries, aligned to that size, inside the program array.
\<close>

theorem regions_stay_disjoint:
  "regions_ok (regions (region_run b cs (PinnedProgMap_new w)) ht)"
  by (rule region_run_ok) (simp add: PinnedProgMap_new_def regions_ok_def)

text \<open>
  A region that was given back is not found again while a later one is in use: with four
  interfaces served and the first one released, a fifth interface gets no region, although only
  three are in use.
\<close>

theorem released_region_not_reused:
  "fst (allocateRegion b TC 5 (region_run b
      [Allocate TC 1, Allocate TC 2, Allocate TC 3, Allocate TC 4, Release TC 1] (PinnedProgMap_new w)))
   = Inr (-1)"
  by (cases b) (simp_all add: allocateRegion_def releaseRegion_def st_simps PinnedProgMap_new_def
      next_start_of_def chain_sizes al_del_def Let_def)

text \<open>What the update leaves for the interface that owns the first region.\<close>

lemma first_region_lookup:
  assumes "bpf_hash_cap M fd keys cap" and "chain_ready fd keys cap b proj it ht names s"
    and "(nic, nms) \<in> set (group_by_nic names)" and "getStartIndex ht nic s < MAX_PER_NIC_PROGS"
    and "k < length (chain_ids_of b proj ht s nms)"
  shows "\<exists>w'. updateChain b proj M it ht names s = (Inr True, s\<lparr>pm_kernel := w'\<rparr>) \<and>
    m_lookup M w' fd (CHAIN_KEY nic (chain_ids_of b proj ht s nms ! k)) =
      Some (of_int (getStartIndex ht nic s + int k))"
proof -
  let ?ids = "chain_ids_of b proj ht s nms" and ?t = "concat (map (nic_entries b proj ht s) (it (group_by_nic names)))"
  obtain w' where w': "updateChain b proj M it ht names s = (Inr True, s\<lparr>pm_kernel := w'\<rparr>)"
    "\<forall>k. m_lookup M w' fd k = map_of (rev ?t) k"
    "set (it (group_by_nic names)) = set (group_by_nic names)" "distinct (map fst (it (group_by_nic names)))"
    using ready_table [OF assms(1,2)] by blast
  have e: "nic_entries b proj ht s (nic, nms) = chain_entries nic ?ids (getStartIndex ht nic s)"
    using assms(4) by (simp add: nic_entries_def chain_ids_of_def)
  let ?key = "CHAIN_KEY nic (?ids ! k)" and ?v = "of_int (getStartIndex ht nic s + int k)"
  have mem: "(?key, ?v) \<in> set (nic_entries b proj ht s (nic, nms))"
    unfolding e by (rule chain_entries_nth [OF assms(5)])
  then have "(?key, ?v) \<in> set ?t" using assms(3) w'(3) by auto
  then obtain v where v: "map_of (rev ?t) ?key = Some v"
    by (metis map_of_eq_None_iff not_None_eq image_eqI fst_conv set_rev)
  have rng: "0 \<le> nic" "nic < 2 ^ 32" "0 \<le> ?ids ! k" "?ids ! k < 2 ^ 32"
    using assms(2,3,5) by (auto simp: chain_ready_def)
  obtain nms' where n': "(nic, nms') \<in> set (group_by_nic names)"
    "(?key, v) \<in> set (nic_entries b proj ht s (nic, nms'))"
    using ready_lookup [OF assms(1,2) w'(1) rng, of v] w'(2) v by auto
  have "nms' = nms"
    using n'(1) assms(3) group_by_nic_distinct [of names] by (metis eq_key_imp_eq_value)
  moreover have "distinct (map fst (nic_entries b proj ht s (nic, nms)))"
    by (rule nic_entries_distinct) (use assms(2,3) in \<open>auto simp: chain_ready_def chain_ids_of_def\<close>)
  ultimately have "v = ?v"
    using n'(2) mem by (metis eq_key_imp_eq_value)
  with w' v show ?thesis by auto
qed

text \<open>
  Updating the chain of the interface that owns the first region: afterwards the scheduler
  and the registered programs of the hook type stand in the hash in configuration order, at
  consecutive indices from the start of the region, whatever the hash held before and in whatever
  order the interfaces are walked.
\<close>

theorem update_orders_first_region:
  assumes "bpf_hash_cap M fd keys cap" and "chain_ready fd keys cap b proj it ht names s"
    and "(nic, nms) \<in> set (group_by_nic names)" and "getStartIndex ht nic s < MAX_PER_NIC_PROGS"
    and "k < length (chain_ids_of b proj ht s nms)"
  shows "\<exists>w'. updateChain b proj M it ht names s = (Inr True, s\<lparr>pm_kernel := w'\<rparr>) \<and>
    m_lookup M w' fd (CHAIN_KEY nic (chain_ids_of b proj ht s nms ! k)) =
      Some (of_int (getStartIndex ht nic s + int k))"
  using assms by (rule first_region_lookup)

text \<open>
  Claim C36. Every interface whose region starts at \<open>MAX_PER_NIC_PROGS\<close> or later, that is, every one
  but the first, is passed over by the update: afterwards the hash has no entry for it, whatever
  programs the configuration gives it.
\<close>

theorem update_skips_other_regions:
  assumes "bpf_hash_cap M fd keys cap" and "chain_ready fd keys cap b proj it ht names s"
    and "updateChain b proj M it ht names s = (r, s')"
    and "MAX_PER_NIC_PROGS \<le> getStartIndex ht nic s"
    and "0 \<le> nic" "nic < 2 ^ 32" "0 \<le> i" "i < 2 ^ 32"
  shows "m_lookup M (pm_kernel s') fd (CHAIN_KEY nic i) = None"
proof (rule ccontr)
  assume "m_lookup M (pm_kernel s') fd (CHAIN_KEY nic i) \<noteq> None"
  then obtain v where "m_lookup M (pm_kernel s') fd (CHAIN_KEY nic i) = Some v" by auto
  from ready_lookup [OF assms(1-3,5-8) this] assms(4) show False
    by (auto simp: nic_entries_def)
qed

text \<open>Two interfaces, the first with two programs, the second with one.\<close>

definition demo_pm :: "(u64, u32) ref_world PinnedProgMap" where
  "demo_pm = (PinnedProgMap_new (\<lambda>_. []))
     \<lparr>initialized := True,
      hook_maps := [(TC, \<lparr>prog_array_fd = 4, id_hash_fd = 3, pin_path_prog_array = [],
                          pin_path_id_to_index = []\<rparr>)],
      regions := (\<lambda>_. [(1, 0), (2, 8)]),
      prog_registry := [(''SCHEDULER_TC'', \<lparr>pi_id = 1, pi_hook = TC\<rparr>),
        (''ACL_TC'', \<lparr>pi_id = 2, pi_hook = TC\<rparr>), (''LB_TC'', \<lparr>pi_id = 3, pi_hook = TC\<rparr>)]\<rparr>"

definition demo_names :: "(string \<times> int) list" where
  "demo_names = [(''ACL_TC'', 1), (''ACL_TC'', 2), (''LB_TC'', 1)]"

lemma demo_group: "group_by_nic demo_names = [(1, [''ACL_TC'', ''LB_TC'']), (2, [''ACL_TC''])]"
  by (simp add: group_by_nic_def demo_names_def)

lemma demo_sched: "sched_name b ''hebpf'' TC = ''SCHEDULER_TC''"
  by (cases b; code_simp)

lemma demo_chain_ids:
  "chain_ids_of b ''hebpf'' TC demo_pm [''ACL_TC'', ''LB_TC''] = [1, 2, 3]"
  "chain_ids_of b ''hebpf'' TC demo_pm [''ACL_TC''] = [1, 2]"
  by (simp_all add: chain_ids_of_def demo_sched chain_ids_def demo_pm_def List.map_filter_def)

lemma demo_start: "getStartIndex TC n demo_pm = (if n = 1 then 0 else if n = 2 then 8 else -1)"
  by (simp add: getStartIndex_def demo_pm_def PinnedProgMap_new_def)

lemma demo_ready: "chain_ready 3 (ref_keys 3) 32 b ''hebpf'' id TC demo_names demo_pm"
proof -
  have ne: "nic_entries b ''hebpf'' TC demo_pm (1, [''ACL_TC'', ''LB_TC'']) = chain_entries 1 [1, 2, 3] 0"
    "nic_entries b ''hebpf'' TC demo_pm (2, [''ACL_TC'']) = []"
    using demo_chain_ids [of b] by (simp_all add: nic_entries_def chain_ids_of_def demo_start chain_sizes)
  have "initialized demo_pm" "map_option id_hash_fd (map_of (hook_maps demo_pm) TC) = Some 3"
    "(0 :: u64) \<notin> set (ref_keys 3 (pm_kernel demo_pm))"
    by (simp_all add: demo_pm_def PinnedProgMap_new_def ref_keys_def)
  with ne show ?thesis
    unfolding chain_ready_def by (simp add: demo_group demo_start demo_chain_ids)
qed

theorem update_orders_first_region_witness:
  "\<exists>w'. updateChain Debug ''hebpf'' (ref_ops 32) id TC demo_names demo_pm = (Inr True, demo_pm\<lparr>pm_kernel := w'\<rparr>) \<and>
    m_lookup (ref_ops 32) w' 3 (CHAIN_KEY 1 3) = Some 2"
  using update_orders_first_region [OF refmap.bpf_hash_cap_axioms demo_ready, where nic = 1 and
      nms = "[''ACL_TC'', ''LB_TC'']" and k = 2]
  by (simp add: demo_group demo_start demo_chain_ids chain_sizes)

theorem update_skips_other_regions_witness:
  "m_lookup (ref_ops 32) (pm_kernel (snd (updateChain Debug ''hebpf'' (ref_ops 32) id TC demo_names demo_pm)))
     3 (CHAIN_KEY 2 2) = None"
  by (rule update_skips_other_regions [OF refmap.bpf_hash_cap_axioms demo_ready prod.collapse [symmetric]])
     (simp_all add: demo_start chain_sizes)

end
