(* ===== verification/Scheduler.thy ===== *)
theory Scheduler
  imports Prog_Map Packet
begin

text \<open>
  \<^verbatim>\<open>src/services/scheduler\<close> (the service that starts a chain, and its two programs) and
  \<^verbatim>\<open>src/ebpf/ebpf_chain.h\<close> (the macro by which every packet program goes on to the next one). The
  two pinned maps are seen as functions; how a packet runs through the chain is a total function,
  bounded by the number of tail calls the kernel allows.
\<close>

section \<open>SchedulerBase\<close>

definition scheduler_start :: "build \<Rightarrow> ('w, 's) skel_ops \<Rightarrow> (nat \<Rightarrow> bool) \<Rightarrow> nat option \<Rightarrow>
    (bool, ('w, 's) EbpfWithNetHook) st" where
  "scheduler_start b K alive io =
     st_bind (skel_start alive io) (\<lambda>ok.
     if \<not> ok then st_ret False
     else
       st_bind (skel_open K) (\<lambda>_.
       st_bind (st_get (\<lambda>s. skel s = None)) (\<lambda>null.
       if null then st_ret False
       else
         st_bind (skel_load b K) (\<lambda>_.
         st_bind (skel_attach b K) (\<lambda>_.
         st_ret True)))))"

definition scheduler_stop :: "build \<Rightarrow> 'w net_ops \<Rightarrow> ('w, 's) skel_ops \<Rightarrow>
    (unit, ('w, 's) EbpfWithNetHook) st" where
  "scheduler_stop b N K =
     st_bind (st_mod (net_detach N)) (\<lambda>_.
     st_bind (skel_detach b K) (\<lambda>_.
     skel_destroy b K))"

text \<open>The template parameter: \<open>True\<close> for \<^verbatim>\<open>scheduler_xdp_bpf\<close>.\<close>

definition scheduler_getMainProgFd :: "bool \<Rightarrow> ('w, 's) skel_ops \<Rightarrow> ('w, 's) EbpfWithNetHook \<Rightarrow> int" where
  "scheduler_getMainProgFd xdp K s =
     (case skel s of
        None \<Rightarrow> -1
      | Some sk \<Rightarrow>
          sk_prog_fd K sk (if xdp then ''hebpf_scheduler_xdp_gen'' else ''hebpf_scheduler_tc_ingress''))"

text \<open>A scheduler has no configuration: an update attaches it, and the result is not looked at.\<close>

definition scheduler_onConfigUpdate :: "bool \<Rightarrow> 'w net_ops \<Rightarrow> ('w, 's) skel_ops \<Rightarrow> HookType \<Rightarrow> int \<Rightarrow>
    (unit, ('w, 's) EbpfWithNetHook) st" where
  "scheduler_onConfigUpdate xdp N K hook_type ifindex s =
     st_bind (attachGeneric N (scheduler_getMainProgFd xdp K s) hook_type ifindex) (\<lambda>_. st_ret ()) s"

text \<open>Started and told its interface, a scheduler is attached there; stopped, it is attached nowhere.\<close>

lemma scheduler_stop_detached:
  assumes "scheduler_stop b N K s = (Inr (), s')" and "with_hook_inv s"
  shows "\<not> wh_attached s' \<and> skel s' = None"
proof -
  have "\<not> wh_attached (net_detach N s)"
    using net_detach_inv [OF assms(2)] by blast
  with assms(1) show ?thesis
    by (auto simp: scheduler_stop_def skel_defs st_simps hb_assert_def split: option.splits build.splits)
qed

section \<open>The chain macro\<close>

record 'p chain_view =
  cv_idhash :: "u64 \<Rightarrow> u32 option"
  cv_parray :: "u32 \<Rightarrow> 'p option"

text \<open>
  The program \<^verbatim>\<open>bpf_tail_call\<close> jumps to, \<open>None\<close> when there is none and the code behind the macro
  runs. The index is unsigned and 32 bits wide, as \<^verbatim>\<open>next\<close> is.
\<close>

definition CHAIN_NEXT :: "'p chain_view \<Rightarrow> int \<Rightarrow> int \<Rightarrow> 'p option" where
  "CHAIN_NEXT V ifindex this_id =
     (case cv_idhash V (CHAIN_KEY ifindex this_id) of
        None \<Rightarrow> None
      | Some idx \<Rightarrow>
          (let next = idx + 1
           in if next < of_int MAX_CHAIN_PROGS then cv_parray V next else None))"

record ('pkt, 'r) bpf_prog =
  bp_id :: int
  bp_run :: "'pkt \<Rightarrow> 'r outcome \<times> 'pkt"

definition hebpf_scheduler_tc_ingress :: "int \<Rightarrow> ('pkt, tc_act) bpf_prog" where
  "hebpf_scheduler_tc_ingress this_id = \<lparr>bp_id = this_id, bp_run = (\<lambda>p. (Chain_then TC_ACT_OK, p))\<rparr>"

definition hebpf_scheduler_xdp_gen :: "int \<Rightarrow> ('pkt, xdp_act) bpf_prog" where
  "hebpf_scheduler_xdp_gen this_id = \<lparr>bp_id = this_id, bp_run = (\<lambda>p. (Chain_then XDP_PASS, p))\<rparr>"

text \<open>
  A packet in the chain, with the number of tail calls the kernel still allows
  (\<^verbatim>\<open>MAX_TAIL_CALL_CNT\<close>, 33 from the first program): when it is used up the call falls through.
\<close>

fun run_chain :: "('pkt, 'r) bpf_prog chain_view \<Rightarrow> int \<Rightarrow> nat \<Rightarrow> ('pkt, 'r) bpf_prog \<Rightarrow> 'pkt \<Rightarrow> 'r \<times> 'pkt" where
  "run_chain V nic calls prog pkt =
     (case bp_run prog pkt of
        (Return r, q) \<Rightarrow> (r, q)
      | (Chain_then r, q) \<Rightarrow>
          (case calls of
             0 \<Rightarrow> (r, q)
           | Suc n \<Rightarrow>
               (case CHAIN_NEXT V nic (bp_id prog) of
                  None \<Rightarrow> (r, q)
                | Some next \<Rightarrow> run_chain V nic n next q)))"

declare run_chain.simps [simp del]

definition MAX_TAIL_CALL_CNT :: nat where "MAX_TAIL_CALL_CNT = 33"

text \<open>The reference: the programs one after the other, until one returns its verdict.\<close>

fun run_seq :: "('pkt, 'r) bpf_prog \<Rightarrow> ('pkt, 'r) bpf_prog list \<Rightarrow> 'pkt \<Rightarrow> 'r \<times> 'pkt" where
  "run_seq prog rest pkt =
     (case bp_run prog pkt of
        (Return r, q) \<Rightarrow> (r, q)
      | (Chain_then r, q) \<Rightarrow> (case rest of [] \<Rightarrow> (r, q) | next # rest' \<Rightarrow> run_seq next rest' q))"

declare run_seq.simps [simp del]

text \<open>The maps hold the programs \<open>ps\<close> at consecutive indices from \<open>start\<close>, and nothing behind them.\<close>

definition chain_holds :: "('pkt, 'r) bpf_prog chain_view \<Rightarrow> int \<Rightarrow> int \<Rightarrow> ('pkt, 'r) bpf_prog list \<Rightarrow> bool" where
  "chain_holds V nic start ps \<longleftrightarrow>
     0 \<le> start \<and> start + int (length ps) \<le> MAX_CHAIN_PROGS \<and>
     (\<forall>k < length ps. cv_idhash V (CHAIN_KEY nic (bp_id (ps ! k))) = Some (of_int (start + int k)) \<and>
        cv_parray V (of_int (start + int k)) = Some (ps ! k)) \<and>
     (start + int (length ps) < MAX_CHAIN_PROGS \<longrightarrow> cv_parray V (of_int (start + int (length ps))) = None)"

lemma chain_next_at:
  assumes "chain_holds V nic start ps" and "k < length ps"
  shows "CHAIN_NEXT V nic (bp_id (ps ! k)) = (if Suc k < length ps then Some (ps ! Suc k) else None)"
proof -
  define n where "n = start + int k + 1"
  have n: "0 \<le> n" "n \<le> 32"
    using assms by (auto simp: chain_holds_def chain_sizes n_def)
  then have "uint (of_int n :: u32) = n"
    by (simp add: unsigned_of_int take_bit_int_eq_self)
  then have "(of_int n < (of_int MAX_CHAIN_PROGS :: u32)) \<longleftrightarrow> n < MAX_CHAIN_PROGS"
    by (simp add: word_less_alt chain_sizes)
  moreover have "(of_int n :: u32) = of_int (start + int k) + 1"
    by (simp add: n_def)
  ultimately have lt: "(of_int (start + int k) + 1 < (of_int MAX_CHAIN_PROGS :: u32)) \<longleftrightarrow>
      start + int k + 1 < MAX_CHAIN_PROGS"
    by (simp only: n_def)
  have idx: "cv_idhash V (CHAIN_KEY nic (bp_id (ps ! k))) = Some (of_int (start + int k))"
    using assms by (simp add: chain_holds_def)
  show ?thesis
  proof (cases "Suc k < length ps")
    case True
    then have "cv_parray V (of_int (start + int (Suc k))) = Some (ps ! Suc k)"
      and "start + int k + 1 < MAX_CHAIN_PROGS"
      using assms unfolding chain_holds_def by (blast, linarith)
    with lt idx True show ?thesis
      by (simp add: CHAIN_NEXT_def Let_def ac_simps)
  next
    case False
    then have k: "Suc k = length ps" using assms(2) by simp
    have len: "int (length ps) = int k + 1" using k by linarith
    then have "(of_int (start + int (length ps)) :: u32) = of_int (start + int k) + 1" by simp
    moreover have "start + int k + 1 < MAX_CHAIN_PROGS \<Longrightarrow> cv_parray V (of_int (start + int (length ps))) = None"
      using assms(1) len unfolding chain_holds_def by linarith
    ultimately have "start + int k + 1 < MAX_CHAIN_PROGS \<Longrightarrow> cv_parray V (of_int (start + int k) + 1) = None"
      by (simp only:)
    with lt idx False show ?thesis
      by (simp add: CHAIN_NEXT_def Let_def)
  qed
qed

lemma run_chain_seq:
  assumes "chain_holds V nic start ps"
  shows "ps = xs @ p # rest \<Longrightarrow> length rest \<le> n \<Longrightarrow> run_chain V nic n p pkt = run_seq p rest pkt"
proof (induction rest arbitrary: xs p n pkt)
  case Nil
  then have "CHAIN_NEXT V nic (bp_id p) = None"
    using chain_next_at [OF assms, of "length xs"] by simp
  then show ?case
    by (auto simp: run_chain.simps [of V nic n p] run_seq.simps [of p] split: prod.split outcome.split nat.split)
next
  case (Cons q rest)
  then have "CHAIN_NEXT V nic (bp_id p) = Some q"
    using chain_next_at [OF assms, of "length xs"] by (simp add: nth_append)
  moreover obtain m where "n = Suc m" using Cons.prems(2) by (cases n) auto
  moreover have "run_chain V nic m q pkt' = run_seq q rest pkt'" for pkt'
    using Cons.IH [of "xs @ [p]" q m pkt'] Cons.prems \<open>n = Suc m\<close> by simp
  ultimately show ?case
    by (auto simp: run_chain.simps [of V nic "Suc m" p] run_seq.simps [of p] split: prod.split outcome.split)
qed

section \<open>Properties\<close>

text \<open>
  Claim C10. With the two maps filled for an interface, a packet that enters the scheduler runs
  through the programs of that interface in order, each one once, until one returns its verdict or
  the last has run: the tail-call chain is the sequence. The bound on tail calls is never reached,
  because a region has fewer entries.
\<close>

theorem chain_is_sequence:
  assumes "chain_holds V nic start (p # rest)" and "int (length (p # rest)) \<le> MAX_CHAIN_PROGS"
  shows "run_chain V nic MAX_TAIL_CALL_CNT p pkt = run_seq p rest pkt"
  by (rule run_chain_seq [OF assms(1), of "[]"])
     (use assms(2) in \<open>simp_all add: MAX_TAIL_CALL_CNT_def chain_sizes\<close>)

definition demo_prog :: "int \<Rightarrow> tc_act outcome \<Rightarrow> (frame, tc_act) bpf_prog" where
  "demo_prog i r = \<lparr>bp_id = i, bp_run = (\<lambda>p. (r, p))\<rparr>"

definition demo_view :: "(frame, tc_act) bpf_prog chain_view" where
  "demo_view =
     \<lparr>cv_idhash = map_of [(CHAIN_KEY 1 1, 0), (CHAIN_KEY 1 2, 1)],
      cv_parray = map_of [(0, demo_prog 1 (Chain_then TC_ACT_OK)), (1, demo_prog 2 (Return TC_ACT_SHOT))]\<rparr>"

theorem chain_is_sequence_witness:
  "run_chain demo_view 1 MAX_TAIL_CALL_CNT (demo_prog 1 (Chain_then TC_ACT_OK)) [] = (TC_ACT_SHOT, [])"
proof -
  have "chain_holds demo_view 1 0 [demo_prog 1 (Chain_then TC_ACT_OK), demo_prog 2 (Return TC_ACT_SHOT)]"
    by (auto simp: chain_holds_def demo_view_def demo_prog_def chain_sizes less_Suc_eq nth_Cons' CHAIN_KEY_def)
  then have "run_chain demo_view 1 MAX_TAIL_CALL_CNT (demo_prog 1 (Chain_then TC_ACT_OK)) []
      = run_seq (demo_prog 1 (Chain_then TC_ACT_OK)) [demo_prog 2 (Return TC_ACT_SHOT)] []"
    by (rule chain_is_sequence) (simp add: chain_sizes)
  then show ?thesis
    by (simp add: run_seq.simps demo_prog_def)
qed



end
