(* ===== verification/Loader.thy ===== *)
theory Loader
  imports Prog_Map Json_If
begin

text \<open>
  \<^verbatim>\<open>src/daemon/loader.h\<close> and \<^verbatim>\<open>loader.cc\<close>: loading and unloading the services, which are shared
  libraries, and wiring each one to its configuration file and to the tail-call chain. What happens
  inside a library, \<^verbatim>\<open>dlopen\<close> and the file system are the record \<open>dl_ops\<close> over an unknown world;
  handles and instances are numbers. The inotify manager is reached through the same record. It is
  modelled on its own in another theory.
\<close>

section \<open>External calls\<close>

text \<open>
  \<open>d_read_json\<close> is the value of \<^verbatim>\<open>json\<close> behind the \<^verbatim>\<open>try\<close>: parsed, or whatever a failed parse
  left in it. \<open>d_watch\<close> hands the callback's three captured values over with the path.
\<close>

record ('w, 'j) dl_ops =
  d_open :: "'w \<Rightarrow> string \<Rightarrow> nat option \<times> 'w"
  d_sym :: "'w \<Rightarrow> nat \<Rightarrow> bool"
  d_create :: "'w \<Rightarrow> nat \<Rightarrow> nat option \<times> 'w"
  d_close :: "'w \<Rightarrow> nat \<Rightarrow> 'w"
  i_start :: "'w \<Rightarrow> nat \<Rightarrow> nat option \<Rightarrow> bool res \<times> 'w"
  i_stop :: "'w \<Rightarrow> nat \<Rightarrow> unit res \<times> 'w"
  i_destroy :: "'w \<Rightarrow> nat \<Rightarrow> 'w"
  i_name :: "'w \<Rightarrow> nat \<Rightarrow> string"
  i_prog_fd :: "'w \<Rightarrow> nat \<Rightarrow> int"
  i_config :: "'w \<Rightarrow> nat \<Rightarrow> HookType \<Rightarrow> int \<Rightarrow> 'j \<Rightarrow> unit res \<times> 'w"
  i_status :: "'w \<Rightarrow> nat \<Rightarrow> 'j"
  d_read_json :: "'w \<Rightarrow> string \<Rightarrow> 'j"
  d_watch :: "'w \<Rightarrow> string \<Rightarrow> string \<times> HookType \<times> int \<Rightarrow> bool \<times> 'w"
  d_goodbye :: "'w \<Rightarrow> string \<Rightarrow> 'w"

text \<open>What a loader is built with: the build, the project name, and the calls it makes.\<close>

record ('w, 'k, 'j) loader_env =
  le_build :: build
  le_proj :: string
  le_dl :: "('w, 'j) dl_ops"
  le_null :: 'j
  le_idhash :: "'k idhash"
  le_parray :: "'k parray"
  le_it :: "(int \<times> string list) list \<Rightarrow> (int \<times> string list) list"

section \<open>State\<close>

record ServiceHandle =
  sh_handle :: "nat option"
  sh_instance :: "nat option"
  sh_name :: string
  sh_path :: string
  sh_config :: string
  sh_hook :: HookType
  sh_ifindex :: int

record ('w, 'k) Loader =
  ld_world :: 'w
  services :: "(string \<times> ServiceHandle) list"
  ld_io_ctx :: "nat option"
  inotify_mgr :: bool
  chain_mgr :: "'k PinnedProgMap option"

text \<open>A call into the outside world.\<close>

definition ext :: "('w \<Rightarrow> 'a \<times> 'w) \<Rightarrow> ('a, ('w, 'k) Loader) st" where
  "ext f s = (let (x, w) = f (ld_world s) in (Inr x, s\<lparr>ld_world := w\<rparr>))"

definition ext_res :: "('w \<Rightarrow> 'a res \<times> 'w) \<Rightarrow> ('a, ('w, 'k) Loader) st" where
  "ext_res f s = (let (x, w) = f (ld_world s) in (x, s\<lparr>ld_world := w\<rparr>))"

definition ext_mod :: "('w \<Rightarrow> 'w) \<Rightarrow> (unit, ('w, 'k) Loader) st" where
  "ext_mod f = st_mod (\<lambda>s. s\<lparr>ld_world := f (ld_world s)\<rparr>)"

section \<open>Configuration files\<close>

definition getService :: "string \<Rightarrow> ('w, 'k) Loader \<Rightarrow> nat option" where
  "getService so_path s =
     (case map_of (services s) so_path of None \<Rightarrow> None | Some h \<Rightarrow> sh_instance h)"

definition getAllService :: "('w, 'k) Loader \<Rightarrow> string list" where
  "getAllService s = map fst (services s)"

definition set_config :: "string \<Rightarrow> string \<Rightarrow> (unit, ('w, 'k) Loader) st" where
  "set_config so_path config s =
     (case map_of (services s) so_path of
        None \<Rightarrow> (Inl (Except ''Service not found, MUST BE load service first''), s)
      | Some h \<Rightarrow> (Inr (), s\<lparr>services := al_upd so_path (h\<lparr>sh_config := config\<rparr>) (services s)\<rparr>))"

definition unregisterServiceConfig :: "('w, 'k, 'j) loader_env \<Rightarrow> string \<Rightarrow> string \<Rightarrow>
    (unit, ('w, 'k) Loader) st" where
  "unregisterServiceConfig E so_path config_path =
     st_bind (st_assert (le_build E) inotify_mgr) (\<lambda>_.
     if config_path = [] then st_ret ()
     else
       st_bind (st_get inotify_mgr) (\<lambda>mgr.
       if \<not> mgr then st_throw (Except ''Inotify is invalid'')
       else
         st_bind (ext_mod (\<lambda>w. d_goodbye (le_dl E) w config_path)) (\<lambda>_.
         set_config so_path [])))"

definition loadServiceConfigs :: "('w, 'k, 'j) loader_env \<Rightarrow> string \<Rightarrow> HookType \<Rightarrow> int \<Rightarrow> string \<Rightarrow>
    (unit, ('w, 'k) Loader) st" where
  "loadServiceConfigs E so_path hook_type ifindex conf_path =
     st_bind (st_assert (le_build E) (\<lambda>s. hook_type \<noteq> HookType.UNKNOWN)) (\<lambda>_.
     st_bind (st_assert (le_build E) (\<lambda>s. ifindex > 0)) (\<lambda>_.
     st_bind (st_get (getService so_path)) (\<lambda>service.
       case service of
         None \<Rightarrow> unregisterServiceConfig E so_path conf_path
       | Some i \<Rightarrow>
           st_bind (st_get (\<lambda>s. d_read_json (le_dl E) (ld_world s) conf_path)) (\<lambda>json.
           ext_res (\<lambda>w. i_config (le_dl E) w i hook_type ifindex json)))))"

definition registerServiceConfig :: "('w, 'k, 'j) loader_env \<Rightarrow> string \<Rightarrow> HookType \<Rightarrow> int \<Rightarrow> string \<Rightarrow>
    (unit, ('w, 'k) Loader) st" where
  "registerServiceConfig E so_path hook_type ifindex config_path =
     st_bind (st_assert (le_build E) inotify_mgr) (\<lambda>_.
     st_bind (st_assert (le_build E) (\<lambda>s. hook_type \<noteq> HookType.UNKNOWN)) (\<lambda>_.
     st_bind (st_assert (le_build E) (\<lambda>s. ifindex > 0)) (\<lambda>_.
     if config_path = [] then st_ret ()
     else
       st_bind (st_get inotify_mgr) (\<lambda>mgr.
       if \<not> mgr then st_throw (Except ''Inotify is invalid'')
       else
         st_bind (ext (\<lambda>w. d_watch (le_dl E) w config_path (so_path, hook_type, ifindex))) (\<lambda>ok.
         if \<not> ok then st_throw (Except ''Inotify add watch failed'')
         else
           st_bind (loadServiceConfigs E so_path hook_type ifindex config_path) (\<lambda>_.
           set_config so_path config_path))))))"

section \<open>Loading\<close>

text \<open>The path up to the last semicolon: a scheduler is loaded under a key that has a suffix.\<close>

definition real_path :: "string \<Rightarrow> string" where
  "real_path so_path =
     (if CHR '';'' \<in> set so_path
      then rev (tl (dropWhile (\<lambda>c. c \<noteq> CHR '';'') (rev so_path))) else so_path)"

text \<open>A local unique pointer: its object is destroyed, or closed, when the call leaves with an exception.\<close>

definition st_cleanup :: "('a, 's) st \<Rightarrow> ('s \<Rightarrow> 's) \<Rightarrow> ('a, 's) st" where
  "st_cleanup m f s = (case m s of (Inl e, s') \<Rightarrow> (Inl e, f s') | (Inr x, s') \<Rightarrow> (Inr x, s'))"

definition drop_handle :: "('w, 'k, 'j) loader_env \<Rightarrow> nat \<Rightarrow> ('w, 'k) Loader \<Rightarrow> ('w, 'k) Loader" where
  "drop_handle E h s = s\<lparr>ld_world := d_close (le_dl E) (ld_world s) h\<rparr>"

definition drop_instance :: "('w, 'k, 'j) loader_env \<Rightarrow> nat \<Rightarrow> nat \<Rightarrow> ('w, 'k) Loader \<Rightarrow> ('w, 'k) Loader" where
  "drop_instance E h i s =
     s\<lparr>ld_world := d_close (le_dl E) (i_destroy (le_dl E) (ld_world s) i) h\<rparr>"

text \<open>Opening the library, making the instance and starting it.\<close>

definition open_service :: "('w, 'k, 'j) loader_env \<Rightarrow> string \<Rightarrow> (nat \<times> nat, ('w, 'k) Loader) st" where
  "open_service E real_so_path =
     st_bind (ext (\<lambda>w. d_open (le_dl E) w real_so_path)) (\<lambda>handle.
     case handle of
       None \<Rightarrow> st_throw (Except ''dlopen() failed'')
     | Some h \<Rightarrow>
         st_bind (st_get (\<lambda>s. d_sym (le_dl E) (ld_world s) h)) (\<lambda>create_fn.
         if \<not> create_fn
         then st_cleanup (st_throw (Except (''Failed to get factory symbols from '' @ real_so_path))) (drop_handle E h)
         else
           st_bind (ext (\<lambda>w. d_create (le_dl E) w h)) (\<lambda>temp_instance.
           case temp_instance of
             None \<Rightarrow> st_cleanup (st_throw (Except (''Exported function from '' @ real_so_path @ '' returned nullptr'')))
                        (drop_handle E h)
           | Some i \<Rightarrow>
               st_cleanup
                 (st_bind (st_get ld_io_ctx) (\<lambda>io_ctx.
                  st_bind (ext_res (\<lambda>w. i_start (le_dl E) w i io_ctx)) (\<lambda>ok.
                  if ok then st_ret (h, i)
                  else st_throw (Except (''Failed to start eBPF service: '' @ real_so_path)))))
                 (drop_instance E h i))))"

text \<open>The last part: the program goes into the chain. The result of the insertion is not looked at.\<close>

definition insert_into_chain :: "('w, 'k, 'j) loader_env \<Rightarrow> string \<Rightarrow> string \<Rightarrow> HookType \<Rightarrow> int \<Rightarrow>
    (bool, ('w, 'k) Loader) st" where
  "insert_into_chain E so_path service_name hook_type ifindex s =
     (case chain_mgr s of
        None \<Rightarrow> (Inr False, s)
      | Some mgr \<Rightarrow>
          (case getService so_path s of
             None \<Rightarrow> (Inr True, s)
           | Some i \<Rightarrow>
               (case getCanonicalName (le_build E) (le_proj E) hook_type PROGRAM service_name of
                  Inl e \<Rightarrow> (Inl e, s)
                | Inr canonical_name \<Rightarrow>
                    (let prog_fd = i_prog_fd (le_dl E) (ld_world s) i
                     in if prog_fd \<ge> 0
                        then (case insertProg (le_build E) (le_idhash E) (le_parray E) hook_type canonical_name
                                     prog_fd ifindex mgr of
                                (Inl e, mgr') \<Rightarrow> (Inl e, s\<lparr>chain_mgr := Some mgr'\<rparr>)
                              | (Inr _, mgr') \<Rightarrow> (Inr True, s\<lparr>chain_mgr := Some mgr'\<rparr>))
                        else (Inr True, s)))))"

definition loadService :: "('w, 'k, 'j) loader_env \<Rightarrow> string \<Rightarrow> HookType \<Rightarrow> int \<Rightarrow> string \<Rightarrow>
    (bool, ('w, 'k) Loader) st" where
  "loadService E so_path hook_type ifindex config_path =
     st_bind (st_assert (le_build E) (\<lambda>s. so_path \<noteq> [])) (\<lambda>_.
     st_bind (st_assert (le_build E) (\<lambda>s. hook_type \<noteq> HookType.UNKNOWN)) (\<lambda>_.
     st_bind (st_assert (le_build E) (\<lambda>s. ifindex > 0)) (\<lambda>_.
     st_bind (open_service E (real_path so_path)) (\<lambda>(h, i).
     st_bind (st_get (\<lambda>s. so_path \<in> set (map fst (services s)))) (\<lambda>loaded.
     if loaded then st_bind (st_mod (drop_instance E h i)) (\<lambda>_. st_ret False)
     else
       st_bind (st_get (\<lambda>s. i_name (le_dl E) (ld_world s) i)) (\<lambda>service_name.
       st_bind (st_mod (\<lambda>s. s\<lparr>services := al_upd so_path
          \<lparr>sh_handle = Some h, sh_instance = Some i, sh_name = service_name, sh_path = so_path,
           sh_config = [], sh_hook = hook_type, sh_ifindex = ifindex\<rparr> (services s)\<rparr>)) (\<lambda>_.
       st_bind (if real_path so_path = SCHEDULER_XDP_LIB \<or> real_path so_path = SCHEDULER_TC_LIB
                then ext_res (\<lambda>w. i_config (le_dl E) w i hook_type ifindex (le_null E))
                else registerServiceConfig E (real_path so_path) hook_type ifindex config_path) (\<lambda>_.
       insert_into_chain E so_path service_name hook_type ifindex))))))))"

section \<open>Unloading\<close>

definition unloadServices :: "('w, 'k, 'j) loader_env \<Rightarrow> string \<Rightarrow> (bool, ('w, 'k) Loader) st" where
  "unloadServices E so_path =
     st_bind (st_assert (le_build E) inotify_mgr) (\<lambda>_.
     st_bind (st_get (\<lambda>s. map_of (services s) so_path)) (\<lambda>serv.
     case serv of
       None \<Rightarrow> st_ret False
     | Some h \<Rightarrow>
         st_bind (if sh_config h \<noteq> [] then unregisterServiceConfig E (sh_path h) (sh_config h)
                  else st_ret ()) (\<lambda>_.
         case sh_instance h of
           None \<Rightarrow> st_ret False
         | Some i \<Rightarrow>
             st_bind (ext_res (\<lambda>w. i_stop (le_dl E) w i)) (\<lambda>_.
             st_bind (ext_mod (\<lambda>w. i_destroy (le_dl E) w i)) (\<lambda>_.
             case sh_handle h of
               None \<Rightarrow>
                 st_bind (st_mod (\<lambda>s. s\<lparr>services := al_upd so_path (h\<lparr>sh_config := [], sh_instance := None\<rparr>)
                    (services s)\<rparr>)) (\<lambda>_. st_ret False)
             | Some d \<Rightarrow>
                 st_bind (ext_mod (\<lambda>w. d_close (le_dl E) w d)) (\<lambda>_.
                 st_bind (st_mod (\<lambda>s. s\<lparr>services := al_del so_path (services s)\<rparr>)) (\<lambda>_.
                 st_ret True)))))))"

text \<open>The destructor's \<^verbatim>\<open>clear()\<close> walks over a local map that is empty, so it does nothing.\<close>

definition Loader_clear :: "('w, 'k) Loader \<Rightarrow> ('w, 'k) Loader" where
  "Loader_clear s = fold (\<lambda>serv s. s) ([] :: (string \<times> ServiceHandle) list) s"

section \<open>Chain manager\<close>

definition setProgChainManager :: "'k PinnedProgMap option \<Rightarrow> (bool, ('w, 'k) Loader) st" where
  "setProgChainManager mgr s = (Inr (mgr \<noteq> None), s\<lparr>chain_mgr := mgr\<rparr>)"

definition setIoContext :: "(nat \<Rightarrow> bool) \<Rightarrow> nat option \<Rightarrow> (bool, ('w, 'k) Loader) st" where
  "setIoContext alive io s = (Inr (lock_io alive io \<noteq> None), s\<lparr>ld_io_ctx := io\<rparr>)"

definition setInotifyManager :: "bool \<Rightarrow> (bool, ('w, 'k) Loader) st" where
  "setInotifyManager mgr s = (Inr mgr, s\<lparr>inotify_mgr := mgr\<rparr>)"

text \<open>The integer result of \<^verbatim>\<open>allocateRegion\<close> is converted to \<^verbatim>\<open>bool\<close>.\<close>

definition allocateChain :: "('w, 'k, 'j) loader_env \<Rightarrow> HookType \<Rightarrow> int \<Rightarrow> (bool, ('w, 'k) Loader) st" where
  "allocateChain E hook_type ifindex s =
     (case chain_mgr s of
        None \<Rightarrow> (Inr False, s)
      | Some mgr \<Rightarrow>
          (case allocateRegion (le_build E) hook_type ifindex mgr of
             (Inl e, mgr') \<Rightarrow> (Inl e, s\<lparr>chain_mgr := Some mgr'\<rparr>)
           | (Inr start, mgr') \<Rightarrow> (Inr (start \<noteq> 0), s\<lparr>chain_mgr := Some mgr'\<rparr>)))"

definition updateProgChain :: "('w, 'k, 'j) loader_env \<Rightarrow> HookType \<Rightarrow> (string \<times> int) list \<Rightarrow>
    (bool, ('w, 'k) Loader) st" where
  "updateProgChain E hook_type names_ifindex s =
     (case chain_mgr s of
        None \<Rightarrow> (Inr False, s)
      | Some mgr \<Rightarrow>
          (case updateChain (le_build E) (le_proj E) (le_idhash E) (le_it E) hook_type names_ifindex mgr of
             (r, mgr') \<Rightarrow> (r, s\<lparr>chain_mgr := Some mgr'\<rparr>)))"

definition Loader_getHookType :: "string \<Rightarrow> ('w, 'k) Loader \<Rightarrow> HookType" where
  "Loader_getHookType canonical_name s =
     (case chain_mgr s of
        None \<Rightarrow> HookType.UNKNOWN
      | Some mgr \<Rightarrow>
          (case lookupProgInfo canonical_name mgr of None \<Rightarrow> HookType.UNKNOWN | Some (i, h) \<Rightarrow> h))"

text \<open>Per service: path, name, configuration, hook, interface, and the status of the instance.\<close>

definition Loader_getDebugStatus :: "('w, 'k, 'j) loader_env \<Rightarrow> ('w, 'k) Loader \<Rightarrow>
    (string \<times> string \<times> string \<times> string \<times> int \<times> 'j option) list \<times>
    ((string \<times> EbpfHashElem list option) \<times> string \<times> u32 list) list option" where
  "Loader_getDebugStatus E s =
     (map (\<lambda>(so_path, h). (so_path, sh_name h, sh_config h, enumName HookType_enum (sh_hook h), sh_ifindex h,
        map_option (i_status (le_dl E) (ld_world s)) (sh_instance h))) (services s),
      map_option (progmap_getDebugStatus (le_idhash E) (le_parray E)) (chain_mgr s))"

section \<open>What each call does to the table of services\<close>

text \<open>Every service in the table has its library and its instance.\<close>

definition services_live :: "('w, 'k) Loader \<Rightarrow> bool" where
  "services_live s \<longleftrightarrow> distinct (map fst (services s)) \<and>
     (\<forall>(p, h) \<in> set (services s). sh_path h = p \<and> sh_instance h \<noteq> None \<and> sh_handle h \<noteq> None)"

definition loaded_paths :: "('w, 'k) Loader \<Rightarrow> string set" where
  "loaded_paths s = set (map fst (services s))"

lemma loaded_lookup: "p \<in> loaded_paths s \<longleftrightarrow> map_of (services s) p \<noteq> None"
  by (auto simp: loaded_paths_def map_of_eq_None_iff)

named_theorems table_keep \<open>calls that leave the table of services alone\<close>

lemma ext_keep [table_keep]: "ext f s = (r, s') \<Longrightarrow> services s' = services s"
  by (auto simp: ext_def Let_def split: prod.splits)

lemma ext_res_keep [table_keep]: "ext_res f s = (r, s') \<Longrightarrow> services s' = services s"
  by (auto simp: ext_res_def Let_def split: prod.splits)

lemma ext_mod_keep [table_keep]: "ext_mod f s = (r, s') \<Longrightarrow> services s' = services s"
  by (auto simp: ext_mod_def st_simps)

lemma st_bind_cases:
  assumes "st_bind m f s = (r, s')"
  obtains e where "m s = (Inl e, s')" "r = Inl e"
  | x s1 where "m s = (Inr x, s1)" "f x s1 = (r, s')"
  using assms by (auto simp: st_bind_def split: prod.splits sum.splits)

lemma set_keys_upd: "set (map fst (al_upd k v ps)) = insert k (set (map fst ps))"
  by (simp add: keys_al_upd) blast

lemma live_upd:
  assumes "services_live s" and "sh_path h = p" "sh_instance h \<noteq> None" "sh_handle h \<noteq> None"
  shows "services_live (s\<lparr>services := al_upd p h (services s)\<rparr>)"
proof -
  have "(q, g) \<in> set (al_upd p h ps) \<Longrightarrow> (q, g) = (p, h) \<or> (q, g) \<in> set ps" for q g ps
    by (induction p h ps rule: al_upd.induct) (auto split: if_splits)
  with assms show ?thesis
    by (fastforce simp: services_live_def distinct_al_upd)
qed

lemma live_del: "services_live s \<Longrightarrow> services_live (s\<lparr>services := al_del p (services s)\<rparr>)"
  by (auto simp: services_live_def al_del_def distinct_map_filter)

lemma set_config_table:
  assumes "set_config p c s = (r, s')"
  shows "loaded_paths s' = loaded_paths s \<and> (services_live s \<longrightarrow> services_live s')"
proof (cases "map_of (services s) p")
  case None
  with assms show ?thesis by (simp add: set_config_def)
next
  case (Some h)
  then have mem: "(p, h) \<in> set (services s)" by (rule map_of_SomeD)
  have s': "s' = s\<lparr>services := al_upd p (h\<lparr>sh_config := c\<rparr>) (services s)\<rparr>"
    using assms Some by (simp add: set_config_def)
  have "p \<in> set (map fst (services s))" using mem by force
  then have "loaded_paths s' = loaded_paths s"
    unfolding s' loaded_paths_def by (simp add: set_keys_upd insert_absorb del: set_map)
  moreover have "services_live s \<Longrightarrow> services_live s'"
    unfolding s' using mem by (intro live_upd) (auto simp: services_live_def)
  ultimately show ?thesis by blast
qed

lemma assert_keep: "st_assert b P s = (r, s') \<Longrightarrow> s' = s"
  by (simp add: st_assert_def)

lemma get_run: "st_get f s = (r, s') \<longleftrightarrow> r = Inr (f s) \<and> s' = s"
  by (auto simp: st_get_def)

lemma same_services: "services s' = services s \<Longrightarrow>
    loaded_paths s' = loaded_paths s \<and> (services_live s \<longrightarrow> services_live s')"
  by (simp add: loaded_paths_def services_live_def)

lemma unregister_table:
  assumes "unregisterServiceConfig E p c s = (r, s')"
  shows "loaded_paths s' = loaded_paths s \<and> (services_live s \<longrightarrow> services_live s')"
  using assms unfolding unregisterServiceConfig_def
  by (fastforce elim!: st_bind_cases dest: assert_keep ext_mod_keep set_config_table same_services
      simp: get_run st_ret_def st_throw_def split: if_splits)

lemma load_configs_table:
  assumes "loadServiceConfigs E p ht i c s = (r, s')"
  shows "loaded_paths s' = loaded_paths s \<and> (services_live s \<longrightarrow> services_live s')"
  using assms unfolding loadServiceConfigs_def
  by (fastforce elim!: st_bind_cases dest: assert_keep ext_res_keep unregister_table same_services
      simp: get_run split: option.splits)

lemma register_table:
  assumes "registerServiceConfig E p ht i c s = (r, s')"
  shows "loaded_paths s' = loaded_paths s \<and> (services_live s \<longrightarrow> services_live s')"
  using assms unfolding registerServiceConfig_def
  by (fastforce elim!: st_bind_cases dest: assert_keep ext_keep load_configs_table set_config_table same_services
      simp: get_run st_ret_def st_throw_def split: if_splits)

lemma keeps_ext [keeps]:
  "st_keeps services (ext f)" "st_keeps services (ext_res g)" "st_keeps services (ext_mod h)"
  by (auto simp: st_keeps_def ext_def ext_res_def ext_mod_def st_simps split: prod.split)

lemma keeps_cleanup [keeps]:
  "st_keeps f m \<Longrightarrow> (\<And>s. f (g s) = f s) \<Longrightarrow> st_keeps f (st_cleanup m g)"
  by (auto simp: st_keeps_def st_cleanup_def split: prod.split sum.split) (metis snd_conv)+

lemma open_keep: "st_keeps services (open_service E p)"
  unfolding open_service_def
  by (intro keeps) (simp_all add: drop_handle_def drop_instance_def)

lemma insert_chain_keep: "insert_into_chain E p n ht i s = (r, s') \<Longrightarrow> services s' = services s"
  by (auto simp: insert_into_chain_def Let_def split: option.splits sum.splits if_splits prod.splits)

text \<open>A first part that leaves the table alone either throws or hands over an equal table.\<close>

lemma keep_split:
  assumes "st_bind m f s = (r, s')" "st_keeps services m"
  obtains e where "r = Inl e" "services s' = services s"
  | x s1 where "m s = (Inr x, s1)" "services s1 = services s" "f x s1 = (r, s')"
  using assms by (elim st_bind_cases) (auto dest: st_keepsD)

lemma load_tail_table:
  assumes "(if c then ext_res f else registerServiceConfig E p ht i cp) s = (r, s')"
  shows "loaded_paths s' = loaded_paths s \<and> (services_live s \<longrightarrow> services_live s')"
proof (cases c)
  case True
  with assms have "services s' = services s" by (simp add: ext_res_keep)
  then show ?thesis by (rule same_services)
next
  case False
  with assms show ?thesis by (auto dest: register_table)
qed

lemma add_row:
  assumes "services_live s" and "sh_path h = p" "sh_instance h \<noteq> None" "sh_handle h \<noteq> None"
    and "services t = al_upd p h (services s)"
  shows "services_live t \<and> loaded_paths t = insert p (loaded_paths s)"
proof -
  have "services_live (s\<lparr>services := al_upd p h (services s)\<rparr>)" using assms by (intro live_upd)
  then have "services_live t" using assms(5) by (simp add: services_live_def)
  moreover have "loaded_paths t = insert p (loaded_paths s)"
    unfolding loaded_paths_def assms(5) by (rule set_keys_upd)
  ultimately show ?thesis by blast
qed

lemma load_rest_table:
  assumes "st_bind (if c then ext_res f else registerServiceConfig E q ht i cp) (\<lambda>_.
      insert_into_chain E p n ht i) s = (r, s')"
  shows "loaded_paths s' = loaded_paths s \<and> (services_live s \<longrightarrow> services_live s')"
  using assms
  by (elim st_bind_cases) (auto dest!: load_tail_table insert_chain_keep [THEN same_services])

lemma load_table:
  assumes run: "loadService E p ht i c s = (r, s')" and live: "services_live s"
  shows "services_live s' \<and> loaded_paths s' \<in> {loaded_paths s, insert p (loaded_paths s)} \<and>
         (\<forall>b. r = Inr b \<longrightarrow> loaded_paths s' = insert p (loaded_paths s))"
proof -
  have same: ?thesis if "services s' = services s" "\<forall>b. r = Inr b \<longrightarrow> p \<in> loaded_paths s"
    using same_services [OF that(1)] live that(2) by (auto simp: insert_absorb)
  have added: ?thesis if "services t = services s" "st_bind (st_mod (\<lambda>s. s\<lparr>services := al_upd p h (services s)\<rparr>)) (\<lambda>_.
      st_bind (if c' then ext_res f else registerServiceConfig E q ht i cp) (\<lambda>_.
      insert_into_chain E p n ht i)) t = (r, s')" "sh_path h = p" "sh_instance h \<noteq> None" "sh_handle h \<noteq> None"
    for t c' f q cp n h
  proof -
    have "st_bind (if c' then ext_res f else registerServiceConfig E q ht i cp) (\<lambda>_.
      insert_into_chain E p n ht i) (t\<lparr>services := al_upd p h (services t)\<rparr>) = (r, s')"
      using that(2) by (simp add: st_bind_def [of "st_mod _"] st_mod_def)
    from load_rest_table [OF this] add_row [OF live that(3-5), of "t\<lparr>services := al_upd p h (services t)\<rparr>"] that(1)
    show ?thesis by auto
  qed
  show ?thesis
    using run unfolding loadService_def
    apply -
    apply (erule keep_split, rule keeps, rule same, assumption, simp)
    apply (erule keep_split, rule keeps, rule same, simp, simp)
    apply (erule keep_split, rule keeps, rule same, simp, simp)
    apply (erule keep_split, rule open_keep, rule same, simp, simp)
    apply (simp only: split_beta)
    apply (erule keep_split, rule keeps, rule same, simp, simp)
    subgoal premises prems for u1 s1 u2 s2 u3 s3 hi s4 loaded s5
    proof (cases loaded)
      case True
      with prems have "services s' = services s" "p \<in> loaded_paths s"
        by (auto simp: st_simps drop_instance_def loaded_paths_def)
      then show ?thesis by (intro same) auto
    next
      case False
      show ?thesis
        using prems(11) False
        apply (simp only: if_False)
        apply (erule keep_split, rule keeps, rule same)
          apply (simp add: prems)
         apply simp
        apply (rule added)
            prefer 2
            apply assumption
           apply (simp_all add: prems)
        done
    qed
    done
qed

lemma unload_table:
  assumes run: "unloadServices E p s = (r, s')" and live: "services_live s"
  shows "services_live s' \<and> loaded_paths s' \<in> {loaded_paths s, loaded_paths s - {p}} \<and>
         (\<forall>b. r = Inr b \<longrightarrow> loaded_paths s' = loaded_paths s - {p})"
proof -
  have same: ?thesis if "loaded_paths s' = loaded_paths s \<and> (services_live s \<longrightarrow> services_live s')"
    "\<forall>b. r = Inr b \<longrightarrow> p \<notin> loaded_paths s"
    using that live by auto
  have drop: ?thesis if "services s' = al_del p (services t)" "loaded_paths t = loaded_paths s" "services_live t" for t
  proof -
    have "services_live s'" using live_del [OF that(3), of p] that(1) by (simp add: services_live_def)
    moreover have "loaded_paths s' = loaded_paths t - {p}"
      unfolding loaded_paths_def that(1) keys_al_del by auto
    ultimately show ?thesis using that(2) by simp
  qed
  show ?thesis
  proof (cases "map_of (services s) p")
    case None
    then have "services s' = services s" "p \<notin> loaded_paths s"
      using run by (auto simp: unloadServices_def st_simps loaded_lookup split: sum.splits)
    then show ?thesis by (intro same) (auto dest: same_services)
  next
    case (Some h)
    then have "(p, h) \<in> set (services s)" by (rule map_of_SomeD)
    with live obtain i d where h: "sh_instance h = Some i" "sh_handle h = Some d"
      by (auto simp: services_live_def)
    show ?thesis
      using run unfolding unloadServices_def
      apply -
      apply (erule keep_split, rule keeps, rule same, erule same_services, simp)
      apply (erule keep_split, rule keeps, rule same, rule same_services, simp, simp)
      subgoal premises prems for u1 s1 serv s2
      proof -
        have serv: "serv = Some h" using prems Some by (auto simp: st_simps)
        let ?un = "if sh_config h \<noteq> [] then unregisterServiceConfig E (sh_path h) (sh_config h) else st_ret ()"
        have un: "loaded_paths t = loaded_paths s \<and> services_live t" if "?un s2 = (r1, t)" for r1 t
          using that same_services [OF prems(2)] same_services [OF prems(4)] live
          by (auto simp: st_ret_def dest: unregister_table split: if_splits)
        show ?thesis
          using prems(5) unfolding serv option.case h
        proof (rule st_bind_cases)
          fix e assume "?un s2 = (Inl e, s')" "r = Inl e"
          with un show ?thesis by (intro same) auto
        next
          fix x t
          assume t: "?un s2 = (Inr x, t)"
            and rest: "st_bind (ext_res (\<lambda>w. i_stop (le_dl E) w i)) (\<lambda>_.
              st_bind (ext_mod (\<lambda>w. i_destroy (le_dl E) w i)) (\<lambda>_.
              st_bind (ext_mod (\<lambda>w. d_close (le_dl E) w d)) (\<lambda>_.
              st_bind (st_mod (\<lambda>s. s\<lparr>services := al_del p (services s)\<rparr>)) (\<lambda>_. st_ret True)))) t = (r, s')"
          note t = un [OF t]
          show ?thesis
            using rest
          proof (rule keep_split)
            fix e assume "r = Inl e" "services s' = services t"
            with t show ?thesis by (intro same) (auto dest: same_services)
          next
            fix y t2
            assume "services t2 = services t" "st_bind (ext_mod (\<lambda>w. i_destroy (le_dl E) w i)) (\<lambda>_.
              st_bind (ext_mod (\<lambda>w. d_close (le_dl E) w d)) (\<lambda>_.
              st_bind (st_mod (\<lambda>s. s\<lparr>services := al_del p (services s)\<rparr>)) (\<lambda>_. st_ret True))) t2 = (r, s')"
            then have "services s' = al_del p (services t)" by (auto simp: ext_mod_def st_simps)
            with t show ?thesis by (intro drop [of t]) auto
          qed (rule keeps)
        qed
      qed
      done
  qed
qed

section \<open>The interface the daemon uses\<close>

text \<open>
  \<^verbatim>\<open>src/daemon/loader_if.h\<close>: the loader as a record of operations over its state. \<open>li_get\<close> is the
  Prometheus status of a loaded service (\<open>None\<close> for a null pointer).
\<close>

record ('l, 'j) loader_if =
  li_load :: "string \<Rightarrow> HookType \<Rightarrow> int \<Rightarrow> string \<Rightarrow> (bool, 'l) st"
  li_unload :: "string \<Rightarrow> (bool, 'l) st"
  li_register :: "string \<Rightarrow> HookType \<Rightarrow> int \<Rightarrow> string \<Rightarrow> (unit, 'l) st"
  li_unregister :: "string \<Rightarrow> string \<Rightarrow> (unit, 'l) st"
  li_allocate :: "HookType \<Rightarrow> int \<Rightarrow> (bool, 'l) st"
  li_chain :: "HookType \<Rightarrow> (string \<times> int) list \<Rightarrow> (bool, 'l) st"
  li_all :: "'l \<Rightarrow> string list"
  li_get :: "'l \<Rightarrow> string \<Rightarrow> 'j option"

text \<open>
  What the daemon relies on: a load that returns leaves the service loaded, an unload that returns
  leaves it not loaded, the other calls load and unload nothing, and the list of all services is the
  set of loaded ones. A call that throws may or may not have taken effect.
\<close>

locale loader_contract =
  fixes L :: "('l, 'j) loader_if"
    and good :: "'l \<Rightarrow> bool"
    and loaded :: "'l \<Rightarrow> string set"
  assumes load_good: "good l \<Longrightarrow> li_load L p h i c l = (r, l') \<Longrightarrow> good l'"
    and load_loads: "good l \<Longrightarrow> li_load L p h i c l = (Inr b, l') \<Longrightarrow> loaded l' = insert p (loaded l)"
    and unload_good: "good l \<Longrightarrow> li_unload L p l = (r, l') \<Longrightarrow> good l'"
    and unload_unloads: "good l \<Longrightarrow> li_unload L p l = (Inr b, l') \<Longrightarrow> loaded l' = loaded l - {p}"
    and register_keeps: "good l \<Longrightarrow> li_register L p h i c l = (u, l') \<Longrightarrow> good l' \<and> loaded l' = loaded l"
    and unregister_keeps: "good l \<Longrightarrow> li_unregister L p c l = (u, l') \<Longrightarrow> good l' \<and> loaded l' = loaded l"
    and allocate_keeps: "good l \<Longrightarrow> li_allocate L h i l = (r, l') \<Longrightarrow> good l' \<and> loaded l' = loaded l"
    and chain_keeps: "good l \<Longrightarrow> li_chain L h ns l = (r, l') \<Longrightarrow> good l' \<and> loaded l' = loaded l"
    and all_loaded: "set (li_all L l) = loaded l"

definition the_loader :: "('w, 'k, 'j) loader_env \<Rightarrow> (('w, 'k) Loader, 'j) loader_if" where
  "the_loader E =
     \<lparr>li_load = loadService E, li_unload = unloadServices E, li_register = registerServiceConfig E,
      li_unregister = unregisterServiceConfig E, li_allocate = allocateChain E, li_chain = updateProgChain E,
      li_all = getAllService,
      li_get = (\<lambda>s p. map_option (i_status (le_dl E) (ld_world s)) (getService p s))\<rparr>"

lemma the_loader_simps [simp]:
  "li_load (the_loader E) = loadService E" "li_unload (the_loader E) = unloadServices E"
  "li_register (the_loader E) = registerServiceConfig E" "li_unregister (the_loader E) = unregisterServiceConfig E"
  "li_allocate (the_loader E) = allocateChain E" "li_chain (the_loader E) = updateProgChain E"
  "li_all (the_loader E) = getAllService"
  by (simp_all add: the_loader_def)

lemma allocate_same: "allocateChain E h i s = (r, s') \<Longrightarrow> services s' = services s"
  by (auto simp: allocateChain_def split: option.splits prod.splits sum.splits)

lemma chain_same: "updateProgChain E h ns s = (r, s') \<Longrightarrow> services s' = services s"
  by (auto simp: updateProgChain_def split: option.splits prod.splits)

interpretation ld: loader_contract "the_loader E" services_live loaded_paths for E
proof (unfold_locales, goal_cases)
  case (9 l)
  show ?case by (simp add: getAllService_def loaded_paths_def)
qed (auto dest: load_table unload_table register_table unregister_table
       allocate_same [THEN same_services] chain_same [THEN same_services])

text \<open>
  Claim C22. Loading: when \<^verbatim>\<open>loadService\<close> returns, with either result, the service's path is in the
  table, every row of the table still has its library and its instance, and no other row appeared or
  went; when it throws, the table has at most gained that row.
\<close>

theorem load_service_outcome:
  assumes "services_live s" and "loadService E so_path hook ifindex config s = (r, s')"
  shows "services_live s' \<and>
         (if is_ok r then loaded_paths s' = insert so_path (loaded_paths s)
          else loaded_paths s' \<in> {loaded_paths s, insert so_path (loaded_paths s)})"
  using load_table [OF assms(2,1)] by (cases r) auto

text \<open>A loader without services, on a world where every library can be opened.\<close>

definition demo_dl :: "(nat, unit) dl_ops" where
  "demo_dl =
     \<lparr>d_open = (\<lambda>w p. (if p = ''missing'' then None else Some w, Suc w)), d_sym = (\<lambda>w h. True),
      d_create = (\<lambda>w h. (Some w, Suc w)), d_close = (\<lambda>w h. w), i_start = (\<lambda>w i io. (Inr True, w)),
      i_stop = (\<lambda>w i. (Inr (), w)), i_destroy = (\<lambda>w i. w), i_name = (\<lambda>w i. ''demo''),
      i_prog_fd = (\<lambda>w i. -1), i_config = (\<lambda>w i h n j. (Inr (), w)), i_status = (\<lambda>w i. ()),
      d_read_json = (\<lambda>w p. ()), d_watch = (\<lambda>w p c. (True, w)), d_goodbye = (\<lambda>w p. w)\<rparr>"

definition demo_env :: "(nat, unit, unit) loader_env" where
  "demo_env =
     \<lparr>le_build = build.Release, le_proj = ''hebpf'', le_dl = demo_dl, le_null = (),
      le_idhash = \<lparr>m_lookup = (\<lambda>w f k. None), m_update = (\<lambda>w f k v. (True, w)), m_delete = (\<lambda>w f k. w),
                   m_next = (\<lambda>w f k. None)\<rparr>,
      le_parray = \<lparr>m_lookup = (\<lambda>w f k. None), m_update = (\<lambda>w f k v. (True, w)), m_delete = (\<lambda>w f k. w),
                   m_next = (\<lambda>w f k. None)\<rparr>,
      le_it = id\<rparr>"

definition demo_loader :: "(nat, unit) Loader" where
  "demo_loader = \<lparr>ld_world = 0, services = [], ld_io_ctx = None, inotify_mgr = True, chain_mgr = None\<rparr>"

lemma demo_loader_good: "services_live demo_loader" "loaded_paths demo_loader = {}"
  by (simp_all add: demo_loader_def services_live_def loaded_paths_def)

theorem load_service_outcome_witness:
  "is_ok (fst (loadService demo_env ''acl.so'' TC 2 [] demo_loader)) \<and>
   loaded_paths (snd (loadService demo_env ''acl.so'' TC 2 [] demo_loader)) = {''acl.so''}"
proof -
  have ok: "is_ok (fst (loadService demo_env ''acl.so'' TC 2 [] demo_loader))" by code_simp
  obtain r s' where run: "loadService demo_env ''acl.so'' TC 2 [] demo_loader = (r, s')" by fastforce
  from load_service_outcome [OF demo_loader_good(1) run] ok show ?thesis
    by (simp add: run demo_loader_good)
qed

text \<open>
  \<^verbatim>\<open>allocateChain\<close> turns the region number into a truth value and so reports the opposite of
  what happened: the first interface of a hook gets region 0 and the call says no, while an
  interface for which no region is left (-1) gets yes.
\<close>

theorem allocate_chain_result:
  assumes "chain_mgr s = Some m" and "0 < ifindex"
  shows "(regions m hook = [] \<longrightarrow> fst (allocateChain E hook ifindex s) = Inr False \<and>
            map_option (\<lambda>m'. regions m' hook) (chain_mgr (snd (allocateChain E hook ifindex s))) = Some [(ifindex, 0)]) \<and>
         (map_of (regions m hook) ifindex = None \<and> next_start_of (regions m hook) \<ge> MAX_CHAIN_PROGS \<longrightarrow>
            allocateChain E hook ifindex s = (Inr True, s))"
  using assms
  by (auto simp: allocateChain_def allocateRegion_def st_simps Let_def next_start_of_def MAX_CHAIN_PROGS_def
      MAX_NIC_HOOK_def MAX_PER_NIC_PROGS_def)

definition full_regions :: "unit PinnedProgMap" where
  "full_regions = (PinnedProgMap_new ())\<lparr>regions := (\<lambda>_. [])(TC := [(2, 0), (3, 8), (4, 16), (5, 24)])\<rparr>"

theorem allocate_chain_result_witness:
  "fst (allocateChain demo_env TC 2 (demo_loader\<lparr>chain_mgr := Some (PinnedProgMap_new ())\<rparr>)) = Inr False \<and>
   fst (allocateChain demo_env TC 6 (demo_loader\<lparr>chain_mgr := Some full_regions\<rparr>)) = Inr True"
proof -
  have "regions (PinnedProgMap_new ()) TC = []" by (simp add: PinnedProgMap_new_def)
  moreover have "map_of (regions full_regions TC) 6 = None" "next_start_of (regions full_regions TC) \<ge> MAX_CHAIN_PROGS"
    by (simp_all add: full_regions_def next_start_of_def MAX_CHAIN_PROGS_def MAX_NIC_HOOK_def MAX_PER_NIC_PROGS_def)
  ultimately show ?thesis
    using allocate_chain_result [of "demo_loader\<lparr>chain_mgr := Some (PinnedProgMap_new ())\<rparr>" _ 2 TC demo_env]
      allocate_chain_result [of "demo_loader\<lparr>chain_mgr := Some full_regions\<rparr>" _ 6 TC demo_env]
    by simp
qed

end
