(* ===== verification/Ordered_Map.thy ===== *)
theory Ordered_Map
  imports Prelude "HOL-Library.List_Lexorder" "HOL-Library.Char_ord"
begin

text \<open>
  \<^verbatim>\<open>std::map\<close> and \<^verbatim>\<open>std::set\<close>: association lists with strictly increasing keys. The list is the
  iteration order of the container, and equal containers are equal lists.
\<close>

fun om_upd :: "'k :: linorder \<Rightarrow> 'v \<Rightarrow> ('k \<times> 'v) list \<Rightarrow> ('k \<times> 'v) list" where
  "om_upd k v [] = [(k, v)]"
| "om_upd k v ((a, b) # ps) =
     (if k = a then (k, v) # ps
      else if k < a then (k, v) # (a, b) # ps
      else (a, b) # om_upd k v ps)"

definition om_ok :: "('k :: linorder \<times> 'v) list \<Rightarrow> bool" where
  "om_ok ps \<longleftrightarrow> sorted_wrt (<) (map fst ps)"

definition om_of :: "('k :: linorder \<times> 'v) list \<Rightarrow> ('k \<times> 'v) list" where
  "om_of ps = foldl (\<lambda>m (k, v). om_upd k v m) [] ps"

named_theorems om_simps \<open>lookup and order of ordered maps\<close>

lemma om_upd_keys [om_simps]: "set (map fst (om_upd k v ps)) = insert k (set (map fst ps))"
  by (induction k v ps rule: om_upd.induct) auto

lemma map_of_om_upd [om_simps]: "om_ok ps \<Longrightarrow> map_of (om_upd k v ps) = (map_of ps)(k \<mapsto> v)"
proof (induction k v ps rule: om_upd.induct)
  case (2 k v a b ps)
  have "k < a \<Longrightarrow> map_of ps k = None"
    using 2(2) by (force simp: om_ok_def map_of_eq_None_iff)
  with 2 show ?case by (auto simp: om_ok_def fun_eq_iff)
qed auto

lemma om_ok_upd [om_simps]: "om_ok ps \<Longrightarrow> om_ok (om_upd k v ps)"
proof (induction k v ps rule: om_upd.induct)
  case (2 k v a b ps)
  then have "\<not> k \<le> a \<Longrightarrow> \<forall>x \<in> set (map fst (om_upd k v ps)). a < x"
    unfolding om_upd_keys by (auto simp: om_ok_def)
  with 2 show ?case
    by (auto simp: om_ok_def)
qed (auto simp: om_ok_def)

lemma om_ok_del [om_simps]: "om_ok ps \<Longrightarrow> om_ok (al_del k ps)"
  by (simp add: om_ok_def keys_al_del sorted_wrt_filter)

lemma om_ok_Nil [simp]: "om_ok []"
  by (simp add: om_ok_def)

lemma om_ok_foldl: "om_ok m \<Longrightarrow> om_ok (foldl (\<lambda>m (k, v). om_upd k v m) m ps)"
  by (induction ps arbitrary: m) (auto simp: om_ok_upd)

lemma om_ok_of [om_simps]: "om_ok (om_of ps)"
  by (simp add: om_of_def om_ok_foldl)

lemma om_ok_distinct: "om_ok ps \<Longrightarrow> distinct (map fst ps)"
  by (simp add: om_ok_def strict_sorted_iff)

text \<open>Inserting the pairs of an ordered map one after the other gives the map back.\<close>

lemma om_upd_last: "\<forall>x \<in> set (map fst ps). x < k \<Longrightarrow> om_upd k v ps = ps @ [(k, v)]"
  by (induction ps) auto

lemma om_of_ok:
  assumes "om_ok ps" shows "om_of ps = ps"
proof -
  have "om_ok (m @ ps) \<Longrightarrow> foldl (\<lambda>m (k, v). om_upd k v m) m ps = m @ ps" for m
  proof (induction ps arbitrary: m)
    case (Cons p ps)
    obtain k v where p: "p = (k, v)" by fastforce
    have "om_upd k v m = m @ [(k, v)]"
      using Cons.prems p by (intro om_upd_last) (auto simp: om_ok_def sorted_wrt_append)
    with Cons.IH [of "m @ [(k, v)]"] Cons.prems p show ?case by simp
  qed simp
  from this [of "[]"] assms show ?thesis by (simp add: om_of_def)
qed

text \<open>An ordered map is determined by its lookups.\<close>

lemma om_eqI:
  "om_ok xs \<Longrightarrow> om_ok ys \<Longrightarrow> map_of xs = map_of ys \<Longrightarrow> xs = ys"
proof (induction xs arbitrary: ys)
  case Nil
  then show ?case by (cases ys) (auto simp: fun_eq_iff dest: spec [of _ "fst (hd ys)"])
next
  case (Cons x xs)
  obtain k v where x: "x = (k, v)" by fastforce
  from Cons.prems(3) have "ys \<noteq> []" using x by (metis map_of.simps fun_upd_same option.distinct(1) map_of_eq_empty_iff list.distinct(1))
  then obtain k' v' ys' where y: "ys = (k', v') # ys'" by (metis list.exhaust surj_pair)
  have dom: "fst ` set (x # xs) = fst ` set ys"
    using Cons.prems(3) by (metis dom_map_of_conv_image_fst)
  have "k = k'"
  proof -
    have "k \<le> k'" using Cons.prems(1) dom y x by (force simp: om_ok_def)
    moreover have "k' \<le> k" using Cons.prems(2) dom y x by (force simp: om_ok_def)
    ultimately show ?thesis by simp
  qed
  moreover have "v = v'"
    using Cons.prems(3) x y \<open>k = k'\<close> by (metis map_of_Cons_code(2) option.inject)
  moreover have "map_of xs = map_of ys'"
  proof
    fix n
    have nx: "k \<notin> fst ` set xs" "k' \<notin> fst ` set ys'"
      using Cons.prems(1,2) x y by (auto simp: om_ok_def)
    then show "map_of xs n = map_of ys' n"
      using fun_cong [OF Cons.prems(3), of n] x y \<open>k = k'\<close>
      by (cases "n = k") (auto simp: map_of_eq_None_iff [THEN iffD2])
  qed
  moreover have "om_ok xs" "om_ok ys'" using Cons.prems(1,2) x y by (simp_all add: om_ok_def)
  ultimately show ?case using Cons.IH [of ys'] x y by simp
qed

end
