(* ===== verification/Yaml_If.thy ===== *)
theory Yaml_If
  imports Prelude
begin

text \<open>
  The calls into yaml-cpp, a library outside the repository: a record of operations over an unknown
  node type \<open>'y\<close>, the locale of what the sources rely on, and a reference node type for the
  witnesses. \<open>y_at\<close> is \<^verbatim>\<open>node[key]\<close>: \<open>None\<close> for a node that is not defined; it throws on a
  scalar.
\<close>

record 'y yaml_ops =
  y_at :: "'y \<Rightarrow> string \<Rightarrow> 'y option res"
  y_string :: "'y \<Rightarrow> string res"
  y_int :: "'y \<Rightarrow> int res"
  y_u16 :: "'y \<Rightarrow> u16 res"
  y_bool :: "'y \<Rightarrow> bool res"
  y_entries :: "'y \<Rightarrow> (string \<times> 'y) list res"
  y_obj :: "(string \<times> 'y) list \<Rightarrow> 'y"
  y_of_string :: "string \<Rightarrow> 'y"
  y_of_int :: "int \<Rightarrow> 'y"
  y_of_u16 :: "u16 \<Rightarrow> 'y"
  y_of_bool :: "bool \<Rightarrow> 'y"

text \<open>The pattern \<^verbatim>\<open>if (node[k]) { obj.set(node[k].as<T>()); }\<close>\<close>

definition y_field :: "'y yaml_ops \<Rightarrow> 'y \<Rightarrow> string \<Rightarrow> ('y \<Rightarrow> 'a res) \<Rightarrow> ('a \<Rightarrow> 's \<Rightarrow> 's) \<Rightarrow> 's \<Rightarrow> 's res" where
  "y_field Y node k get upd s =
     res_bind (y_at Y node k) (\<lambda>n.
       case n of
         None \<Rightarrow> Inr s
       | Some v \<Rightarrow> res_bind (get v) (\<lambda>x. Inr (upd x s)))"

locale yaml_lib =
  fixes Y :: "'y yaml_ops"
  assumes at_obj: "y_at Y (y_obj Y kvs) k = Inr (map_of kvs k)"
    and string_of: "y_string Y (y_of_string Y s) = Inr s"
    and int_of: "y_int Y (y_of_int Y i) = Inr i"
    and u16_of: "y_u16 Y (y_of_u16 Y n) = Inr n"
    and bool_of: "y_bool Y (y_of_bool Y b) = Inr b"
    and entries_obj: "y_entries Y (y_obj Y kvs) = Inr kvs"

section \<open>A reference node type\<close>

datatype yaml = YStr string | YInt int | YU16 u16 | YBool bool | YObj "(string \<times> yaml) list"

fun yaml_at :: "yaml \<Rightarrow> string \<Rightarrow> yaml option res" where
  "yaml_at (YObj kvs) k = Inr (map_of kvs k)"
| "yaml_at _ k = Inl (StdError ''BadSubscript'')"

fun yaml_string :: "yaml \<Rightarrow> string res" where
  "yaml_string (YStr s) = Inr s"
| "yaml_string _ = Inl (StdError ''BadConversion'')"

fun yaml_int :: "yaml \<Rightarrow> int res" where
  "yaml_int (YInt i) = Inr i"
| "yaml_int _ = Inl (StdError ''BadConversion'')"

fun yaml_u16 :: "yaml \<Rightarrow> u16 res" where
  "yaml_u16 (YU16 n) = Inr n"
| "yaml_u16 _ = Inl (StdError ''BadConversion'')"

fun yaml_bool :: "yaml \<Rightarrow> bool res" where
  "yaml_bool (YBool b) = Inr b"
| "yaml_bool _ = Inl (StdError ''BadConversion'')"

fun yaml_entries :: "yaml \<Rightarrow> (string \<times> yaml) list res" where
  "yaml_entries (YObj kvs) = Inr kvs"
| "yaml_entries _ = Inl (StdError ''BadConversion'')"

definition ref_yaml :: "yaml yaml_ops" where
  "ref_yaml =
     \<lparr>y_at = yaml_at, y_string = yaml_string, y_int = yaml_int, y_u16 = yaml_u16, y_bool = yaml_bool,
      y_entries = yaml_entries, y_obj = YObj, y_of_string = YStr, y_of_int = YInt, y_of_u16 = YU16,
      y_of_bool = YBool\<rparr>"

interpretation refyaml: yaml_lib ref_yaml
  by unfold_locales (simp_all add: ref_yaml_def)

end
