(* ===== verification/Configs.thy ===== *)
theory Configs
  imports Enums Ordered_Map Yaml_If Net_Hook
begin

text \<open>
  \<^verbatim>\<open>src/daemon/configs.hpp\<close> and \<^verbatim>\<open>configs.cc\<close>: the daemon's configuration and its YAML form. The eBPF
  services are a \<^verbatim>\<open>std::map\<close>, an ordered association list here.
\<close>

section \<open>ConfigEbpf\<close>

record ConfigEbpf =
  conf_lib :: string
  conf_config :: string
  conf_hook :: HookType
  conf_ifindex :: int
  conf_order :: int

definition ConfigEbpf_default :: ConfigEbpf where
  "ConfigEbpf_default =
     \<lparr>conf_lib = ''/path/to/libhebpf_xx.so'', conf_config = ''/path/to/config.json'',
      conf_hook = HookType.UNKNOWN, conf_ifindex = FD_INVALID, conf_order = 0\<rparr>"

definition setLib :: "string \<Rightarrow> ConfigEbpf \<Rightarrow> ConfigEbpf" where
  "setLib lib c = c\<lparr>conf_lib := lib\<rparr>"

definition setConfig :: "string \<Rightarrow> ConfigEbpf \<Rightarrow> ConfigEbpf" where
  "setConfig config c = c\<lparr>conf_config := config\<rparr>"

definition setHook :: "HookType \<Rightarrow> ConfigEbpf \<Rightarrow> ConfigEbpf" where
  "setHook hook c = c\<lparr>conf_hook := hook\<rparr>"

definition setIfindex :: "int \<Rightarrow> ConfigEbpf \<Rightarrow> ConfigEbpf" where
  "setIfindex ifindex c = c\<lparr>conf_ifindex := ifindex\<rparr>"

definition setOrder :: "int \<Rightarrow> ConfigEbpf \<Rightarrow> ConfigEbpf" where
  "setOrder order c = c\<lparr>conf_order := order\<rparr>"

text \<open>The getters, which the simplifier unfolds, here and for the other configuration classes.\<close>

definition getLib :: "ConfigEbpf \<Rightarrow> string" where [simp]: "getLib c = conf_lib c"
definition getConfig :: "ConfigEbpf \<Rightarrow> string" where [simp]: "getConfig c = conf_config c"
definition getHook :: "ConfigEbpf \<Rightarrow> HookType" where [simp]: "getHook c = conf_hook c"
definition getIfindex :: "ConfigEbpf \<Rightarrow> int" where [simp]: "getIfindex c = conf_ifindex c"
definition getOrder :: "ConfigEbpf \<Rightarrow> int" where [simp]: "getOrder c = conf_order c"

definition ConfigEbpf_new :: "string \<Rightarrow> string \<Rightarrow> HookType \<Rightarrow> int \<Rightarrow> int \<Rightarrow> ConfigEbpf" where
  "ConfigEbpf_new lib config hook ifindex order =
     setOrder order (setIfindex ifindex (setHook hook (setConfig config (setLib lib ConfigEbpf_default))))"

definition ConfigEbpf_eq :: "ConfigEbpf \<Rightarrow> ConfigEbpf \<Rightarrow> bool" where
  "ConfigEbpf_eq a b \<longleftrightarrow> conf_lib a = conf_lib b \<and> conf_config a = conf_config b \<and>
     conf_hook a = conf_hook b \<and> conf_ifindex a = conf_ifindex b \<and> conf_order a = conf_order b"

definition ConfigEbpf_ne :: "ConfigEbpf \<Rightarrow> ConfigEbpf \<Rightarrow> bool" where
  "ConfigEbpf_ne a b \<longleftrightarrow> \<not> ConfigEbpf_eq a b"

lemmas conf_setters = setLib_def setConfig_def setHook_def setIfindex_def setOrder_def

section \<open>Configs\<close>

type_synonym EbpfMap = "(string \<times> ConfigEbpf) list"

record Configs =
  prometheus_enabled :: bool
  prometheus_listen :: string
  dbgserv_enabled :: bool
  dbgserv_addr :: string
  dbgserv_port :: u16
  ebpfs :: EbpfMap

definition Configs_default :: Configs where
  "Configs_default =
     \<lparr>prometheus_enabled = False, prometheus_listen = ''0.0.0.0:8080'', dbgserv_enabled = False,
      dbgserv_addr = ''127.0.0.1'', dbgserv_port = 9999, ebpfs = [(''example'', ConfigEbpf_default)]\<rparr>"

definition setPrometheusEnabled :: "bool \<Rightarrow> Configs \<Rightarrow> Configs" where
  "setPrometheusEnabled enabled c = c\<lparr>prometheus_enabled := enabled\<rparr>"

definition setPrometheusListen :: "string \<Rightarrow> Configs \<Rightarrow> Configs" where
  "setPrometheusListen listen c = c\<lparr>prometheus_listen := listen\<rparr>"

definition setDebugServerEnabled :: "bool \<Rightarrow> Configs \<Rightarrow> Configs" where
  "setDebugServerEnabled enabled c = c\<lparr>dbgserv_enabled := enabled\<rparr>"

definition setDebugServerAddr :: "string \<Rightarrow> Configs \<Rightarrow> Configs" where
  "setDebugServerAddr address c = c\<lparr>dbgserv_addr := address\<rparr>"

definition setDebugServerPort :: "u16 \<Rightarrow> Configs \<Rightarrow> Configs" where
  "setDebugServerPort port c = c\<lparr>dbgserv_port := port\<rparr>"

definition setEbpfs :: "EbpfMap \<Rightarrow> Configs \<Rightarrow> Configs" where
  "setEbpfs ebpf_so c = c\<lparr>ebpfs := ebpf_so\<rparr>"

definition getPrometheusEnabled :: "Configs \<Rightarrow> bool" where [simp]: "getPrometheusEnabled c = prometheus_enabled c"
definition getPrometheusListen :: "Configs \<Rightarrow> string" where [simp]: "getPrometheusListen c = prometheus_listen c"
definition getDebugServerEnabled :: "Configs \<Rightarrow> bool" where [simp]: "getDebugServerEnabled c = dbgserv_enabled c"
definition getDebugServerAddr :: "Configs \<Rightarrow> string" where [simp]: "getDebugServerAddr c = dbgserv_addr c"
definition getDebugServerPort :: "Configs \<Rightarrow> u16" where [simp]: "getDebugServerPort c = dbgserv_port c"
definition getEbpfs :: "Configs \<Rightarrow> EbpfMap" where [simp]: "getEbpfs c = ebpfs c"

definition appendEbpf :: "string \<Rightarrow> string \<Rightarrow> string \<Rightarrow> HookType \<Rightarrow> int \<Rightarrow> int \<Rightarrow> Configs \<Rightarrow> Configs" where
  "appendEbpf name lib config hook ifindex order c =
     (if name = [] then c
      else c\<lparr>ebpfs := om_upd name (ConfigEbpf_new lib config hook ifindex order) (ebpfs c)\<rparr>)"

definition deleteEbpf :: "string \<Rightarrow> Configs \<Rightarrow> Configs" where
  "deleteEbpf name c = (if name = [] then c else c\<lparr>ebpfs := al_del name (ebpfs c)\<rparr>)"

definition Configs_eq :: "Configs \<Rightarrow> Configs \<Rightarrow> bool" where
  "Configs_eq a b \<longleftrightarrow> prometheus_enabled a = prometheus_enabled b \<and>
     prometheus_listen a = prometheus_listen b \<and> dbgserv_enabled a = dbgserv_enabled b \<and>
     dbgserv_addr a = dbgserv_addr b \<and> dbgserv_port a = dbgserv_port b \<and>
     list_all2 (\<lambda>p q. fst p = fst q \<and> ConfigEbpf_eq (snd p) (snd q)) (ebpfs a) (ebpfs b)"

definition Configs_ne :: "Configs \<Rightarrow> Configs \<Rightarrow> bool" where
  "Configs_ne a b \<longleftrightarrow> \<not> Configs_eq a b"

lemmas configs_setters = setPrometheusEnabled_def setPrometheusListen_def setDebugServerEnabled_def
  setDebugServerAddr_def setDebugServerPort_def setEbpfs_def

lemma ConfigEbpf_eq_iff: "ConfigEbpf_eq a b \<longleftrightarrow> a = b"
  by (cases a; cases b) (auto simp: ConfigEbpf_eq_def)

lemma Configs_eq_iff: "Configs_eq a b \<longleftrightarrow> a = b"
proof -
  have "list_all2 (\<lambda>p q. fst p = fst q \<and> ConfigEbpf_eq (snd p) (snd q)) xs ys \<longleftrightarrow> xs = ys" for xs ys
    by (simp add: ConfigEbpf_eq_iff list_all2_eq flip: prod_eq_iff)
  then show ?thesis
    by (cases a; cases b) (auto simp: Configs_eq_def)
qed

section \<open>YAML\<close>

definition ConfigEbpf_encode :: "'y yaml_ops \<Rightarrow> ConfigEbpf \<Rightarrow> 'y" where
  "ConfigEbpf_encode Y conf =
     y_obj Y [(''lib'', y_of_string Y (getLib conf)), (''config'', y_of_string Y (getConfig conf)),
       (''hook'', y_of_string Y (enumName HookType_enum (getHook conf))),
       (''ifindex'', y_of_int Y (getIfindex conf)), (''order'', y_of_int Y (getOrder conf))]"

text \<open>An unknown hook name is reported on stderr and becomes \<open>UNKNOWN\<close>.\<close>

definition hook_of_name :: "string \<Rightarrow> HookType" where
  "hook_of_name s = (case stringEnum HookType_enum s of Some h \<Rightarrow> h | None \<Rightarrow> HookType.UNKNOWN)"

definition ConfigEbpf_decode :: "'y yaml_ops \<Rightarrow> 'y \<Rightarrow> ConfigEbpf \<Rightarrow> ConfigEbpf res" where
  "ConfigEbpf_decode Y node conf =
     res_bind (y_field Y node ''lib'' (y_string Y) setLib conf) (\<lambda>conf.
     res_bind (y_field Y node ''config'' (y_string Y) setConfig conf) (\<lambda>conf.
     res_bind (y_field Y node ''hook'' (y_string Y) (\<lambda>s. setHook (hook_of_name s)) conf) (\<lambda>conf.
     res_bind (y_field Y node ''ifindex'' (y_int Y) setIfindex conf) (\<lambda>conf.
     y_field Y node ''order'' (y_int Y) setOrder conf))))"

text \<open>\<^verbatim>\<open>as<std::map<std::string, ConfigEbpf>>\<close>: each entry in turn, a later one over an earlier one.\<close>

definition EbpfMap_decode :: "'y yaml_ops \<Rightarrow> 'y \<Rightarrow> EbpfMap res" where
  "EbpfMap_decode Y node =
     res_bind (y_entries Y node) (\<lambda>kvs.
     res_bind (res_map (\<lambda>(k, v). res_bind (ConfigEbpf_decode Y v ConfigEbpf_default) (\<lambda>c. Inr (k, c))) kvs)
       (\<lambda>ps. Inr (om_of ps)))"

definition Configs_encode :: "'y yaml_ops \<Rightarrow> Configs \<Rightarrow> 'y" where
  "Configs_encode Y conf =
     y_obj Y
       ([(''prometheus'', y_obj Y [(''enabled'', y_of_bool Y (getPrometheusEnabled conf)),
                                   (''listen'', y_of_string Y (getPrometheusListen conf))]),
         (''debug_server'', y_obj Y [(''enabled'', y_of_bool Y (getDebugServerEnabled conf)),
                                     (''address'', y_of_string Y (getDebugServerAddr conf)),
                                     (''port'', y_of_u16 Y (getDebugServerPort conf))])]
        @ (if getEbpfs conf = [] then []
           else [(''ebpf'', y_obj Y (map (\<lambda>(k, c). (k, ConfigEbpf_encode Y c)) (getEbpfs conf)))]))"

definition prometheus_decode :: "'y yaml_ops \<Rightarrow> 'y \<Rightarrow> Configs \<Rightarrow> Configs res" where
  "prometheus_decode Y node conf =
     res_bind (y_field Y node ''enabled'' (y_bool Y) setPrometheusEnabled conf)
       (y_field Y node ''listen'' (y_string Y) setPrometheusListen)"

definition debug_server_decode :: "'y yaml_ops \<Rightarrow> 'y \<Rightarrow> Configs \<Rightarrow> Configs res" where
  "debug_server_decode Y node conf =
     res_bind (y_field Y node ''enabled'' (y_bool Y) setDebugServerEnabled conf) (\<lambda>conf.
     res_bind (y_field Y node ''address'' (y_string Y) setDebugServerAddr conf)
       (y_field Y node ''port'' (y_u16 Y) setDebugServerPort))"

definition y_section :: "'y yaml_ops \<Rightarrow> 'y \<Rightarrow> string \<Rightarrow> ('y \<Rightarrow> 's \<Rightarrow> 's res) \<Rightarrow> 's \<Rightarrow> 's res" where
  "y_section Y node k f s =
     res_bind (y_at Y node k) (\<lambda>n. case n of None \<Rightarrow> Inr s | Some v \<Rightarrow> f v s)"

definition Configs_decode :: "'y yaml_ops \<Rightarrow> 'y \<Rightarrow> Configs \<Rightarrow> Configs res" where
  "Configs_decode Y node conf =
     res_bind (y_section Y node ''prometheus'' (prometheus_decode Y) conf) (\<lambda>conf.
     res_bind (y_section Y node ''debug_server'' (debug_server_decode Y) conf) (\<lambda>conf.
     y_field Y node ''ebpf'' (EbpfMap_decode Y) setEbpfs conf))"

text \<open>
  \<^verbatim>\<open>loadFromConfig\<close>: \<open>file\<close> is \<open>None\<close> when the path is not a regular file or is empty, else the
  result of \<^verbatim>\<open>YAML::LoadFile\<close>. The constructor turns every exception into the default.
\<close>

definition loadFromConfig :: "'y yaml_ops \<Rightarrow> 'y res option \<Rightarrow> Configs res" where
  "loadFromConfig Y file =
     (case file of
        None \<Rightarrow> Inr Configs_default
      | Some n \<Rightarrow> res_bind n (\<lambda>node. Configs_decode Y node Configs_default))"

definition Configs_new :: "'y yaml_ops \<Rightarrow> 'y res option \<Rightarrow> Configs res" where
  "Configs_new Y file =
     (case loadFromConfig Y file of
        Inr c \<Rightarrow> Inr c
      | Inl e \<Rightarrow> if catchable e then Inr Configs_default else Inl e)"

context yaml_lib
begin

lemmas yaml_eval = at_obj string_of int_of u16_of bool_of entries_obj

lemma hook_of_enumName: "hook_of_name (enumName HookType_enum h) = h"
  by (simp add: hook_of_name_def hook_enum.string_of_name)

lemma ebpf_roundtrip: "ConfigEbpf_decode Y (ConfigEbpf_encode Y c) c0 = Inr c"
  by (simp add: ConfigEbpf_decode_def ConfigEbpf_encode_def y_field_def yaml_eval conf_setters
      hook_of_enumName)

lemma ebpf_map_roundtrip:
  assumes "om_ok m"
  shows "EbpfMap_decode Y (y_obj Y (map (\<lambda>(k, c). (k, ConfigEbpf_encode Y c)) m)) = Inr m"
proof -
  have dec: "res_map (\<lambda>(k, v). res_bind (ConfigEbpf_decode Y v ConfigEbpf_default) (\<lambda>c. Inr (k, c)))
      (map (\<lambda>(k, c). (k, ConfigEbpf_encode Y c)) ps) = Inr ps" for ps
    by (induction ps) (auto simp: ebpf_roundtrip)
  show ?thesis
    unfolding EbpfMap_decode_def entries_obj res_bind.simps dec om_of_ok [OF assms] ..
qed

lemma configs_roundtrip:
  assumes "om_ok (ebpfs c)"
  shows "Configs_decode Y (Configs_encode Y c) c0 =
    Inr (if ebpfs c = [] then c\<lparr>ebpfs := ebpfs c0\<rparr> else c)"
  using ebpf_map_roundtrip [OF assms]
  by (simp add: Configs_decode_def Configs_encode_def y_section_def y_field_def prometheus_decode_def
      debug_server_decode_def yaml_eval configs_setters)

end

section \<open>Properties\<close>

text \<open>
  Claim C20. A configuration survives being written as YAML and read back, exactly when it names at
  least one service: a configuration without services is written without the section and comes back
  with the placeholder service \<^verbatim>\<open>example\<close>.
\<close>

theorem configs_yaml_roundtrip:
  assumes "yaml_lib Y" and "om_ok (ebpfs c)"
  shows "Configs_new Y (Some (Inr (Configs_encode Y c))) =
    Inr (if ebpfs c = [] then c\<lparr>ebpfs := [(''example'', ConfigEbpf_default)]\<rparr> else c)"
  using yaml_lib.configs_roundtrip [OF assms, of Configs_default]
  by (simp add: Configs_new_def loadFromConfig_def Configs_default_def)

theorem configs_yaml_roundtrip_witness:
  "Configs_new ref_yaml (Some (Inr (Configs_encode ref_yaml (deleteEbpf ''example'' Configs_default)))) =
     Inr Configs_default"
  using configs_yaml_roundtrip [OF refyaml.yaml_lib_axioms, of "deleteEbpf ''example'' Configs_default"]
  by (simp add: deleteEbpf_def Configs_default_def al_del_def)

text \<open>
  The service table is an ordered map: appending under a name replaces or adds exactly
  that entry, deleting removes exactly that entry, the order of the names is kept, and the empty
  name changes nothing.
\<close>

theorem ebpf_table_operations:
  assumes "om_ok (ebpfs c)"
  shows "om_ok (ebpfs (appendEbpf n lib conf hk nic ord c)) \<and> om_ok (ebpfs (deleteEbpf n c)) \<and>
    (if n = [] then appendEbpf n lib conf hk nic ord c = c \<and> deleteEbpf n c = c
     else map_of (ebpfs (appendEbpf n lib conf hk nic ord c)) =
            (map_of (ebpfs c))(n \<mapsto> \<lparr>conf_lib = lib, conf_config = conf, conf_hook = hk, conf_ifindex = nic,
                                     conf_order = ord\<rparr>)
        \<and> map_of (ebpfs (deleteEbpf n c)) = (map_of (ebpfs c))(n := None))"
  using assms
  by (simp add: appendEbpf_def deleteEbpf_def om_simps al_simps ConfigEbpf_new_def conf_setters
      ConfigEbpf_default_def)

theorem ebpf_table_operations_witness:
  "map_of (ebpfs (appendEbpf ''acl'' ''a.so'' ''a.json'' TC 1 0 Configs_default)) ''acl'' =
     Some \<lparr>conf_lib = ''a.so'', conf_config = ''a.json'', conf_hook = TC, conf_ifindex = 1, conf_order = 0\<rparr>"
  using ebpf_table_operations [of Configs_default "''acl''" "''a.so''" "''a.json''" TC 1 0]
  by (simp add: Configs_default_def om_ok_def)

end
