(* ===== verification/Status_Queue.thy ===== *)
theory Status_Queue
  imports Prelude
begin

text \<open>
  \<^verbatim>\<open>src/data/queue.h\<close> and \<^verbatim>\<open>queue.tpp\<close>: the bounded queue between the daemon's producer thread and
  the monitor's consumer thread. First the operations as one caller sees them, then the same
  operations as steps of several threads around the mutex and the two condition variables.
\<close>

section \<open>One caller\<close>

record 'a Queue =
  q_items :: "'a list"
  q_capacity :: nat
  q_stopped :: bool

definition MAX_QUEUE_SIZE :: nat where "MAX_QUEUE_SIZE = 4 * 1024 * 1024"

definition Queue_new :: "nat \<Rightarrow> 'a Queue" where
  "Queue_new capacity = \<lparr>q_items = [], q_capacity = capacity, q_stopped = False\<rparr>"

definition queue_empty :: "'a Queue \<Rightarrow> bool" where
  "queue_empty q \<longleftrightarrow> q_items q = []"

definition queue_full :: "'a Queue \<Rightarrow> bool" where
  "queue_full q \<longleftrightarrow> length (q_items q) \<ge> q_capacity q"

definition queue_start :: "'a Queue \<Rightarrow> 'a Queue" where
  "queue_start q = q\<lparr>q_stopped := False\<rparr>"

definition queue_stop :: "'a Queue \<Rightarrow> 'a Queue" where
  "queue_stop q = q\<lparr>q_stopped := True\<rparr>"

text \<open>\<open>None\<close>: the caller waits.\<close>

definition queue_push :: "'a \<Rightarrow> 'a Queue \<Rightarrow> 'a Queue option" where
  "queue_push value q =
     (if \<not> (length (q_items q) < q_capacity q \<or> q_stopped q) then None
      else if q_stopped q then Some q
      else Some (q\<lparr>q_items := q_items q @ [value]\<rparr>))"

definition queue_tryPop :: "'a Queue \<Rightarrow> 'a option \<times> 'a Queue" where
  "queue_tryPop q =
     (if q_stopped q then (None, q)
      else case q_items q of [] \<Rightarrow> (None, q) | x # xs \<Rightarrow> (Some x, q\<lparr>q_items := xs\<rparr>))"

definition queue_pop :: "'a Queue \<Rightarrow> ('a option \<times> 'a Queue) option" where
  "queue_pop q =
     (if \<not> (q_items q \<noteq> [] \<or> q_stopped q) then None else Some (queue_tryPop q))"

lemmas queue_defs = queue_empty_def queue_full_def queue_start_def queue_stop_def queue_push_def
  queue_tryPop_def queue_pop_def

section \<open>Threads\<close>

text \<open>
  Where a thread is: outside, asking for the mutex in \<^verbatim>\<open>push\<close>, \<^verbatim>\<open>pop\<close> or \<^verbatim>\<open>tryPop\<close>, holding it
  after the predicate of \<^verbatim>\<open>wait\<close> was false (\<open>_check\<close>: it is about to block, which gives the
  mutex back), blocked on a condition variable (\<open>_wait\<close>), or in \<^verbatim>\<open>stop\<close> between the store and the
  two notifications. \<^verbatim>\<open>stop\<close> does not take the mutex.
\<close>

datatype 'a pc =
  Idle | Push_call 'a | Push_check 'a | Push_wait 'a
| Pop_call | Pop_check | Pop_wait | Try_call | Stopping

text \<open>\<open>pushed\<close> and \<open>popped\<close> record what went in and out.\<close>

record 'a threads =
  th_queue :: "'a Queue"
  th_pc :: "nat \<Rightarrow> 'a pc"
  th_lock :: "nat option"
  pushed :: "'a list"
  popped :: "'a list"

definition threads_new :: "nat \<Rightarrow> 'a threads" where
  "threads_new capacity =
     \<lparr>th_queue = Queue_new capacity, th_pc = (\<lambda>_. Idle), th_lock = None, pushed = [], popped = []\<rparr>"

definition move :: "nat \<Rightarrow> 'a pc \<Rightarrow> 'a threads \<Rightarrow> 'a threads" where
  "move t p s = s\<lparr>th_pc := (th_pc s)(t := p)\<rparr>"

text \<open>\<^verbatim>\<open>notify_one\<close> wakes one of the waiting threads, if there is any.\<close>

definition wakes_pop :: "'a threads \<Rightarrow> 'a threads \<Rightarrow> bool" where
  "wakes_pop s s' \<longleftrightarrow> (\<exists>t. th_pc s t = Pop_wait \<and> s' = move t Pop_call s) \<or>
     (\<forall>t. th_pc s t \<noteq> Pop_wait) \<and> s' = s"

definition wakes_push :: "'a threads \<Rightarrow> 'a threads \<Rightarrow> bool" where
  "wakes_push s s' \<longleftrightarrow> (\<exists>t v. th_pc s t = Push_wait v \<and> s' = move t (Push_call v) s) \<or>
     (\<forall>t v. th_pc s t \<noteq> Push_wait v) \<and> s' = s"

fun wake :: "'a pc \<Rightarrow> 'a pc" where
  "wake Pop_wait = Pop_call"
| "wake (Push_wait v) = Push_call v"
| "wake p = p"

inductive qstep :: "'a threads \<Rightarrow> 'a threads \<Rightarrow> bool" where
  call_push: "th_pc s t = Idle \<Longrightarrow> qstep s (move t (Push_call v) s)"
| call_pop: "th_pc s t = Idle \<Longrightarrow> qstep s (move t Pop_call s)"
| call_tryPop: "th_pc s t = Idle \<Longrightarrow> qstep s (move t Try_call s)"
| call_stop: "th_pc s t = Idle \<Longrightarrow>
    qstep s (move t Stopping (s\<lparr>th_queue := queue_stop (th_queue s)\<rparr>))"
| push_full: "th_pc s t = Push_call v \<Longrightarrow> th_lock s = None \<Longrightarrow> queue_push v (th_queue s) = None \<Longrightarrow>
    qstep s (move t (Push_check v) (s\<lparr>th_lock := Some t\<rparr>))"
| push_block: "th_pc s t = Push_check v \<Longrightarrow> qstep s (move t (Push_wait v) (s\<lparr>th_lock := None\<rparr>))"
| push_stopped: "th_pc s t = Push_call v \<Longrightarrow> th_lock s = None \<Longrightarrow> q_stopped (th_queue s) \<Longrightarrow>
    qstep s (move t Idle s)"
| push_done: "th_pc s t = Push_call v \<Longrightarrow> th_lock s = None \<Longrightarrow> \<not> q_stopped (th_queue s) \<Longrightarrow>
    queue_push v (th_queue s) = Some q \<Longrightarrow>
    wakes_pop (move t Idle (s\<lparr>th_queue := q, pushed := pushed s @ [v]\<rparr>)) s' \<Longrightarrow> qstep s s'"
| pop_empty: "th_pc s t = Pop_call \<Longrightarrow> th_lock s = None \<Longrightarrow> queue_pop (th_queue s) = None \<Longrightarrow>
    qstep s (move t Pop_check (s\<lparr>th_lock := Some t\<rparr>))"
| pop_block: "th_pc s t = Pop_check \<Longrightarrow> qstep s (move t Pop_wait (s\<lparr>th_lock := None\<rparr>))"
| pop_ready: "th_pc s t = Pop_call \<Longrightarrow> th_lock s = None \<Longrightarrow> queue_pop (th_queue s) \<noteq> None \<Longrightarrow>
    qstep s (move t Try_call s)"
| try_none: "th_pc s t = Try_call \<Longrightarrow> th_lock s = None \<Longrightarrow> queue_tryPop (th_queue s) = (None, q) \<Longrightarrow>
    qstep s (move t Idle s)"
| try_some: "th_pc s t = Try_call \<Longrightarrow> th_lock s = None \<Longrightarrow> queue_tryPop (th_queue s) = (Some x, q) \<Longrightarrow>
    wakes_push (move t Idle (s\<lparr>th_queue := q, popped := popped s @ [x]\<rparr>)) s' \<Longrightarrow> qstep s s'"
| stop_notify: "th_pc s t = Stopping \<Longrightarrow>
    qstep s (s\<lparr>th_pc := (\<lambda>u. if u = t then Idle else wake (th_pc s u))\<rparr>)"

text \<open>A condition variable may also wake a thread for no reason.\<close>

inductive spurious :: "'a threads \<Rightarrow> 'a threads \<Rightarrow> bool" where
  "wake (th_pc s t) \<noteq> th_pc s t \<Longrightarrow> spurious s (move t (wake (th_pc s t)) s)"

inductive qreach :: "nat \<Rightarrow> 'a threads \<Rightarrow> bool" for capacity where
  qreach_init: "qreach capacity (threads_new capacity)"
| qreach_step: "qreach capacity s \<Longrightarrow> qstep s s' \<or> spurious s s' \<Longrightarrow> qreach capacity s'"

section \<open>First in, first out, and bounded\<close>

definition queue_inv :: "nat \<Rightarrow> 'a threads \<Rightarrow> bool" where
  "queue_inv capacity s \<longleftrightarrow> q_capacity (th_queue s) = capacity \<and> length (q_items (th_queue s)) \<le> capacity \<and>
     pushed s = popped s @ q_items (th_queue s)"

lemma move_simps [simp]:
  "th_queue (move t p s) = th_queue s" "pushed (move t p s) = pushed s" "popped (move t p s) = popped s"
  "th_lock (move t p s) = th_lock s" "th_pc (move t p s) = (th_pc s)(t := p)"
  by (simp_all add: move_def)

lemma wakes_same:
  "wakes_pop s s' \<Longrightarrow> th_queue s' = th_queue s \<and> pushed s' = pushed s \<and> popped s' = popped s \<and> th_lock s' = th_lock s"
  "wakes_push s s' \<Longrightarrow> th_queue s' = th_queue s \<and> pushed s' = pushed s \<and> popped s' = popped s \<and> th_lock s' = th_lock s"
  by (auto simp: wakes_pop_def wakes_push_def)

lemma qstep_inv: "qstep s s' \<Longrightarrow> queue_inv c s \<Longrightarrow> queue_inv c s'"
  by (induction rule: qstep.induct)
    (auto simp: queue_inv_def queue_defs dest!: wakes_same split: if_splits list.splits)

text \<open>
  Claim C12. Whatever the threads do and however they interleave, the queue never holds more than its
  capacity, and what was taken out so far followed by what is still inside is exactly what was put
  in, in that order: nothing is lost, duplicated or reordered by the locking.
\<close>

theorem queue_is_fifo:
  assumes "qreach capacity s"
  shows "length (q_items (th_queue s)) \<le> capacity \<and> pushed s = popped s @ q_items (th_queue s)"
proof -
  have "queue_inv capacity s"
    using assms
  proof induction
    case qreach_init
    then show ?case by (simp add: queue_inv_def threads_new_def Queue_new_def)
  next
    case (qreach_step s s')
    then show ?case by (auto dest: qstep_inv simp: queue_inv_def spurious.simps)
  qed
  then show ?thesis by (simp add: queue_inv_def)
qed

section \<open>Stopping\<close>

text \<open>A thread blocked in \<^verbatim>\<open>pop\<close> while the queue is stopped, with nobody left to wake it.\<close>

definition stuck_consumer :: "'a threads" where
  "stuck_consumer = \<lparr>th_queue = queue_stop (Queue_new 4), th_pc = (\<lambda>_. Idle)(0 := Pop_wait), th_lock = None,
     pushed = [], popped = []\<rparr>"

lemma stuck_reachable: "qreach 4 (stuck_consumer :: 'a threads)"
proof -
  let ?s0 = "threads_new 4 :: 'a threads"
  let ?s1 = "move 0 Pop_call ?s0"
  let ?s2 = "move 0 Pop_check (?s1\<lparr>th_lock := Some 0\<rparr>)"
  let ?s3 = "move 1 Stopping (?s2\<lparr>th_queue := queue_stop (th_queue ?s2)\<rparr>)"
  let ?s4 = "?s3\<lparr>th_pc := (\<lambda>u. if u = 1 then Idle else wake (th_pc ?s3 u))\<rparr>"
  let ?s5 = "move 0 Pop_wait (?s4\<lparr>th_lock := None\<rparr>)"
  have "qstep ?s0 ?s1" by (rule call_pop) (simp add: threads_new_def)
  moreover have "qstep ?s1 ?s2"
    by (rule pop_empty) (simp_all add: threads_new_def queue_pop_def Queue_new_def)
  moreover have "qstep ?s2 ?s3" by (rule call_stop) (simp add: threads_new_def)
  moreover have "qstep ?s3 ?s4" by (rule stop_notify) simp
  moreover have "qstep ?s4 ?s5" by (rule pop_block) simp
  ultimately have "qreach 4 ?s5" by (meson qreach.intros)
  moreover have "?s5 = stuck_consumer"
    by (auto simp: stuck_consumer_def threads_new_def move_def fun_eq_iff)
  ultimately show ?thesis by simp
qed

theorem queue_is_fifo_witness:
  "length (q_items (th_queue (stuck_consumer :: nat threads))) \<le> 4"
  using queue_is_fifo [OF stuck_reachable] by blast

text \<open>Steps of the threads in which nobody calls \<^verbatim>\<open>stop\<close> again.\<close>

definition no_more_stop :: "'a threads \<Rightarrow> 'a threads \<Rightarrow> bool" where
  "no_more_stop s s' \<longleftrightarrow> qstep s s' \<and> (\<forall>t. th_pc s' t \<noteq> Stopping)"

lemma asleep_stays:
  "qstep s s' \<Longrightarrow> q_stopped (th_queue s) \<Longrightarrow> th_pc s u = Pop_wait \<Longrightarrow> \<forall>t. th_pc s t \<noteq> Stopping \<Longrightarrow>
   q_stopped (th_queue s') \<and> th_pc s' u = Pop_wait"
  by (induction rule: qstep.induct) (auto simp: queue_defs split: if_splits)


text \<open>
  After \<^verbatim>\<open>stop\<close> neither \<^verbatim>\<open>pop\<close> nor \<^verbatim>\<open>tryPop\<close> gives out an element, even when the queue still
  holds some; a push returns without storing anything; and the elements are delivered again, in
  order, once \<^verbatim>\<open>start\<close> is called.
\<close>

theorem stopped_queue_keeps_its_elements:
  "queue_pop (queue_stop q) = Some (None, queue_stop q) \<and>
   queue_tryPop (queue_stop q) = (None, queue_stop q) \<and>
   queue_push v (queue_stop q) = Some (queue_stop q) \<and>
   queue_tryPop (queue_start (queue_stop q)) =
     (case q_items q of [] \<Rightarrow> (None, queue_start q) | x # xs \<Rightarrow> (Some x, (queue_start q)\<lparr>q_items := xs\<rparr>))"
  by (cases q) (simp add: queue_defs split: list.split)

end
