(* ===== verification/Daemon.thy ===== *)
theory Daemon
  imports Loader Configs Status_Queue "HOL-Library.Product_Lexorder"
begin

text \<open>
  \<^verbatim>\<open>src/daemon/daemon.h\<close> and \<^verbatim>\<open>daemon.cc\<close>: the daemon brings the services that run in line with the
  configuration file. It reaches the loader through \<^verbatim>\<open>LoaderIf\<close>; its lemmas rest on the contract of
  that interface, and its properties on the loader's own model.
\<close>

section \<open>State\<close>

record ('l, 'j) Daemon =
  d_loader :: "'l option"
  running :: bool
  current_ebpf :: EbpfMap
  status_queue :: "'j Queue option"
  producer_thread :: bool

definition Daemon_new :: "'l option \<Rightarrow> ('l, 'j) Daemon" where
  "Daemon_new loader =
     \<lparr>d_loader = loader, running = False, current_ebpf = [], status_queue = None, producer_thread = False\<rparr>"

text \<open>
  What the standard library leaves open: how \<^verbatim>\<open>std::sort\<close> places equal elements, and the order in
  which the unordered map of hooks is walked.
\<close>

record daemon_env =
  de_build :: build
  de_proj :: string
  de_sort :: "(int \<times> string \<times> int) list \<Rightarrow> (int \<times> string \<times> int) list"
  de_walk :: "(HookType \<times> (string \<times> int) list) list \<Rightarrow> (HookType \<times> (string \<times> int) list) list"

text \<open>A call on the loader; on a null pointer it crashes.\<close>

definition on_loader :: "('a, 'l) st \<Rightarrow> ('a, ('l, 'j) Daemon) st" where
  "on_loader m s =
     (case d_loader s of
        None \<Rightarrow> (Inl Crash, s)
      | Some l \<Rightarrow> (case m l of (r, l') \<Rightarrow> (r, s\<lparr>d_loader := Some l'\<rparr>)))"

section \<open>Loading and unloading one service\<close>

definition loadEbpf :: "daemon_env \<Rightarrow> ('l, 'j) loader_if \<Rightarrow> string \<Rightarrow> HookType \<Rightarrow> int \<Rightarrow> string \<Rightarrow>
    (unit, ('l, 'j) Daemon) st" where
  "loadEbpf D L so_path hook_type ifindex config_path =
     st_bind (st_assert (de_build D) (\<lambda>s. so_path \<noteq> [])) (\<lambda>_.
     st_bind (st_assert (de_build D) (\<lambda>s. d_loader s \<noteq> None)) (\<lambda>_.
     st_bind (on_loader (li_load L so_path hook_type ifindex config_path)) (\<lambda>_.
     st_ret ())))"

definition unloadEbpf :: "daemon_env \<Rightarrow> ('l, 'j) loader_if \<Rightarrow> string \<Rightarrow> (unit, ('l, 'j) Daemon) st" where
  "unloadEbpf D L so_path =
     st_bind (st_assert (de_build D) (\<lambda>s. so_path \<noteq> [])) (\<lambda>_.
     st_bind (st_assert (de_build D) (\<lambda>s. d_loader s \<noteq> None)) (\<lambda>_.
     st_bind (on_loader (li_unload L so_path)) (\<lambda>_.
     st_ret ())))"

section \<open>Schedulers\<close>

text \<open>The name in the configuration and the loader's key of the scheduler of a hook and an interface.\<close>

definition scheduler_id :: "HookType \<Rightarrow> int \<Rightarrow> string" where
  "scheduler_id hook ifindex = ''scheduler;'' @ enumName HookType_enum hook @ ''_'' @ string_of_int ifindex"

definition scheduler_so :: "HookType \<Rightarrow> int \<Rightarrow> string" where
  "scheduler_so hook ifindex =
     (if hook = TC then SCHEDULER_TC_LIB else SCHEDULER_XDP_LIB) @ '';'' @ enumName HookType_enum hook @
       ''_'' @ string_of_int ifindex"

definition needed_scheduler_pairs :: "EbpfMap \<Rightarrow> (HookType \<times> int) list" where
  "needed_scheduler_pairs new_ebpf =
     map fst (om_of (map (\<lambda>(name, cfg). ((conf_hook cfg, conf_ifindex cfg), ())) new_ebpf))"

text \<open>\<^verbatim>\<open>emplace\<close> does not replace an entry that has the name already.\<close>

definition add_scheduler :: "EbpfMap \<Rightarrow> HookType \<times> int \<Rightarrow> EbpfMap" where
  "add_scheduler m hi =
     (case hi of (hook, ifindex) \<Rightarrow>
        (let id = scheduler_id hook ifindex
         in if map_of m id \<noteq> None then m
            else om_upd id (ConfigEbpf_new (scheduler_so hook ifindex) [] hook ifindex 0) m))"

definition with_schedulers :: "EbpfMap \<Rightarrow> EbpfMap" where
  "with_schedulers new_ebpf = foldl add_scheduler new_ebpf (needed_scheduler_pairs new_ebpf)"

definition without_schedulers :: "EbpfMap \<Rightarrow> EbpfMap" where
  "without_schedulers m =
     filter (\<lambda>(name, cfg). name \<noteq> scheduler_id (conf_hook cfg) (conf_ifindex cfg)) m"

section \<open>update\<close>

text \<open>Per hook, in the order of the configuration's names: order, canonical name, interface.\<close>

definition hook_order_temp :: "daemon_env \<Rightarrow> EbpfMap \<Rightarrow> (HookType \<times> (int \<times> string \<times> int) list) list res" where
  "hook_order_temp D new_ebpf =
     res_bind (res_map (\<lambda>(name, cfg).
         res_bind (getCanonicalName (de_build D) (de_proj D) (conf_hook cfg) LIBRARY (conf_lib cfg)) (\<lambda>canonical_name.
         Inr (conf_hook cfg, conf_order cfg, canonical_name, conf_ifindex cfg))) new_ebpf)
       (\<lambda>rows. Inr (foldl (\<lambda>g (hook, row).
          al_upd hook ((case map_of g hook of Some rs \<Rightarrow> rs | None \<Rightarrow> []) @ [row]) g) [] rows))"

definition hook_order :: "daemon_env \<Rightarrow> EbpfMap \<Rightarrow> (HookType \<times> (string \<times> int) list) list res" where
  "hook_order D new_ebpf =
     res_bind (hook_order_temp D new_ebpf) (\<lambda>g.
     Inr (de_walk D (map (\<lambda>(hook, rows). (hook, map (\<lambda>(_, name, ifindex). (name, ifindex)) (de_sort D rows))) g)))"

text \<open>The loader's answers are not looked at.\<close>

definition rebuild_chains :: "daemon_env \<Rightarrow> ('l, 'j) loader_if \<Rightarrow> EbpfMap \<Rightarrow> (unit, ('l, 'j) Daemon) st" where
  "rebuild_chains D L new_ebpf =
     st_bind (st_res (hook_order D new_ebpf)) (\<lambda>hooks.
     st_each (\<lambda>(hook, names).
       st_bind (st_each (\<lambda>(name, ifindex).
         st_bind (on_loader (li_allocate L hook ifindex)) (\<lambda>_. st_ret ())) names) (\<lambda>_.
       st_bind (on_loader (li_chain L hook names)) (\<lambda>_. st_ret ()))) hooks)"

definition sync_service :: "daemon_env \<Rightarrow> ('l, 'j) loader_if \<Rightarrow> EbpfMap \<Rightarrow> string \<times> ConfigEbpf \<Rightarrow>
    (unit, ('l, 'j) Daemon) st" where
  "sync_service D L current elem =
     (case elem of (name, new) \<Rightarrow>
        (case map_of current name of
           None \<Rightarrow> loadEbpf D L (conf_lib new) (conf_hook new) (conf_ifindex new) (conf_config new)
         | Some cur \<Rightarrow>
             if conf_lib cur \<noteq> conf_lib new \<or> conf_hook cur \<noteq> conf_hook new \<or> conf_ifindex cur \<noteq> conf_ifindex new
             then st_bind (unloadEbpf D L (conf_lib cur)) (\<lambda>_.
                  loadEbpf D L (conf_lib new) (conf_hook new) (conf_ifindex new) (conf_config new))
             else if conf_config cur \<noteq> conf_config new
             then st_bind (on_loader (li_unregister L (conf_lib cur) (conf_config cur))) (\<lambda>_.
                  on_loader (li_register L (conf_lib new) (conf_hook new) (conf_ifindex new) (conf_config new)))
             else st_ret ()))"

definition Daemon_update :: "daemon_env \<Rightarrow> ('l, 'j) loader_if \<Rightarrow> Configs \<Rightarrow> (unit, ('l, 'j) Daemon) st" where
  "Daemon_update D L config =
     st_bind (st_assert (de_build D) (\<lambda>s. d_loader s \<noteq> None)) (\<lambda>_.
     st_bind (st_get current_ebpf) (\<lambda>current.
     st_bind (if ebpfs config \<noteq> without_schedulers current then rebuild_chains D L (ebpfs config)
              else st_ret ()) (\<lambda>_.
     st_bind (st_each (\<lambda>(name, cfg).
         if map_of (ebpfs config) name = None then unloadEbpf D L (conf_lib cfg) else st_ret ())
       (without_schedulers current)) (\<lambda>_.
     st_bind (st_each (sync_service D L current) (with_schedulers (ebpfs config))) (\<lambda>_.
     st_mod (\<lambda>s. s\<lparr>current_ebpf := with_schedulers (ebpfs config)\<rparr>))))))"

section \<open>run, stop, status\<close>

definition Daemon_run :: "('l, 'j) Daemon \<Rightarrow> ('l, 'j) Daemon" where
  "Daemon_run s =
     (if running s then s
      else s\<lparr>running := True, producer_thread := (status_queue s \<noteq> None \<or> producer_thread s)\<rparr>)"

definition setStatusQueue :: "'j Queue option \<Rightarrow> ('l, 'j) Daemon \<Rightarrow> ('l, 'j) Daemon" where
  "setStatusQueue queue s = s\<lparr>status_queue := queue\<rparr>"

text \<open>The queue is stopped and released after the producer has been joined.\<close>

definition Daemon_stop :: "daemon_env \<Rightarrow> ('l, 'j) loader_if \<Rightarrow> (unit, ('l, 'j) Daemon) st" where
  "Daemon_stop D L =
     st_bind (st_get running) (\<lambda>on.
     if \<not> on then st_ret ()
     else
       st_bind (st_mod (\<lambda>s. s\<lparr>running := False\<rparr>)) (\<lambda>_.
       st_bind (st_get d_loader) (\<lambda>loader.
       st_bind (case loader of
           None \<Rightarrow> st_ret ()
         | Some l \<Rightarrow>
             st_bind (st_each (unloadEbpf D L) (li_all L l)) (\<lambda>_.
             st_mod (\<lambda>s. s\<lparr>current_ebpf := []\<rparr>))) (\<lambda>_.
       st_mod (\<lambda>s. s\<lparr>producer_thread := False, status_queue := None\<rparr>)))))"

text \<open>One turn of the producer over the services: their status goes into the queue unless it is full.\<close>

definition produce_one :: "('l, 'j) loader_if \<Rightarrow> ('j \<Rightarrow> bool) \<Rightarrow> 'l \<Rightarrow> 'j Queue option \<Rightarrow> string \<times> ConfigEbpf \<Rightarrow>
    'j Queue option option" where
  "produce_one L no_status l queue pair =
     (case li_get L l (conf_lib (snd pair)) of
        None \<Rightarrow> Some queue
      | Some status \<Rightarrow>
          if no_status status then Some queue
          else case queue of
            None \<Rightarrow> Some None
          | Some q \<Rightarrow> if queue_full q then Some queue else map_option Some (queue_push status q))"

fun produce_turn :: "('l, 'j) loader_if \<Rightarrow> ('j \<Rightarrow> bool) \<Rightarrow> 'l \<Rightarrow> 'j Queue option \<Rightarrow> EbpfMap \<Rightarrow> 'j Queue option option" where
  "produce_turn L no_status l queue [] = Some queue"
| "produce_turn L no_status l queue (pair # rest) =
     (case produce_one L no_status l queue pair of
        None \<Rightarrow> None | Some queue' \<Rightarrow> produce_turn L no_status l queue' rest)"

section \<open>What an update does to the loaded services\<close>

text \<open>The update as a function on the set of loaded libraries.\<close>

definition changed :: "ConfigEbpf \<Rightarrow> ConfigEbpf \<Rightarrow> bool" where
  "changed cur new \<longleftrightarrow>
     conf_lib cur \<noteq> conf_lib new \<or> conf_hook cur \<noteq> conf_hook new \<or> conf_ifindex cur \<noteq> conf_ifindex new"

fun sync_set :: "EbpfMap \<Rightarrow> string set \<Rightarrow> EbpfMap \<Rightarrow> string set" where
  "sync_set current S [] = S"
| "sync_set current S ((name, new) # rest) =
     sync_set current
       (case map_of current name of
          None \<Rightarrow> insert (conf_lib new) S
        | Some cur \<Rightarrow> if changed cur new then insert (conf_lib new) (S - {conf_lib cur}) else S) rest"

definition replaced_libs :: "EbpfMap \<Rightarrow> EbpfMap \<Rightarrow> string set" where
  "replaced_libs current new =
     {conf_lib c | n c c'. map_of current n = Some c \<and> (n, c') \<in> set new \<and> changed c c'}"

definition libs :: "EbpfMap \<Rightarrow> string set" where
  "libs m = conf_lib ` snd ` set m"

definition removed_libs :: "EbpfMap \<Rightarrow> EbpfMap \<Rightarrow> string set" where
  "removed_libs current new = libs (filter (\<lambda>(n, c). map_of new n = None) (without_schedulers current))"

text \<open>No name of the new configuration has the library that another name has in the old one.\<close>

definition libs_stay_apart :: "EbpfMap \<Rightarrow> EbpfMap \<Rightarrow> bool" where
  "libs_stay_apart current new \<longleftrightarrow>
     (\<forall>(n, c) \<in> set current. \<forall>(n', c') \<in> set new. n \<noteq> n' \<longrightarrow> conf_lib c \<noteq> conf_lib c')"

lemma stay_apartD:
  "libs_stay_apart current new \<Longrightarrow> (n, c) \<in> set current \<Longrightarrow> (n', c') \<in> set new \<Longrightarrow> n \<noteq> n' \<Longrightarrow>
   conf_lib c \<noteq> conf_lib c'"
  by (fastforce simp: libs_stay_apart_def)

lemma stay_apart_tl: "libs_stay_apart current (x # rest) \<Longrightarrow> libs_stay_apart current rest"
  by (fastforce simp: libs_stay_apart_def)

definition kept_loaded :: "EbpfMap \<Rightarrow> EbpfMap \<Rightarrow> string set \<Rightarrow> bool" where
  "kept_loaded current new S \<longleftrightarrow>
     (\<forall>(n, c') \<in> set new. \<forall>c. map_of current n = Some c \<longrightarrow> \<not> changed c c' \<longrightarrow> conf_lib c' \<in> S)"

lemma replaced_Cons:
  "replaced_libs current ((name, new) # rest) =
     (case map_of current name of Some cur \<Rightarrow> if changed cur new then {conf_lib cur} else {} | None \<Rightarrow> {}) \<union>
     replaced_libs current rest"
  by (auto simp: replaced_libs_def split: option.split)

lemma sync_set_eq:
  assumes "libs_stay_apart current new" "distinct (map fst new)" "kept_loaded current new S"
  shows "sync_set current S new = (S - replaced_libs current new) \<union> libs new"
  using assms
proof (induction current S new rule: sync_set.induct)
  case (1 current S)
  then show ?case by (simp add: replaced_libs_def libs_def)
next
  case (2 current S name new rest)
  let ?S = "case map_of current name of None \<Rightarrow> insert (conf_lib new) S
    | Some cur \<Rightarrow> if changed cur new then insert (conf_lib new) (S - {conf_lib cur}) else S"
  have rest: "libs_stay_apart current rest" "distinct (map fst rest)"
    using 2(2,3) by (auto dest: stay_apart_tl)
  have apart: "conf_lib c \<noteq> conf_lib c'" if "map_of current name = Some c" "(n, c') \<in> set rest" for n c c'
    using that 2(2,3) by (intro stay_apartD [OF 2(2) map_of_SomeD]) force+
  have kept: "kept_loaded current rest ?S"
    using 2(4) apart by (force simp: kept_loaded_def split: option.split)
  have new_free: "conf_lib new \<notin> replaced_libs current rest"
  proof
    assume "conf_lib new \<in> replaced_libs current rest"
    then obtain n c c' where n: "conf_lib c = conf_lib new" "map_of current n = Some c" "(n, c') \<in> set rest"
      by (auto simp: replaced_libs_def)
    then have "n \<noteq> name" using 2(3) by force
    with n stay_apartD [OF 2(2) map_of_SomeD [OF n(2)], of name new] show False by auto
  qed
  have "map_of current name = Some c \<Longrightarrow> \<not> changed c new \<Longrightarrow> conf_lib new \<in> S" for c
    using 2(4) by (auto simp: kept_loaded_def)
  with new_free show ?case
    unfolding sync_set.simps 2(1) [OF rest kept] replaced_Cons
    by (auto simp: libs_def split: option.splits if_splits)
qed

section \<open>The schedulers of a configuration\<close>

definition scheduler_entry :: "HookType \<times> int \<Rightarrow> string \<times> ConfigEbpf" where
  "scheduler_entry hi = (case hi of (h, i) \<Rightarrow> (scheduler_id h i, ConfigEbpf_new (scheduler_so h i) [] h i 0))"

lemma ConfigEbpf_new_simps [simp]:
  "conf_lib (ConfigEbpf_new l c h i n) = l" "conf_config (ConfigEbpf_new l c h i n) = c"
  "conf_hook (ConfigEbpf_new l c h i n) = h" "conf_ifindex (ConfigEbpf_new l c h i n) = i"
  by (simp_all add: ConfigEbpf_new_def conf_setters)

lemma add_scheduler_map:
  assumes "om_ok m"
  shows "om_ok (add_scheduler m hi)"
    "map_of (add_scheduler m hi) n =
      (if map_of m n = None \<and> n = fst (scheduler_entry hi) then Some (snd (scheduler_entry hi)) else map_of m n)"
  using assms by (auto simp: add_scheduler_def scheduler_entry_def Let_def om_simps split: prod.split)

lemma add_schedulers_map:
  assumes "om_ok m"
  shows "om_ok (foldl add_scheduler m his) \<and>
    map_of (foldl add_scheduler m his) n =
      (if map_of m n \<noteq> None then map_of m n else map_of (map scheduler_entry his) n)"
  using assms
proof (induction his arbitrary: m)
  case (Cons hi his)
  show ?case
    using Cons.IH [OF add_scheduler_map(1) [OF Cons.prems], of hi] Cons.prems
    by (auto simp: add_scheduler_map(2) prod.split_sel)
qed simp

lemma pairs_of: "set (needed_scheduler_pairs m) = (\<lambda>(n, c). (conf_hook c, conf_ifindex c)) ` set m"
proof -
  have "set (map fst (foldl (\<lambda>m (k, v). om_upd k v m) acc ps)) = set (map fst acc) \<union> set (map fst ps)"
    for acc ps :: "((HookType \<times> int) \<times> unit) list"
    by (induction ps arbitrary: acc) (auto simp: om_upd_keys simp del: set_map)
  from this [of "[]"] show ?thesis
    by (force simp: needed_scheduler_pairs_def om_of_def image_iff split_beta)
qed

lemma with_schedulers_ok: "om_ok m \<Longrightarrow> om_ok (with_schedulers m)"
  by (simp add: with_schedulers_def add_schedulers_map)

lemma with_schedulers_keeps: "om_ok m \<Longrightarrow> map_of m n = Some c \<Longrightarrow> map_of (with_schedulers m) n = Some c"
  by (simp add: with_schedulers_def add_schedulers_map)

lemma with_schedulers_new:
  assumes "om_ok m" "map_of (with_schedulers m) n = Some c" "map_of m n = None"
  shows "n = scheduler_id (conf_hook c) (conf_ifindex c) \<and> conf_lib c = scheduler_so (conf_hook c) (conf_ifindex c)"
proof -
  have "map_of (map scheduler_entry (needed_scheduler_pairs m)) n = Some c"
    using assms by (simp add: with_schedulers_def add_schedulers_map)
  then show ?thesis
    by (auto dest!: map_of_SomeD simp: scheduler_entry_def)
qed

lemma scheduler_present:
  assumes "om_ok m" "(n, c) \<in> set m"
  shows "map_of (with_schedulers m) (scheduler_id (conf_hook c) (conf_ifindex c)) \<noteq> None"
proof -
  have "(conf_hook c, conf_ifindex c) \<in> set (needed_scheduler_pairs m)"
    using assms(2) by (force simp: pairs_of)
  then have "map_of (map scheduler_entry (needed_scheduler_pairs m)) (scheduler_id (conf_hook c) (conf_ifindex c)) \<noteq> None"
    unfolding map_of_eq_None_iff by (force simp: scheduler_entry_def image_iff)
  then show ?thesis
    using assms(1) by (simp add: with_schedulers_def add_schedulers_map)
qed

lemma kept_after_removal:
  assumes "om_ok new0" "libs_stay_apart current (with_schedulers new0)"
    and "libs current \<subseteq> S" "om_ok current"
  shows "kept_loaded current (with_schedulers new0) (S - removed_libs current new0)"
proof -
  have "conf_lib c' \<in> S - removed_libs current new0"
    if n: "(n, c') \<in> set (with_schedulers new0)" "map_of current n = Some c" "\<not> changed c c'" for n c c'
  proof -
    have lib: "conf_lib c' = conf_lib c" using n(3) by (simp add: changed_def)
    have "conf_lib c \<in> S" using assms(3) map_of_SomeD [OF n(2)] by (force simp: libs_def)
    moreover have "conf_lib c' \<notin> removed_libs current new0"
    proof
      assume "conf_lib c' \<in> removed_libs current new0"
      then obtain k d where d: "(k, d) \<in> set current" "k \<noteq> scheduler_id (conf_hook d) (conf_ifindex d)"
        "map_of new0 k = None" "conf_lib d = conf_lib c'"
        by (auto simp: removed_libs_def without_schedulers_def libs_def)
      then have k: "k = n" using stay_apartD [OF assms(2) d(1) n(1)] by blast
      have "map_of current k = Some d"
        using d(1) om_ok_distinct [OF assms(4)] by simp
      then have "d = c" using n(2) k by simp
      moreover have "map_of (with_schedulers new0) n = Some c'"
        using n(1) om_ok_distinct [OF with_schedulers_ok [OF assms(1)]] by simp
      ultimately show False
        using with_schedulers_new [OF assms(1)] d(2,3) n(3) k by (auto simp: changed_def)
    qed
    ultimately show ?thesis using lib by simp
  qed
  then show ?thesis by (auto simp: kept_loaded_def)
qed

section \<open>The update over any loader that keeps its contract\<close>

definition d_good :: "('l \<Rightarrow> bool) \<Rightarrow> ('l, 'j) Daemon \<Rightarrow> bool" where
  "d_good good s \<longleftrightarrow> (case d_loader s of None \<Rightarrow> False | Some l \<Rightarrow> good l)"

definition d_loaded :: "('l \<Rightarrow> string set) \<Rightarrow> ('l, 'j) Daemon \<Rightarrow> string set" where
  "d_loaded loaded s = (case d_loader s of None \<Rightarrow> {} | Some l \<Rightarrow> loaded l)"

text \<open>A call that leaves the daemon good, and changes the loaded services by \<open>f\<close> when it returns.\<close>

definition tracks :: "('l \<Rightarrow> bool) \<Rightarrow> ('l \<Rightarrow> string set) \<Rightarrow> (string set \<Rightarrow> string set) \<Rightarrow>
    ('a, ('l, 'j) Daemon) st \<Rightarrow> bool" where
  "tracks good loaded f m \<longleftrightarrow> (\<forall>s r s'. d_good good s \<longrightarrow> m s = (r, s') \<longrightarrow>
     d_good good s' \<and> (is_ok r \<longrightarrow> d_loaded loaded s' = f (d_loaded loaded s)))"

lemma tracksD:
  "tracks good loaded f m \<Longrightarrow> d_good good s \<Longrightarrow> m s = (r, s') \<Longrightarrow>
   d_good good s' \<and> (is_ok r \<longrightarrow> d_loaded loaded s' = f (d_loaded loaded s))"
  by (auto simp: tracks_def)

named_theorems tracking \<open>how calls change the set of loaded services\<close>

lemma tracks_basic [tracking]:
  "tracks good loaded id (st_ret x)" "tracks good loaded id (st_get g)" "tracks good loaded id (st_assert b P)"
  "tracks good loaded id (st_res r')"
  by (simp_all add: tracks_def st_simps)

lemma tracks_mod: "(\<And>s. d_loader (g s) = d_loader s) \<Longrightarrow> tracks good loaded id (st_mod g)"
  by (simp add: tracks_def st_simps d_good_def d_loaded_def)

lemma tracks_bind:
  assumes m: "tracks good loaded f m" and k: "\<And>x. tracks good loaded g (k x)"
  shows "tracks good loaded (\<lambda>S. g (f S)) (st_bind m k)"
  unfolding tracks_def
proof (intro allI impI)
  fix s r s'
  assume s: "d_good good s" "st_bind m k s = (r, s')"
  from s(2) show "d_good good s' \<and> (is_ok r \<longrightarrow> d_loaded loaded s' = g (f (d_loaded loaded s)))"
  proof (cases rule: st_bind_cases)
    case (1 e)
    with tracksD [OF m s(1)] show ?thesis by fastforce
  next
    case (2 x s1)
    from tracksD [OF m s(1) 2(1)] have s1: "d_good good s1" "d_loaded loaded s1 = f (d_loaded loaded s)" by auto
    from tracksD [OF k s1(1) 2(2)] s1(2) show ?thesis by auto
  qed
qed

lemma tracks_bind_id [tracking]:
  "tracks good loaded id m \<Longrightarrow> (\<And>x. tracks good loaded g (k x)) \<Longrightarrow> tracks good loaded g (st_bind m k)"
  using tracks_bind [of good loaded id m g k] by simp

lemma tracks_if [tracking]:
  "tracks good loaded f m \<Longrightarrow> tracks good loaded f m' \<Longrightarrow> tracks good loaded f (if b then m else m')"
  by simp

lemma tracks_eq: "tracks good loaded f m \<Longrightarrow> (\<And>S. f S = g S) \<Longrightarrow> tracks good loaded g m"
  by (simp add: tracks_def)

lemma tracks_bind_ret: "tracks good loaded g m \<Longrightarrow> tracks good loaded g (st_bind m (\<lambda>_. st_ret x))"
  using tracks_bind [OF _ tracks_basic(1)] by (fastforce simp: id_def)

lemma tracks_each_id:
  "(\<And>x. tracks good loaded id (g x)) \<Longrightarrow> tracks good loaded id (st_each g xs)"
  by (induction xs) (auto intro: tracking)

context loader_contract
begin

lemma on_loader_tracks:
  assumes "\<And>l r l'. good l \<Longrightarrow> m l = (r, l') \<Longrightarrow> good l' \<and> (is_ok r \<longrightarrow> loaded l' = f (loaded l))"
  shows "tracks good loaded f (on_loader m)"
  using assms
  by (fastforce simp: tracks_def d_good_def d_loaded_def on_loader_def split: option.splits prod.splits)

lemma load_tracks: "tracks good loaded (insert p) (loadEbpf D L p h i c)"
proof -
  have "tracks good loaded (insert p) (on_loader (li_load L p h i c))"
    by (rule on_loader_tracks) (metis is_ok.elims(2) load_good load_loads)
  then show ?thesis
    unfolding loadEbpf_def by (intro tracking tracks_bind_ret)
qed

lemma unload_tracks: "tracks good loaded (\<lambda>S. S - {p}) (unloadEbpf D L p)"
proof -
  have "tracks good loaded (\<lambda>S. S - {p}) (on_loader (li_unload L p))"
    by (rule on_loader_tracks) (metis is_ok.elims(2) unload_good unload_unloads)
  then show ?thesis
    unfolding unloadEbpf_def by (intro tracking tracks_bind_ret)
qed

lemma keep_tracks:
  "tracks good loaded id (on_loader (li_register L p h i c))"
  "tracks good loaded id (on_loader (li_unregister L p c))"
  "tracks good loaded id (on_loader (li_allocate L h i))"
  "tracks good loaded id (on_loader (li_chain L h ns))"
  by (rule on_loader_tracks, auto dest: register_keeps unregister_keeps allocate_keeps chain_keeps)+

lemma rebuild_tracks: "tracks good loaded id (rebuild_chains D L new)"
  unfolding rebuild_chains_def
  by (intro tracking tracks_each_id) (auto simp: split_beta intro!: tracking tracks_each_id keep_tracks)

lemma sync_service_Some:
  "map_of current name = Some cur \<Longrightarrow> sync_service D L current (name, new) =
     (if changed cur new
      then st_bind (unloadEbpf D L (conf_lib cur)) (\<lambda>_.
           loadEbpf D L (conf_lib new) (conf_hook new) (conf_ifindex new) (conf_config new))
      else if conf_config cur \<noteq> conf_config new
      then st_bind (on_loader (li_unregister L (conf_lib cur) (conf_config cur))) (\<lambda>_.
           on_loader (li_register L (conf_lib new) (conf_hook new) (conf_ifindex new) (conf_config new)))
      else st_ret ())"
  by (simp add: sync_service_def changed_def)

lemma sync_tracks:
  "tracks good loaded (\<lambda>S. sync_set current S [(name, new)]) (sync_service D L current (name, new))"
proof (cases "map_of current name")
  case None
  then show ?thesis using load_tracks by (simp add: sync_service_def)
next
  case (Some cur)
  show ?thesis
  proof (cases "changed cur new")
    case True
    with Some tracks_bind [OF unload_tracks load_tracks] show ?thesis
      by (simp add: sync_service_Some)
  next
    case False
    then have "tracks good loaded id (sync_service D L current (name, new))"
      using Some by (auto simp: sync_service_Some intro!: tracking keep_tracks)
    with Some False show ?thesis by (simp add: id_def)
  qed
qed

lemma sync_set_Cons: "sync_set current S (x # rest) = sync_set current (sync_set current S [x]) rest"
  by (cases x) simp

lemma sync_all_tracks:
  "tracks good loaded (\<lambda>S. sync_set current S new) (st_each (sync_service D L current) new)"
proof (induction new)
  case Nil
  then show ?case using tracks_basic(1) by (simp add: id_def)
next
  case (Cons x new)
  obtain name c where x: "x = (name, c)" by fastforce
  show ?case
    using tracks_bind [OF sync_tracks [of current name c D] Cons.IH]
    unfolding sync_set_Cons [of _ _ x] x by simp
qed

lemma unload_removed_tracks:
  "tracks good loaded (\<lambda>S. S - libs (filter (\<lambda>(n, c). map_of new n = None) ps))
     (st_each (\<lambda>(name, cfg). if map_of new name = None then unloadEbpf D L (conf_lib cfg) else st_ret ()) ps)"
proof (induction ps)
  case Nil
  then show ?case using tracks_basic(1) by (simp add: id_def libs_def)
next
  case (Cons x ps)
  obtain n c where x: "x = (n, c)" by fastforce
  show ?case
  proof (cases "map_of new n = None")
    case True
    let ?R = "libs (filter (\<lambda>(n, c). map_of new n = None) ps)"
    have "tracks good loaded (\<lambda>S. S - {conf_lib c} - ?R)
        (st_each (\<lambda>(name, cfg). if map_of new name = None then unloadEbpf D L (conf_lib cfg) else st_ret ()) (x # ps))"
      using tracks_bind [OF unload_tracks [of "conf_lib c" D] Cons.IH] True by (simp add: x)
    moreover have "libs (filter (\<lambda>(n, c). map_of new n = None) (x # ps)) = insert (conf_lib c) ?R"
      using True by (simp add: x libs_def)
    ultimately show ?thesis
      by (auto intro: tracks_eq)
  next
    case False
    then obtain d where "map_of new n = Some d" by blast
    with tracks_bind [OF tracks_basic(1) Cons.IH] show ?thesis
      by (simp add: x id_def)
  qed
qed

lemma update_tracks:
  assumes "d_good good s" and "Daemon_update D L config s = (r, s')"
  shows "d_good good s' \<and> (is_ok r \<longrightarrow>
     d_loaded loaded s' = sync_set (current_ebpf s)
       (d_loaded loaded s - removed_libs (current_ebpf s) (ebpfs config)) (with_schedulers (ebpfs config)))"
proof -
  let ?c = "current_ebpf s"
  have "tracks good loaded (\<lambda>S. sync_set ?c (S - removed_libs ?c (ebpfs config)) (with_schedulers (ebpfs config)))
      (st_bind (if ebpfs config \<noteq> without_schedulers ?c then rebuild_chains D L (ebpfs config) else st_ret ()) (\<lambda>_.
       st_bind (st_each (\<lambda>(name, cfg).
         if map_of (ebpfs config) name = None then unloadEbpf D L (conf_lib cfg) else st_ret ())
         (without_schedulers ?c)) (\<lambda>_.
       st_bind (st_each (sync_service D L ?c) (with_schedulers (ebpfs config))) (\<lambda>_.
       st_mod (\<lambda>s. s\<lparr>current_ebpf := with_schedulers (ebpfs config)\<rparr>)))))" (is "tracks _ _ ?f ?m")
  proof -
    have "tracks good loaded (\<lambda>S. id (sync_set ?c S (with_schedulers (ebpfs config))))
       (st_bind (st_each (sync_service D L ?c) (with_schedulers (ebpfs config))) (\<lambda>_.
       st_mod (\<lambda>s. s\<lparr>current_ebpf := with_schedulers (ebpfs config)\<rparr>)))"
      by (rule tracks_bind [OF sync_all_tracks]) (rule tracks_mod, simp)
    from tracks_bind [OF unload_removed_tracks [of "ebpfs config" "without_schedulers ?c" D] this]
    show ?thesis
      by (intro tracks_bind_id [OF tracks_if [OF rebuild_tracks tracks_basic(1)]]) (simp add: removed_libs_def)
  qed
  moreover have "?m s = (r, s')"
  proof -
    have "st_assert (de_build D) (\<lambda>s. d_loader s \<noteq> None) s = (Inr (), s)"
      using assms(1) by (auto simp: st_assert_def d_good_def split: option.splits)
    moreover have "st_get current_ebpf s = (Inr ?c, s)" by (simp add: st_get_def)
    ultimately show ?thesis
      using assms(2) unfolding Daemon_update_def by (simp only: st_bind_run(1))
  qed
  ultimately show ?thesis
    using assms(1) by (auto dest: tracksD)
qed

end

section \<open>What the daemon remembers\<close>

lemma keeps_on_loader [keeps]: "st_keeps current_ebpf (on_loader m)"
  by (auto simp: st_keeps_def on_loader_def split: option.split prod.split)

lemma keeps_load [keeps]: "st_keeps current_ebpf (loadEbpf D L p h i c)"
  unfolding loadEbpf_def by (intro keeps)

lemma keeps_unload [keeps]: "st_keeps current_ebpf (unloadEbpf D L p)"
  unfolding unloadEbpf_def by (intro keeps)

lemma keeps_rebuild [keeps]: "st_keeps current_ebpf (rebuild_chains D L new)"
  unfolding rebuild_chains_def by (intro keeps keeps_each)

lemma keeps_sync [keeps]: "st_keeps current_ebpf (sync_service D L cur x)"
  unfolding sync_service_def by (intro keeps)

lemma update_split:
  assumes "Daemon_update D L config s = (r, s')"
  shows "if is_ok r then current_ebpf s' = with_schedulers (ebpfs config) else current_ebpf s' = current_ebpf s"
proof -
  define body where "body = st_bind (st_assert (de_build D) (\<lambda>s. d_loader s \<noteq> None)) (\<lambda>_.
     st_bind (if ebpfs config \<noteq> without_schedulers (current_ebpf s) then rebuild_chains D L (ebpfs config)
              else st_ret ()) (\<lambda>_.
     st_bind (st_each (\<lambda>(name, cfg).
         if map_of (ebpfs config) name = None then unloadEbpf D L (conf_lib cfg) else st_ret ())
       (without_schedulers (current_ebpf s))) (\<lambda>_.
     st_each (sync_service D L (current_ebpf s)) (with_schedulers (ebpfs config)))))"
  have "st_keeps current_ebpf body"
    unfolding body_def by (intro keeps keeps_each)
  moreover have "Daemon_update D L config s =
      st_bind body (\<lambda>_. st_mod (\<lambda>s. s\<lparr>current_ebpf := with_schedulers (ebpfs config)\<rparr>)) s"
    unfolding Daemon_update_def body_def
    by (simp add: st_bind_assoc) (auto simp: st_bind_def [of "st_assert _ _"] st_bind_def [of "st_get _"]
        st_assert_def st_get_def split: sum.splits)
  ultimately have keep: "st_keeps current_ebpf body" and
    run: "st_bind body (\<lambda>_. st_mod (\<lambda>s. s\<lparr>current_ebpf := with_schedulers (ebpfs config)\<rparr>)) s = (r, s')"
    using assms by simp_all
  from run show ?thesis
    by (cases rule: st_bind_cases) (auto simp: st_mod_def dest: st_keepsD [OF keep])
qed

lemma update_sets_current:
  "Daemon_update D L config s = (Inr x, s') \<Longrightarrow> current_ebpf s' = with_schedulers (ebpfs config)"
  using update_split by fastforce

section \<open>Properties over the loader\<close>

lemma reconciled:
  assumes "d_good services_live s" and "om_ok (ebpfs config)" and "om_ok (current_ebpf s)"
    and "libs (current_ebpf s) \<subseteq> d_loaded loaded_paths s"
    and "libs_stay_apart (current_ebpf s) (with_schedulers (ebpfs config))"
    and "Daemon_update D (the_loader E) config s = (Inr (), s')"
  shows "d_loaded loaded_paths s' =
      (d_loaded loaded_paths s - removed_libs (current_ebpf s) (ebpfs config)
         - replaced_libs (current_ebpf s) (with_schedulers (ebpfs config)))
      \<union> libs (with_schedulers (ebpfs config)) \<and>
    current_ebpf s' = with_schedulers (ebpfs config) \<and>
    d_good services_live s' \<and> libs (current_ebpf s') \<subseteq> d_loaded loaded_paths s'"
proof -
  let ?new = "with_schedulers (ebpfs config)"
  have kept: "kept_loaded (current_ebpf s) ?new (d_loaded loaded_paths s - removed_libs (current_ebpf s) (ebpfs config))"
    using assms by (intro kept_after_removal)
  have dist: "distinct (map fst ?new)"
    using assms(2) by (intro om_ok_distinct with_schedulers_ok)
  from ld.update_tracks [OF assms(1,6)] sync_set_eq [OF assms(5) dist kept]
  have "d_good services_live s'" "d_loaded loaded_paths s' =
      (d_loaded loaded_paths s - removed_libs (current_ebpf s) (ebpfs config) - replaced_libs (current_ebpf s) ?new)
      \<union> libs ?new" by simp_all
  moreover have "current_ebpf s' = ?new"
    using update_sets_current [OF assms(6)] .
  ultimately show ?thesis by auto
qed

text \<open>
  Claim C5. Reconciliation. Let the current services all be loaded, and let no name of the new
  configuration use the library that another name has now. When \<^verbatim>\<open>update\<close> returns, every service of
  the new configuration and a scheduler for each of its (hook, interface) pairs is loaded, those of
  removed entries and the old libraries of changed entries are not (unless the new configuration asks for them), no other library was loaded or
  unloaded, the daemon remembers exactly the new configuration with its schedulers, and again all
  remembered services are loaded.
\<close>

theorem update_reconciles_services:
  assumes "d_good services_live s" and "om_ok (ebpfs config)" and "om_ok (current_ebpf s)"
    and "libs (current_ebpf s) \<subseteq> d_loaded loaded_paths s"
    and "libs_stay_apart (current_ebpf s) (with_schedulers (ebpfs config))"
    and "Daemon_update D (the_loader E) config s = (Inr (), s')"
  shows "d_loaded loaded_paths s' =
      (d_loaded loaded_paths s - removed_libs (current_ebpf s) (ebpfs config)
         - replaced_libs (current_ebpf s) (with_schedulers (ebpfs config)))
      \<union> libs (with_schedulers (ebpfs config)) \<and>
    current_ebpf s' = with_schedulers (ebpfs config) \<and>
    d_good services_live s' \<and> libs (current_ebpf s') \<subseteq> d_loaded loaded_paths s'"
  by (rule reconciled [OF assms])

text \<open>A configuration with one service, and a daemon whose loader has nothing loaded.\<close>

definition demo_config :: Configs where
  "demo_config = setEbpfs [(''acl'', ConfigEbpf_new ''acl.so'' ''acl.json'' TC 2 0)] Configs_default"

definition demo_daemon_env :: daemon_env where
  "demo_daemon_env = \<lparr>de_build = build.Release, de_proj = ''hebpf'', de_sort = sort_key fst, de_walk = id\<rparr>"

definition demo_daemon :: "((nat, unit) Loader, unit) Daemon" where
  "demo_daemon = Daemon_new (Some demo_loader)"

lemma demo_facts:
  "d_good services_live demo_daemon" "om_ok (ebpfs demo_config)" "om_ok (current_ebpf demo_daemon)"
  "d_loaded loaded_paths demo_daemon = {}" "current_ebpf demo_daemon = []"
  by (simp_all add: demo_daemon_def Daemon_new_def d_good_def d_loaded_def demo_loader_good demo_config_def
      setEbpfs_def om_ok_def)

lemma demo_update_ok:
  "fst (Daemon_update demo_daemon_env (the_loader demo_env) demo_config demo_daemon) = Inr ()"
  by code_simp

lemma demo_scheduled: "libs (with_schedulers (ebpfs demo_config)) = {''acl.so'', scheduler_so TC 2}"
  by code_simp

theorem update_reconciles_services_witness:
  "d_loaded loaded_paths (snd (Daemon_update demo_daemon_env (the_loader demo_env) demo_config demo_daemon)) =
     {''acl.so'', scheduler_so TC 2}"
proof -
  obtain s' where run: "Daemon_update demo_daemon_env (the_loader demo_env) demo_config demo_daemon = (Inr (), s')"
    using demo_update_ok by (metis prod.collapse)
  have "libs (current_ebpf demo_daemon) \<subseteq> d_loaded loaded_paths demo_daemon"
    "libs_stay_apart (current_ebpf demo_daemon) (with_schedulers (ebpfs demo_config))"
    by (simp_all add: demo_facts libs_def libs_stay_apart_def)
  from update_reconciles_services [OF demo_facts(1-3) this run]
  show ?thesis by (simp add: run demo_facts demo_scheduled)
qed

text \<open>
  Claim C40. A scheduler that is no longer needed is never unloaded: it is skipped when the removed
  entries are unloaded, and since the daemon then forgets it, no later update can unload it either.
\<close>

theorem stale_scheduler_stays_loaded:
  assumes "d_good services_live s" and "om_ok (ebpfs config)" and "om_ok (current_ebpf s)"
    and "libs (current_ebpf s) \<subseteq> d_loaded loaded_paths s"
    and "libs_stay_apart (current_ebpf s) (with_schedulers (ebpfs config))"
    and "libs_stay_apart (current_ebpf s) (current_ebpf s)"
    and "Daemon_update D (the_loader E) config s = (Inr (), s')"
    and "map_of (current_ebpf s) (scheduler_id h i) = Some c" "conf_hook c = h" "conf_ifindex c = i"
    and "map_of (with_schedulers (ebpfs config)) (scheduler_id h i) = None"
  shows "conf_lib c \<in> d_loaded loaded_paths s' \<and> map_of (current_ebpf s') (scheduler_id h i) = None"
proof -
  let ?n = "scheduler_id h i" and ?new = "with_schedulers (ebpfs config)"
  have mem: "(?n, c) \<in> set (current_ebpf s)" using assms(8) by (rule map_of_SomeD)
  have eqn: "k = ?n" if "(k, d) \<in> set (current_ebpf s)" "conf_lib d = conf_lib c" for k d
    using stay_apartD [OF assms(6) that(1) mem] that(2) by blast
  have eqc: "d = c" if "(?n, d) \<in> set (current_ebpf s)" for d
    using that assms(8) om_ok_distinct [OF assms(3)] by (metis map_of_is_SomeI option.inject)
  have "conf_lib c \<notin> removed_libs (current_ebpf s) (ebpfs config)"
    using eqn eqc assms(9,10) by (auto simp: removed_libs_def libs_def without_schedulers_def)
  moreover have "conf_lib c \<notin> replaced_libs (current_ebpf s) ?new"
  proof
    assume "conf_lib c \<in> replaced_libs (current_ebpf s) ?new"
    then obtain k d d' where "map_of (current_ebpf s) k = Some d" "conf_lib d = conf_lib c" "(k, d') \<in> set ?new"
      by (auto simp: replaced_libs_def)
    moreover have "?n \<notin> fst ` set ?new" using assms(11) by (simp add: map_of_eq_None_iff)
    ultimately show False using eqn [OF map_of_SomeD] by force
  qed
  moreover have "conf_lib c \<in> d_loaded loaded_paths s"
    using assms(4) mem by (force simp: libs_def)
  moreover note assms(11)
  moreover have kept: "kept_loaded (current_ebpf s) ?new (d_loaded loaded_paths s - removed_libs (current_ebpf s) (ebpfs config))"
    using assms by (intro kept_after_removal)
  moreover have dist: "distinct (map fst ?new)"
    using assms(2) by (intro om_ok_distinct with_schedulers_ok)
  ultimately show ?thesis
    using ld.update_tracks [OF assms(1,7)] sync_set_eq [OF assms(5) dist kept] update_sets_current [OF assms(7)]
    by simp
qed

text \<open>The daemon after its first update, and the update to an empty list of services.\<close>

definition demo_daemon_1 :: "((nat, unit) Loader, unit) Daemon" where
  "demo_daemon_1 = snd (Daemon_update demo_daemon_env (the_loader demo_env) demo_config demo_daemon)"

definition no_services :: Configs where
  "no_services = setEbpfs [] Configs_default"

lemma demo_daemon_1_facts:
  "current_ebpf demo_daemon_1 =
     [(''acl'', ConfigEbpf_new ''acl.so'' ''acl.json'' TC 2 0),
      (''scheduler;TC_2'', ConfigEbpf_new (scheduler_so TC 2) [] TC 2 0)]"
  "om_ok (current_ebpf demo_daemon_1)" "d_good services_live demo_daemon_1"
  "d_loaded loaded_paths demo_daemon_1 = {''acl.so'', scheduler_so TC 2}"
  "running demo_daemon_1 = False"
  by code_simp+

lemma demo_update_1:
  "fst (Daemon_update demo_daemon_env (the_loader demo_env) no_services demo_daemon_1) = Inr ()"
  "with_schedulers (ebpfs no_services) = []" "scheduler_so TC 2 \<noteq> ''acl.so''"
  by code_simp+

theorem stale_scheduler_stays_loaded_witness:
  "scheduler_so TC 2 \<in> d_loaded loaded_paths
     (snd (Daemon_update demo_daemon_env (the_loader demo_env) no_services demo_daemon_1))"
proof -
  obtain s' where run: "Daemon_update demo_daemon_env (the_loader demo_env) no_services demo_daemon_1 = (Inr (), s')"
    using demo_update_1(1) by (metis prod.collapse)
  have none: "om_ok (ebpfs no_services)" by (simp add: no_services_def setEbpfs_def)
  have id: "scheduler_id TC 2 = ''scheduler;TC_2''" by code_simp
  show ?thesis
    using stale_scheduler_stays_loaded [OF demo_daemon_1_facts(3) none demo_daemon_1_facts(2) _ _ _ run,
        of TC 2 "ConfigEbpf_new (scheduler_so TC 2) [] TC 2 0"]
    by (simp add: demo_daemon_1_facts(1,4) demo_update_1(2,3) demo_update_1(3) [symmetric] run id libs_def
        libs_stay_apart_def)
qed

text \<open>
  An update that ends with an exception (a library that cannot be opened, say) leaves the
  daemon's picture of the current services as it was, though part of the services may have been
  loaded or unloaded by then; an update that returns replaces it.
\<close>

theorem failed_update_forgets_nothing:
  "current_ebpf (snd (Daemon_update D L config s)) =
     (if is_ok (fst (Daemon_update D L config s)) then with_schedulers (ebpfs config) else current_ebpf s)"
  using update_split [of D L config s] by (auto simp: prod_eq_iff)

text \<open>
  Claim C39. Two services cannot exchange their libraries: the daemon unloads the first one's old
  library, finds the other already loaded, and then unloads that one as the second one's old library.
  After the update only one of the two libraries is loaded, while the configuration asks for both.
\<close>

definition swap_config :: "string \<Rightarrow> string \<Rightarrow> Configs" where
  "swap_config x y = setEbpfs [(''a'', ConfigEbpf_new x [] TC 2 0), (''b'', ConfigEbpf_new y [] TC 2 1)] Configs_default"


lemma map_of_filter_ok:
  "om_ok m \<Longrightarrow> map_of (filter P m) n = (case map_of m n of None \<Rightarrow> None | Some c \<Rightarrow> if P (n, c) then Some c else None)"
  by (induction m) (auto simp: om_ok_def map_of_eq_None_iff split: option.split)

lemma om_ok_filter: "om_ok m \<Longrightarrow> om_ok (filter P m)"
  unfolding om_ok_def sorted_wrt_map by (rule sorted_wrt_filter)

text \<open>
  The schedulers the daemon adds to a configuration: there is an entry for the scheduler of
  every service's hook and interface, every added entry is the scheduler of some service, and taking
  the schedulers out again gives the configuration back, so that the comparison with the next
  configuration is about what the user wrote.
\<close>

theorem schedulers_of_a_configuration:
  assumes "om_ok m" and "\<forall>(n, c) \<in> set m. n \<noteq> scheduler_id (conf_hook c) (conf_ifindex c)"
  shows "without_schedulers (with_schedulers m) = m \<and>
    (\<forall>(n, c) \<in> set m. map_of (with_schedulers m) (scheduler_id (conf_hook c) (conf_ifindex c)) \<noteq> None) \<and>
    (\<forall>n. map_of m n = None \<longrightarrow> map_of (with_schedulers m) n \<noteq> None \<longrightarrow>
       (\<exists>(k, c) \<in> set m. n = scheduler_id (conf_hook c) (conf_ifindex c)))"
proof (intro conjI)
  let ?P = "\<lambda>(n, c). n \<noteq> scheduler_id (conf_hook c) (conf_ifindex c)"
  have "map_of (filter ?P (with_schedulers m)) n = map_of m n" for n
  proof (cases "map_of m n")
    case None
    then show ?thesis
      using with_schedulers_new [OF assms(1) _ None]
      by (auto simp: map_of_filter_ok with_schedulers_ok assms(1) split: option.split)
  next
    case (Some c)
    then show ?thesis
      using assms(2) map_of_SomeD [OF Some]
      by (auto simp: map_of_filter_ok with_schedulers_ok assms(1) with_schedulers_keeps [OF assms(1) Some])
  qed
  then show "without_schedulers (with_schedulers m) = m"
    unfolding without_schedulers_def
    by (intro om_eqI om_ok_filter with_schedulers_ok assms(1)) (simp add: fun_eq_iff)
  show "\<forall>(n, c) \<in> set m. map_of (with_schedulers m) (scheduler_id (conf_hook c) (conf_ifindex c)) \<noteq> None"
    using scheduler_present [OF assms(1)] by blast
  show "\<forall>n. map_of m n = None \<longrightarrow> map_of (with_schedulers m) n \<noteq> None \<longrightarrow>
       (\<exists>(k, c) \<in> set m. n = scheduler_id (conf_hook c) (conf_ifindex c))"
  proof (intro allI impI)
    fix n
    assume "map_of m n = None" "map_of (with_schedulers m) n \<noteq> None"
    then have "map_of (map scheduler_entry (needed_scheduler_pairs m)) n \<noteq> None"
      using assms(1) by (simp add: with_schedulers_def add_schedulers_map)
    then show "\<exists>(k, c) \<in> set m. n = scheduler_id (conf_hook c) (conf_ifindex c)"
      by (auto simp: map_of_eq_None_iff scheduler_entry_def pairs_of image_iff split_beta)
  qed
qed

theorem schedulers_of_a_configuration_witness:
  "without_schedulers (with_schedulers (ebpfs demo_config)) = ebpfs demo_config"
proof -
  have "\<forall>(n, c) \<in> set (ebpfs demo_config). n \<noteq> scheduler_id (conf_hook c) (conf_ifindex c)"
    by (simp add: demo_config_def setEbpfs_def scheduler_id_def)
  from schedulers_of_a_configuration [OF demo_facts(2) this] show ?thesis by blast
qed

section \<open>Stopping\<close>

lemma stop_split:
  assumes "d_good good s" "running s" "Daemon_stop D L s = (Inr (), s')"
  obtains l s1 where "d_loader s = Some l" "good l"
    "st_each (unloadEbpf D L) (li_all L l) (s\<lparr>running := False\<rparr>) = (Inr (), s1)"
    "s' = s1\<lparr>current_ebpf := [], producer_thread := False, status_queue := None\<rparr>"
proof -
  obtain l where "d_loader s = Some l" "good l"
    using assms(1) by (auto simp: d_good_def split: option.splits)
  with assms(2,3) show ?thesis
    by (auto simp: Daemon_stop_def st_simps split: prod.splits sum.splits intro: that)
qed

context loader_contract
begin

lemma unload_all_tracks: "tracks good loaded (\<lambda>S. S - set ps) (st_each (unloadEbpf D L) ps)"
proof (induction ps)
  case Nil
  then show ?case using tracks_basic(1) by (simp add: id_def)
next
  case (Cons p ps)
  from tracks_bind [OF unload_tracks [of p D] Cons.IH] show ?case
    by (auto intro: tracks_eq)
qed

lemma stop_unloads_all:
  assumes "d_good good s" "running s" "Daemon_stop D L s = (Inr (), s')"
  shows "d_good good s' \<and> d_loaded loaded s' = {} \<and> current_ebpf s' = [] \<and> \<not> running s' \<and>
    status_queue s' = None \<and> \<not> producer_thread s'"
proof -
  obtain l s1 where l: "d_loader s = Some l" "good l"
    and s1: "st_each (unloadEbpf D L) (li_all L l) (s\<lparr>running := False\<rparr>) = (Inr (), s1)"
    and s': "s' = s1\<lparr>current_ebpf := [], producer_thread := False, status_queue := None\<rparr>"
    by (rule stop_split [OF assms])
  let ?s0 = "s\<lparr>running := False\<rparr>"
  have g0: "d_good good ?s0" "d_loaded loaded ?s0 = loaded l"
    using l by (simp_all add: d_good_def d_loaded_def)
  from tracksD [OF unload_all_tracks g0(1) s1] all_loaded [of l]
  have "d_good good s1" "d_loaded loaded s1 = {}" by (auto simp: g0(2))
  moreover have "running s1 = running ?s0"
  proof -
    have keep: "st_keeps running (unloadEbpf D L p)" for p
      unfolding unloadEbpf_def
      by (intro keeps) (auto simp: st_keeps_def on_loader_def split: option.split prod.split)
    show ?thesis using st_keepsD [OF keeps_each [OF keep] s1] .
  qed
  ultimately show ?thesis
    by (simp add: s' d_good_def d_loaded_def)
qed

end

text \<open>
  Claim C18. Stopping a daemon that runs: when \<^verbatim>\<open>stop\<close> returns, no service is loaded any more
  (schedulers, also forgotten ones, included), nothing is remembered as current, the producer is gone
  and the queue is released. A daemon that does not run ignores \<^verbatim>\<open>stop\<close>, services or not.
\<close>

theorem stop_unloads_everything:
  assumes "d_good services_live s" and "Daemon_stop D (the_loader E) s = (Inr (), s')"
  shows "if running s
         then d_loaded loaded_paths s' = {} \<and> current_ebpf s' = [] \<and> \<not> running s' \<and>
              status_queue s' = None \<and> \<not> producer_thread s'
         else s' = s"
proof (cases "running s")
  case True
  with ld.stop_unloads_all [OF assms(1) _ assms(2)] show ?thesis by simp
next
  case False
  with assms(2) show ?thesis by (simp add: Daemon_stop_def st_simps)
qed

lemma demo_stop:
  "fst (Daemon_stop demo_daemon_env (the_loader demo_env) (Daemon_run demo_daemon_1)) = Inr ()"
  "d_good services_live (Daemon_run demo_daemon_1)" "running (Daemon_run demo_daemon_1)"
  by code_simp+

theorem stop_unloads_everything_witness:
  "d_loaded loaded_paths (snd (Daemon_stop demo_daemon_env (the_loader demo_env) (Daemon_run demo_daemon_1))) = {}"
proof -
  obtain s' where run: "Daemon_stop demo_daemon_env (the_loader demo_env) (Daemon_run demo_daemon_1) = (Inr (), s')"
    using demo_stop(1) by (metis prod.collapse)
  from stop_unloads_everything [OF demo_stop(2) this] demo_stop(3) show ?thesis by (simp add: run)
qed

section \<open>The producer\<close>

definition statuses :: "('l, 'j) loader_if \<Rightarrow> ('j \<Rightarrow> bool) \<Rightarrow> 'l \<Rightarrow> EbpfMap \<Rightarrow> 'j list" where
  "statuses L no_status l pairs =
     filter (\<lambda>st. \<not> no_status st) (List.map_filter (\<lambda>pair. li_get L l (conf_lib (snd pair))) pairs)"

lemma take_room: "take (c - (n + min (Suc 0) (c - n))) xs = take (c - Suc n) xs"
  by (cases "n < c") auto

text \<open>
  A turn of the producer never waits: it appends the non-empty statuses of the current
  services in order as far as the queue has room and drops the rest, and after a \<^verbatim>\<open>stop\<close> of the
  queue, or without one, it stores nothing.
\<close>

theorem producer_turn:
  "produce_turn L no_status l queue ps =
     Some (map_option (\<lambda>q. if q_stopped q then q
       else q\<lparr>q_items := q_items q @ take (q_capacity q - length (q_items q)) (statuses L no_status l ps)\<rparr>) queue)"
proof (induction ps arbitrary: queue)
  case Nil
  show ?case by (cases queue) (simp_all add: statuses_def List.map_filter_def)
next
  case (Cons p ps)
  have one: "produce_one L no_status l queue p =
      Some (map_option (\<lambda>q. if q_stopped q then q
        else q\<lparr>q_items := q_items q @ take (q_capacity q - length (q_items q)) (statuses L no_status l [p])\<rparr>) queue)"
    by (cases queue) (auto simp: produce_one_def statuses_def List.map_filter_def queue_defs split: option.split)
  have "statuses L no_status l (p # ps) = statuses L no_status l [p] @ statuses L no_status l ps"
    by (simp add: statuses_def List.map_filter_def)
  then show ?case
    using one Cons.IH
    by (cases queue) (auto simp: statuses_def List.map_filter_def take_room)
qed

section \<open>Well-formed configurations\<close>

lemma y_field_keeps:
  "y_field Y node k get upd s = Inr s' \<Longrightarrow> (\<And>x s. f (upd x s) = f s) \<Longrightarrow> f s' = f s"
  by (auto simp: y_field_def res_bind_Inr_iff split: option.splits)

lemma prometheus_decode_ebpfs: "prometheus_decode Y node c = Inr c' \<Longrightarrow> ebpfs c' = ebpfs c"
  unfolding prometheus_decode_def res_bind_Inr_iff
  by (auto dest!: y_field_keeps [where f = ebpfs] simp: configs_setters)

lemma debug_server_decode_ebpfs: "debug_server_decode Y node c = Inr c' \<Longrightarrow> ebpfs c' = ebpfs c"
  unfolding debug_server_decode_def res_bind_Inr_iff
  by (auto dest!: y_field_keeps [where f = ebpfs] simp: configs_setters)

lemma y_section_keeps:
  "y_section Y node k f s = Inr s' \<Longrightarrow> (\<And>v s s'. f v s = Inr s' \<Longrightarrow> g s' = g s) \<Longrightarrow> g s' = g s"
  by (auto simp: y_section_def res_bind_Inr_iff split: option.splits)

lemma EbpfMap_decode_ok: "EbpfMap_decode Y node = Inr m \<Longrightarrow> om_ok m"
  by (auto simp: EbpfMap_decode_def res_bind_Inr_iff om_simps)

lemma Configs_decode_ok:
  assumes "Configs_decode Y node c = Inr c'" and "om_ok (ebpfs c)"
  shows "om_ok (ebpfs c')"
proof -
  obtain c1 c2 where 1: "y_section Y node ''prometheus'' (prometheus_decode Y) c = Inr c1"
    and 2: "y_section Y node ''debug_server'' (debug_server_decode Y) c1 = Inr c2"
    and 3: "y_field Y node ''ebpf'' (EbpfMap_decode Y) setEbpfs c2 = Inr c'"
    using assms(1) by (auto simp: Configs_decode_def res_bind_Inr_iff)
  have "ebpfs c2 = ebpfs c"
    using y_section_keeps [where g = ebpfs, OF 1] y_section_keeps [where g = ebpfs, OF 2]
      prometheus_decode_ebpfs debug_server_decode_ebpfs by metis
  with 3 assms(2) show ?thesis
    by (auto simp: y_field_def res_bind_Inr_iff setEbpfs_def EbpfMap_decode_ok split: option.splits)
qed



end
