(* ===== verification/Inotify.thy ===== *)
theory Inotify
  imports Packet Std_Lib Json_If
begin

text \<open>
  \<^verbatim>\<open>src/inotify/inotify.cc\<close> and \<^verbatim>\<open>inotify_manager.cc\<close>: reading the kernel's file events and handing them
  to whoever watches a configuration file. The kernel calls are the record \<open>inotify_ops\<close> over an
  unknown world; a callback is whatever the caller stored, and reporting an event gives it back.
\<close>

section \<open>Inotify: the kernel interface\<close>

record 'w inotify_ops =
  add_watch :: "'w \<Rightarrow> int \<Rightarrow> string \<Rightarrow> u32 \<Rightarrow> int \<times> 'w"
  rm_watch :: "'w \<Rightarrow> int \<Rightarrow> int \<Rightarrow> int \<times> 'w"

definition IN_CLOSE_WRITE :: u32 where "IN_CLOSE_WRITE = 0x8"
definition IN_MOVED_TO :: u32 where "IN_MOVED_TO = 0x80"

text \<open>\<open>io_fd\<close> is the descriptor of the inotify instance, \<open>io_cb\<close> whether a callback is set.\<close>

record 'w Inotify =
  io_world :: 'w
  io_fd :: int
  io_cb :: bool

text \<open>The constructor of \<^verbatim>\<open>InotifyFd\<close>, given what \<^verbatim>\<open>inotify_init1\<close> returned.\<close>

definition InotifyFd_new :: "int \<Rightarrow> int res" where
  "InotifyFd_new fd = (if fd = FD_INVALID then Inl (Except ''inotify_init1() failed'') else Inr fd)"

definition Inotify_new :: "'w \<Rightarrow> int option \<Rightarrow> int \<Rightarrow> 'w Inotify res" where
  "Inotify_new w fd init_fd =
     (case fd of
        Some f \<Rightarrow> Inr \<lparr>io_world = w, io_fd = f, io_cb = False\<rparr>
      | None \<Rightarrow> res_bind (InotifyFd_new init_fd) (\<lambda>f. Inr \<lparr>io_world = w, io_fd = f, io_cb = False\<rparr>))"

definition addWatch :: "build \<Rightarrow> 'w inotify_ops \<Rightarrow> string \<Rightarrow> u32 \<Rightarrow> (int, 'w Inotify) st" where
  "addWatch b K path flags =
     st_bind (st_assert b (\<lambda>s. io_fd s \<noteq> FD_INVALID)) (\<lambda>_ s.
       case add_watch K (io_world s) (io_fd s) (c_str path) flags of
         (wd, w) \<Rightarrow> (Inr (if wd = -1 then FD_INVALID else wd), s\<lparr>io_world := w\<rparr>))"

definition removeWatch :: "build \<Rightarrow> 'w inotify_ops \<Rightarrow> int \<Rightarrow> (bool, 'w Inotify) st" where
  "removeWatch b K watch_fd =
     st_bind (st_assert b (\<lambda>s. io_fd s \<noteq> FD_INVALID)) (\<lambda>_ s.
       case rm_watch K (io_world s) (io_fd s) watch_fd of
         (r, w) \<Rightarrow> (Inr (r \<noteq> -1), s\<lparr>io_world := w\<rparr>))"

definition setInotifyCb :: "'w Inotify \<Rightarrow> 'w Inotify" where
  "setInotifyCb s = s\<lparr>io_cb := True\<rparr>"

definition getFd :: "'w Inotify \<Rightarrow> int" where
  "getFd s = io_fd s"

section \<open>The event buffer\<close>

text \<open>
  \<^verbatim>\<open>struct inotify_event\<close>: \<^verbatim>\<open>wd\<close>, \<^verbatim>\<open>mask\<close>, \<^verbatim>\<open>cookie\<close>, \<^verbatim>\<open>len\<close>, four bytes each, and the name. A
  read outside the buffer gives \<open>None\<close>; the name is a C string.
\<close>

definition SIZEOF_EVENT :: nat where "SIZEOF_EVENT = 16"

definition rd_str :: "u8 list \<Rightarrow> nat \<Rightarrow> string option" where
  "rd_str buf i =
     (if 0 \<in> set (drop i buf)
      then Some (map (\<lambda>b. char_of (unat b)) (takeWhile (\<lambda>b. b \<noteq> 0) (drop i buf))) else None)"

text \<open>The calls of the callback, in order: name and mask of every event that has a name.\<close>

function process_from :: "u8 list \<Rightarrow> nat \<Rightarrow> nat \<Rightarrow> (string \<times> u32) list option" where
  "process_from buf len ptr =
     (if ptr < len
      then (case rd32 buf (ptr + 12) of
              None \<Rightarrow> None
            | Some event_len \<Rightarrow>
                (case (if event_len > 0
                       then Option.bind (rd_str buf (ptr + SIZEOF_EVENT)) (\<lambda>name.
                            map_option (\<lambda>mask. [(name, mask)]) (rd32 buf (ptr + 4)))
                       else Some []) of
                   None \<Rightarrow> None
                 | Some call \<Rightarrow>
                     map_option (\<lambda>calls. call @ calls)
                       (process_from buf len (ptr + (SIZEOF_EVENT + unat event_len)))))
      else Some [])"
  by pat_completeness auto

termination
  by (relation "measure (\<lambda>(buf, len, ptr). len - ptr)") (auto simp: SIZEOF_EVENT_def)

declare process_from.simps [simp del]

text \<open>\<open>Inl Crash\<close>: the buffer was left, or a Release build called an empty callback.\<close>

definition processInotify :: "build \<Rightarrow> u8 list \<Rightarrow> nat \<Rightarrow> 'w Inotify \<Rightarrow> (string \<times> u32) list res" where
  "processInotify b buffer len s =
     hb_assert b (io_cb s)
       (case process_from buffer len 0 of
          None \<Rightarrow> Inl Crash
        | Some calls \<Rightarrow> if \<not> io_cb s \<and> calls \<noteq> [] then Inl Crash else Inr calls)"

section \<open>InotifyManager\<close>

record 'c WatchInfo =
  watch_fd :: int
  watch_config :: string
  on_change :: 'c

record ('w, 'c) InotifyManager =
  im_inotify :: "'w Inotify"
  im_map :: "(string \<times> 'c WatchInfo list) list"
  im_watcher :: bool

definition InotifyManager_new :: "'w Inotify \<Rightarrow> ('w, 'c) InotifyManager" where
  "InotifyManager_new i = \<lparr>im_inotify = i, im_map = [], im_watcher = False\<rparr>"

text \<open>\<^verbatim>\<open>std::filesystem::path::parent_path\<close> on a POSIX path.\<close>

definition parent_path :: "string \<Rightarrow> string" where
  "parent_path p =
     (if dropWhile (\<lambda>c. c = CHR ''/'') p = [] then p
      else let dir = rev (dropWhile (\<lambda>c. c = CHR ''/'') (dropWhile (\<lambda>c. c \<noteq> CHR ''/'') (rev p)))
           in if dir = [] \<and> hd p = CHR ''/'' then ''/'' else dir)"

definition getParentDir :: "build \<Rightarrow> string \<Rightarrow> string res" where
  "getParentDir b path =
     hb_assert b (path \<noteq> []) (Inr (if parent_path path = [] then ''.'' else parent_path path))"

text \<open>\<open>None\<close>: no such directory; \<open>Some (ws, None)\<close>: the directory, but not the file.\<close>

definition findWatchInfo :: "string \<Rightarrow> string \<Rightarrow> (string \<times> 'c WatchInfo list) list \<Rightarrow>
    ('c WatchInfo list \<times> 'c WatchInfo option) option" where
  "findWatchInfo parent_dir path_str m =
     map_option (\<lambda>ws. (ws, find (\<lambda>w. watch_config w = path_str) ws)) (map_of m parent_dir)"

text \<open>A call on the inotify object inside the manager.\<close>

definition on_inotify :: "('a, 'w Inotify) st \<Rightarrow> ('a, ('w, 'c) InotifyManager) st" where
  "on_inotify m s = (case m (im_inotify s) of (r, i) \<Rightarrow> (r, s\<lparr>im_inotify := i\<rparr>))"

definition watchConfig :: "build \<Rightarrow> 'w inotify_ops \<Rightarrow> string \<Rightarrow> 'c \<Rightarrow> (bool, ('w, 'c) InotifyManager) st" where
  "watchConfig b K path cb =
     st_bind (st_res (getParentDir b path)) (\<lambda>dir.
     st_bind (st_get (\<lambda>s. findWatchInfo dir path (im_map s))) (\<lambda>found.
     case found of
       Some (ws, Some w) \<Rightarrow> st_ret True
     | Some (ws, None) \<Rightarrow>
         st_bind (st_mod (\<lambda>s. s\<lparr>im_map := al_upd dir
            (ws @ [\<lparr>watch_fd = FD_INVALID, watch_config = path, on_change = cb\<rparr>]) (im_map s)\<rparr>)) (\<lambda>_.
         st_ret True)
     | None \<Rightarrow>
         st_bind (on_inotify (addWatch b K dir (IN_CLOSE_WRITE OR IN_MOVED_TO))) (\<lambda>fd.
         if fd = FD_INVALID then st_ret False
         else
           st_bind (st_mod (\<lambda>s. s\<lparr>im_map := al_upd dir
              [\<lparr>watch_fd = fd, watch_config = path, on_change = cb\<rparr>] (im_map s)\<rparr>)) (\<lambda>_.
           st_ret True))))"

fun erase_config :: "string \<Rightarrow> 'c WatchInfo list \<Rightarrow> 'c WatchInfo list" where
  "erase_config path [] = []"
| "erase_config path (w # ws) = (if watch_config w = path then ws else w # erase_config path ws)"

definition goodbyeConfig :: "build \<Rightarrow> 'w inotify_ops \<Rightarrow> string \<Rightarrow> (bool, ('w, 'c) InotifyManager) st" where
  "goodbyeConfig b K path =
     st_bind (st_res (getParentDir b path)) (\<lambda>dir.
     st_bind (st_get (\<lambda>s. findWatchInfo dir path (im_map s))) (\<lambda>found.
     case found of
       Some (ws, Some w) \<Rightarrow>
         st_bind (if watch_fd w \<noteq> FD_INVALID then on_inotify (removeWatch b K (watch_fd w)) else st_ret True) (\<lambda>ok.
         if \<not> ok then st_ret False
         else
           st_bind (st_mod (\<lambda>s. s\<lparr>im_map :=
             (if erase_config path ws = [] then al_del dir (im_map s)
              else al_upd dir (erase_config path ws) (im_map s))\<rparr>)) (\<lambda>_.
           st_ret True))
     | _ \<Rightarrow> st_ret True))"

text \<open>The read callback is registered at the io context; \<open>io\<close> is whether that still exists.\<close>

definition initManager :: "bool \<Rightarrow> (unit, ('w, 'c) InotifyManager) st" where
  "initManager io =
     st_bind (st_mod (\<lambda>s. s\<lparr>im_inotify := setInotifyCb (im_inotify s)\<rparr>)) (\<lambda>_.
     st_bind (st_get (\<lambda>s. getFd (im_inotify s))) (\<lambda>fd.
     if fd = FD_INVALID then st_throw (Except ''Failed to get inotify fd'')
     else if \<not> io then st_throw (Except ''MUST provide a io context'')
     else st_mod (\<lambda>s. s\<lparr>im_watcher := True\<rparr>)))"

text \<open>The directories are walked in the order of the association list.\<close>

definition destroyManager :: "build \<Rightarrow> 'w inotify_ops \<Rightarrow> (unit, ('w, 'c) InotifyManager) st" where
  "destroyManager b K =
     st_bind (st_get im_map) (\<lambda>m.
     st_bind (st_each (\<lambda>w.
         if watch_fd w \<noteq> FD_INVALID
         then st_bind (on_inotify (removeWatch b K (watch_fd w))) (\<lambda>_. st_ret ()) else st_ret ())
       (concat (map snd m))) (\<lambda>_.
     st_mod (\<lambda>s. s\<lparr>im_map := []\<rparr>)))"

text \<open>The callback that is run with \<open>name\<close>, if any.\<close>

definition onInotifyEvent :: "build \<Rightarrow> string \<Rightarrow> ('w, 'c) InotifyManager \<Rightarrow> 'c option res" where
  "onInotifyEvent b name s =
     res_bind (getParentDir b name) (\<lambda>dir.
     Inr (case findWatchInfo dir name (im_map s) of
            Some (ws, Some w) \<Rightarrow> Some (on_change w)
          | _ \<Rightarrow> None))"

section \<open>Events are decoded as the kernel lays them out\<close>

record inotify_event =
  ev_wd :: u32
  ev_mask :: u32
  ev_cookie :: u32
  ev_name :: string
  ev_pad :: nat

definition le32 :: "u32 \<Rightarrow> u8 list" where
  "le32 x = [ucast x, ucast (drop_bit 8 x), ucast (drop_bit 16 x), ucast (drop_bit 24 x)]"

definition ev_len :: "inotify_event \<Rightarrow> nat" where
  "ev_len e = length (ev_name e) + ev_pad e"

definition encode_event :: "inotify_event \<Rightarrow> u8 list" where
  "encode_event e = le32 (ev_wd e) @ le32 (ev_mask e) @ le32 (ev_cookie e) @ le32 (of_nat (ev_len e)) @
     map (\<lambda>c. of_nat (of_char c)) (ev_name e) @ replicate (ev_pad e) 0"

text \<open>The name is a NUL-terminated C string, or there is none.\<close>

definition event_ok :: "inotify_event \<Rightarrow> bool" where
  "event_ok e \<longleftrightarrow> (if ev_name e = [] then ev_pad e = 0 else ev_pad e > 0) \<and>
     CHR 0x00 \<notin> set (ev_name e) \<and> ev_len e < 2 ^ 32"

lemma rd32_append: "rd32 (xs @ ys) (length xs + i) = rd32 ys i"
  by (auto simp: rd32_def nth_append add.assoc)

lemma rd32_le32: "rd32 (le32 x @ ys) 0 = Some x"
proof -
  have "(ucast (ucast x :: u8) :: u32) OR push_bit 8 (ucast (ucast (drop_bit 8 x) :: u8))
      OR push_bit 16 (ucast (ucast (drop_bit 16 x) :: u8)) OR push_bit 24 (ucast (ucast (drop_bit 24 x) :: u8)) = x"
    (is "?l = x")
  proof (rule bit_word_eqI)
    fix n
    assume "n < LENGTH(32)"
    then consider "n < 8" | "8 \<le> n" "n < 16" | "16 \<le> n" "n < 24" | "24 \<le> n" "n < 32" by force
    then show "bit ?l n = bit x n" by cases (auto simp: bit_simps)
  qed
  then show ?thesis by (simp add: rd32_def le32_def)
qed

lemma length_le32 [simp]: "length (le32 x) = 4"
  by (simp add: le32_def)

lemma rd32_at:
  assumes "length xs = i" shows "rd32 (xs @ le32 x @ ys) i = Some x"
  using rd32_append [of xs "le32 x @ ys" 0] rd32_le32 [of x ys] assms by simp

lemma byte_char: "char_of (unat (of_nat (of_char c) :: u8)) = (c :: char)"
  by (simp add: unat_of_nat take_bit_nat_def flip: take_bit_eq_mod)

lemma byte_eq_0: "(of_nat (of_char c) :: u8) = 0 \<longleftrightarrow> c = CHR 0x00"
proof
  assume "(of_nat (of_char c) :: u8) = 0"
  then have "char_of (unat (of_nat (of_char c) :: u8)) = (char_of (0 :: nat) :: char)" by (simp only: unsigned_0)
  also have "char_of (0 :: nat) = CHR 0x00" by (simp add: char_of_def)
  finally show "c = CHR 0x00" by (simp only: byte_char)
qed simp

lemma encoded_name:
  assumes "event_ok e" "ev_name e \<noteq> []"
  shows "rd_str (pre @ map (\<lambda>c. of_nat (of_char c)) (ev_name e) @ replicate (ev_pad e) 0 @ post) (length pre) = Some (ev_name e)"
proof -
  obtain k where k: "ev_pad e = Suc k" using assms by (cases "ev_pad e") (auto simp: event_ok_def)
  have nz: "b \<noteq> 0" if "b \<in> set (map (\<lambda>c. of_nat (of_char c) :: u8) (ev_name e))" for b
    using that assms(1) by (auto simp: event_ok_def byte_eq_0)
  have "takeWhile (\<lambda>b. b \<noteq> 0) (map (\<lambda>c. of_nat (of_char c) :: u8) (ev_name e) @ 0 # replicate k 0 @ post) =
      map (\<lambda>c. of_nat (of_char c)) (ev_name e)"
    using nz by (subst takeWhile_append2) auto
  then show ?thesis
    by (simp add: rd_str_def k byte_char map_idI)
qed

definition event_calls :: "inotify_event list \<Rightarrow> (string \<times> u32) list" where
  "event_calls es = map (\<lambda>e. (ev_name e, ev_mask e)) (filter (\<lambda>e. ev_name e \<noteq> []) es)"

lemma length_encode: "length (encode_event e) = SIZEOF_EVENT + ev_len e"
  by (simp add: encode_event_def SIZEOF_EVENT_def ev_len_def)

lemma process_encoded:
  assumes "\<forall>e \<in> set es. event_ok e"
  shows "process_from (pre @ concat (map encode_event es) @ post) (length pre + length (concat (map encode_event es)))
     (length pre) = Some (event_calls es)"
  using assms
proof (induction es arbitrary: pre)
  case Nil
  then show ?case by (simp add: process_from.simps event_calls_def)
next
  case (Cons e es)
  let ?tl = "concat (map encode_event es) @ post"
  let ?buf = "pre @ concat (map encode_event (e # es)) @ post"
  let ?len = "length pre + length (concat (map encode_event (e # es)))"
  have ok: "event_ok e" using Cons.prems by simp
  have len: "rd32 ?buf (length pre + 12) = Some (of_nat (ev_len e))"
    using rd32_at [of "pre @ le32 (ev_wd e) @ le32 (ev_mask e) @ le32 (ev_cookie e)" "length pre + 12" "of_nat (ev_len e)"]
    by (simp add: encode_event_def)
  have msk: "rd32 ?buf (length pre + 4) = Some (ev_mask e)"
    using rd32_at [of "pre @ le32 (ev_wd e)" "length pre + 4" "ev_mask e"] by (simp add: encode_event_def)
  have n: "unat (of_nat (ev_len e) :: u32) = ev_len e"
    using ok by (simp add: event_ok_def unat_of_nat)
  have name: "rd_str ?buf (length pre + SIZEOF_EVENT) = Some (ev_name e)" if "ev_name e \<noteq> []"
    using encoded_name [OF ok that, of "pre @ le32 (ev_wd e) @ le32 (ev_mask e) @ le32 (ev_cookie e) @ le32 (of_nat (ev_len e))"]
    by (simp add: encode_event_def SIZEOF_EVENT_def)
  have rest: "process_from ?buf ?len (length pre + (SIZEOF_EVENT + ev_len e)) = Some (event_calls es)"
    using Cons.IH [of "pre @ encode_event e"] Cons.prems by (simp add: length_encode add.assoc)
  have lt: "length pre < ?len" by (simp add: length_encode SIZEOF_EVENT_def)
  have named: "(of_nat (ev_len e) :: u32) > 0 \<longleftrightarrow> ev_name e \<noteq> []"
  proof -
    have "(of_nat (ev_len e) :: u32) = 0 \<longleftrightarrow> ev_len e = 0" by (metis n unat_0 unat_eq_zero)
    then show ?thesis using ok by (auto simp: word_neq_0_conv event_ok_def ev_len_def split: if_splits)
  qed
  show ?case
    unfolding process_from.simps [of ?buf ?len "length pre"] if_P [OF lt] len option.case n rest named
    using name msk by (simp add: event_calls_def)
qed

text \<open>
  Claim C17. Reading back what the kernel wrote: from a buffer that holds any events followed by
  anything, the callback is called exactly for the events with a name, in order, with their name and
  mask, and no byte outside the events is read. The loop ends on every buffer, whatever its lengths say.
\<close>

theorem process_inotify_decodes:
  assumes "\<forall>e \<in> set es. event_ok e" and "io_cb s"
  shows "processInotify b (concat (map encode_event es) @ rest) (length (concat (map encode_event es))) s =
     Inr (event_calls es)"
  using process_encoded [OF assms(1), of "[]" rest] assms(2)
  by (simp add: processInotify_def)

definition demo_events :: "inotify_event list" where
  "demo_events = [\<lparr>ev_wd = 1, ev_mask = 0x8, ev_cookie = 0, ev_name = ''hebpf.yaml'', ev_pad = 6\<rparr>,
     \<lparr>ev_wd = 1, ev_mask = 0x8000, ev_cookie = 0, ev_name = [], ev_pad = 0\<rparr>]"

theorem process_inotify_decodes_witness:
  "processInotify build.Release (concat (map encode_event demo_events) @ replicate 10 7)
     (length (concat (map encode_event demo_events))) \<lparr>io_world = (), io_fd = 3, io_cb = True\<rparr> =
   Inr [(''hebpf.yaml'', 0x8)]"
proof -
  have "\<forall>e \<in> set demo_events. event_ok e" by (simp add: demo_events_def event_ok_def ev_len_def)
  moreover have "event_calls demo_events = [(''hebpf.yaml'', 0x8)]" by (simp add: event_calls_def demo_events_def)
  ultimately show ?thesis
    using process_inotify_decodes [of demo_events "\<lparr>io_world = (), io_fd = 3, io_cb = True\<rparr>"] by simp
qed

section \<open>Which configuration files are reported\<close>

definition registered :: "string \<Rightarrow> string \<Rightarrow> ('w, 'c) InotifyManager \<Rightarrow> 'c option" where
  "registered dir path s =
     (case findWatchInfo dir path (im_map s) of Some (ws, Some w) \<Rightarrow> Some (on_change w) | _ \<Rightarrow> None)"

lemma bare_name_dir:
  assumes "name \<noteq> []" "CHR ''/'' \<notin> set name" shows "getParentDir b name = Inr ''.''"
proof -
  have "dropWhile (\<lambda>c. c \<noteq> CHR ''/'') (rev name) = []" using assms(2) by auto
  moreover have "dropWhile (\<lambda>c. c = CHR ''/'') name \<noteq> []" "hd name \<noteq> CHR ''/''"
    using assms by (cases name; auto)+
  ultimately show ?thesis
    using assms(1) by (simp add: getParentDir_def parent_path_def del: dropWhile_eq_Nil_conv)
qed

lemma event_registered:
  "name \<noteq> [] \<Longrightarrow> CHR ''/'' \<notin> set name \<Longrightarrow> onInotifyEvent b name s = Inr (registered ''.'' name s)"
  by (simp add: onInotifyEvent_def bare_name_dir registered_def)

lemma on_inotify_map: "on_inotify m s = (r, s') \<Longrightarrow> im_map s' = im_map s"
  by (auto simp: on_inotify_def split: prod.splits)

text \<open>A watch that succeeds adds the file under its directory, unless it is there.\<close>

lemma watch_registers:
  assumes "watchConfig b K path cb s = (Inr True, s')" "getParentDir b path = Inr dir"
  shows "registered d name s' =
    (if d = dir \<and> name = path \<and> registered d name s = None then Some cb else registered d name s)"
proof (cases "map_of (im_map s) dir")
  case None
  then obtain fd s1 where "on_inotify (addWatch b K dir (IN_CLOSE_WRITE OR IN_MOVED_TO)) s = (Inr fd, s1)"
    and s': "s' = s1\<lparr>im_map := al_upd dir [\<lparr>watch_fd = fd, watch_config = path, on_change = cb\<rparr>] (im_map s1)\<rparr>"
    using assms by (auto simp: watchConfig_def findWatchInfo_def st_simps split: prod.splits sum.splits if_splits)
  then have "im_map s1 = im_map s" by (auto dest: on_inotify_map)
  with s' None show ?thesis by (auto simp: registered_def findWatchInfo_def al_simps)
next
  case (Some ws)
  show ?thesis
  proof (cases "find (\<lambda>w. watch_config w = path) ws")
    case None
    then have s': "s' = s\<lparr>im_map := al_upd dir (ws @ [\<lparr>watch_fd = FD_INVALID, watch_config = path, on_change = cb\<rparr>]) (im_map s)\<rparr>"
      using assms Some by (simp add: watchConfig_def findWatchInfo_def st_simps)
    have find_app: "find P (xs @ [x]) = (case find P xs of None \<Rightarrow> if P x then Some x else None | Some y \<Rightarrow> Some y)"
      for P and x :: "'d WatchInfo" and xs
      by (induction xs) auto
    show ?thesis
      using Some None unfolding s'
      by (auto simp: registered_def findWatchInfo_def al_simps find_app split: option.split)
  next
    case (Some w)
    then show ?thesis
      using assms \<open>map_of (im_map s) dir = Some ws\<close>
      by (auto simp: watchConfig_def findWatchInfo_def st_simps registered_def)
  qed
qed

text \<open>
  What watching a file achieves. The kernel names a changed file inside the watched
  directory, without the directory. After a successful \<^verbatim>\<open>watchConfig\<close> such an event runs the file's
  callback exactly when the file was given as that bare name, and otherwise runs what it ran before:
  a file given with a directory, absolute or not, is watched but never reported.
\<close>

theorem only_bare_names_are_reported:
  assumes "path \<noteq> []" and "watchConfig b K path cb s = (Inr True, s')"
    and "name \<noteq> []" and "CHR ''/'' \<notin> set name"
  shows "onInotifyEvent b name s' =
    (if name = path \<and> onInotifyEvent b name s = Inr None then Inr (Some cb) else onInotifyEvent b name s)"
proof -
  have dir: "getParentDir b path = Inr (if parent_path path = [] then ''.'' else parent_path path)"
    using assms(1) by (simp add: getParentDir_def)
  show ?thesis
    using watch_registers [OF assms(2) dir, of "''.''" name] bare_name_dir [OF assms(3,4), of b]
    by (auto simp: event_registered [OF assms(3,4)] dir split: if_splits)
qed

text \<open>A kernel that numbers its watches; they are the pairs of number and directory.\<close>

definition ref_inotify :: "(int \<times> (int \<times> string) list) inotify_ops" where
  "ref_inotify =
     \<lparr>add_watch = (\<lambda>(n, ws) fd d flags. (n + 1, (n + 1, (n + 1, d) # ws))),
      rm_watch = (\<lambda>(n, ws) fd wd.
        (if wd \<in> set (map fst ws) then 0 else -1, (n, filter (\<lambda>p. fst p \<noteq> wd) ws)))\<rparr>"

definition demo_manager :: "(int \<times> (int \<times> string) list, nat) InotifyManager" where
  "demo_manager = InotifyManager_new \<lparr>io_world = (0, []), io_fd = 3, io_cb = True\<rparr>"

theorem only_bare_names_are_reported_witness:
  "onInotifyEvent build.Release ''acl.json''
     (snd (watchConfig build.Release ref_inotify ''/etc/hebpf/acl.json'' 7 demo_manager)) = Inr None"
proof -
  have ok: "fst (watchConfig build.Release ref_inotify ''/etc/hebpf/acl.json'' (7 :: nat) demo_manager) = Inr True"
    and none: "onInotifyEvent build.Release ''acl.json'' demo_manager = Inr None"
    by code_simp+
  obtain s' where run: "watchConfig build.Release ref_inotify ''/etc/hebpf/acl.json'' (7 :: nat) demo_manager = (Inr True, s')"
    using ok by (metis prod.collapse)
  from only_bare_names_are_reported [OF _ run, of "''acl.json''"] none show ?thesis by (simp add: run)
qed

section \<open>Only the first file of a directory holds its watch\<close>

definition watches_ok :: "string \<Rightarrow> 'c WatchInfo list \<Rightarrow> bool" where
  "watches_ok dir ws \<longleftrightarrow> ws \<noteq> [] \<and> distinct (map watch_config ws) \<and>
     (\<forall>w \<in> set ws. getParentDir build.Release (watch_config w) = Inr dir) \<and>
     (\<forall>w \<in> set (tl ws). watch_fd w = FD_INVALID)"

definition manager_ok :: "('w, 'c) InotifyManager \<Rightarrow> bool" where
  "manager_ok s \<longleftrightarrow> distinct (map fst (im_map s)) \<and> (\<forall>(dir, ws) \<in> set (im_map s). watches_ok dir ws)"

datatype 'c im_call = Watch string 'c | Goodbye string | Destroy

fun im_run :: "build \<Rightarrow> 'w inotify_ops \<Rightarrow> 'c im_call list \<Rightarrow> ('w, 'c) InotifyManager \<Rightarrow> ('w, 'c) InotifyManager" where
  "im_run b K [] s = s"
| "im_run b K (Watch path cb # cs) s = im_run b K cs (snd (watchConfig b K path cb s))"
| "im_run b K (Goodbye path # cs) s = im_run b K cs (snd (goodbyeConfig b K path s))"
| "im_run b K (Destroy # cs) s = im_run b K cs (snd (destroyManager b K s))"

lemma manager_ok_cong: "im_map s' = im_map s \<Longrightarrow> manager_ok s' = manager_ok s"
  by (simp add: manager_ok_def)

lemma dir_release: "getParentDir b path = Inr dir \<Longrightarrow> getParentDir build.Release path = Inr dir"
  by (cases b) (auto simp: getParentDir_def hb_assert_def split: if_splits)

lemma manager_ok_upd:
  assumes "manager_ok s" "watches_ok dir ws" shows "manager_ok (s\<lparr>im_map := al_upd dir ws (im_map s)\<rparr>)"
proof -
  have "(q, g) \<in> set (al_upd p h ps) \<Longrightarrow> (q, g) = (p, h) \<or> (q, g) \<in> set ps"
    for q p :: string and g h :: "'c WatchInfo list" and ps
    by (induction p h ps rule: al_upd.induct) (auto split: if_splits)
  with assms show ?thesis by (fastforce simp: manager_ok_def distinct_al_upd)
qed

lemma manager_ok_del: "manager_ok s \<Longrightarrow> manager_ok (s\<lparr>im_map := al_del dir (im_map s)\<rparr>)"
  by (auto simp: manager_ok_def al_del_def distinct_map_filter)

lemma manager_ok_lookup: "manager_ok s \<Longrightarrow> map_of (im_map s) dir = Some ws \<Longrightarrow> watches_ok dir ws"
  by (auto simp: manager_ok_def dest: map_of_SomeD)

lemma find_None_notin: "find P xs = None \<Longrightarrow> \<forall>x \<in> set xs. \<not> P x"
  by (simp add: find_None_iff)

lemma watch_manager_ok:
  assumes "manager_ok s" "watchConfig b K path cb s = (r, s')" shows "manager_ok s'"
proof (cases "getParentDir b path")
  case (Inl e)
  with assms show ?thesis by (simp add: watchConfig_def st_simps)
next
  case (Inr dir)
  note rel = dir_release [OF Inr]
  show ?thesis
  proof (cases "map_of (im_map s) dir")
    case None
    with assms(2) Inr consider "im_map s' = im_map s"
      | fd s1 where "on_inotify (addWatch b K dir (IN_CLOSE_WRITE OR IN_MOVED_TO)) s = (Inr fd, s1)"
        "s' = s1\<lparr>im_map := al_upd dir [\<lparr>watch_fd = fd, watch_config = path, on_change = cb\<rparr>] (im_map s1)\<rparr>"
      by (fastforce simp: watchConfig_def findWatchInfo_def st_simps dest: on_inotify_map
          split: prod.splits sum.splits if_splits)
    then show ?thesis
    proof cases
      case 1
      with assms(1) show ?thesis by (simp add: manager_ok_def)
    next
      case 2
      have "manager_ok s1" using assms(1) 2(1) by (simp add: manager_ok_def on_inotify_map)
      then show ?thesis unfolding 2(2) by (rule manager_ok_upd) (simp add: watches_ok_def rel)
    qed
  next
    case (Some ws)
    note ok = manager_ok_lookup [OF assms(1) Some]
    show ?thesis
    proof (cases "find (\<lambda>w. watch_config w = path) ws")
      case None
      let ?w = "\<lparr>watch_fd = FD_INVALID, watch_config = path, on_change = cb\<rparr>"
      have "watches_ok dir (ws @ [?w])"
        using ok find_None_notin [OF None] rel by (auto simp: watches_ok_def)
      moreover have "s' = s\<lparr>im_map := al_upd dir (ws @ [?w]) (im_map s)\<rparr>"
        using assms(2) Inr Some None by (simp add: watchConfig_def findWatchInfo_def st_simps)
      ultimately show ?thesis using assms(1) by (simp add: manager_ok_upd)
    next
      case (Some w)
      then show ?thesis
        using assms Inr \<open>map_of (im_map s) dir = Some ws\<close> by (simp add: watchConfig_def findWatchInfo_def st_simps)
    qed
  qed
qed

lemma erase_subset: "set (erase_config p ws) \<subseteq> set ws" "distinct (map watch_config ws) \<Longrightarrow> distinct (map watch_config (erase_config p ws))"
  by (induction ws) (auto dest: subsetD [where B = "set _"])

lemma erase_tl: "set (tl (erase_config p ws)) \<subseteq> set (tl ws)"
proof (cases ws)
  case (Cons w rest)
  have "x \<in> set (tl rest) \<Longrightarrow> x \<in> set rest" for x by (cases rest) auto
  with Cons erase_subset(1) show ?thesis by auto
qed simp

lemma goodbye_manager_ok:
  assumes "manager_ok s" "goodbyeConfig b K path s = (r, s')" shows "manager_ok s'"
proof -
  have same: ?thesis if "im_map s' = im_map s" using assms(1) that by (simp add: manager_ok_def)
  show ?thesis
  proof (cases "getParentDir b path")
    case (Inl e)
    with assms show ?thesis by (simp add: goodbyeConfig_def st_simps)
  next
    case (Inr dir)
    show ?thesis
    proof (cases "findWatchInfo dir path (im_map s)")
      case None
      with assms Inr show ?thesis by (simp add: goodbyeConfig_def st_simps)
    next
      case (Some f)
      obtain ws o' where f: "f = (ws, o')" by fastforce
      have ok: "watches_ok dir ws"
        using Some f manager_ok_lookup [OF assms(1)] by (auto simp: findWatchInfo_def)
      have erased: "erase_config path ws \<noteq> [] \<Longrightarrow> watches_ok dir (erase_config path ws)"
        using ok erase_subset(1) [of path ws] erase_subset(2) [of ws path] erase_tl [of path ws] by (auto simp: watches_ok_def)
      have step: "\<exists>s1. im_map s1 = im_map s \<and> (s' = s1 \<or> s' = s1\<lparr>im_map :=
             (if erase_config path ws = [] then al_del dir (im_map s1)
              else al_upd dir (erase_config path ws) (im_map s1))\<rparr>)"
        using assms(2) Inr Some f
        by (fastforce simp: goodbyeConfig_def st_simps dest: on_inotify_map
            split: option.splits prod.splits sum.splits if_splits)
      then obtain s1 where s1: "im_map s1 = im_map s" and s': "s' = s1 \<or> s' = s1\<lparr>im_map :=
             (if erase_config path ws = [] then al_del dir (im_map s1)
              else al_upd dir (erase_config path ws) (im_map s1))\<rparr>" by blast
      have "manager_ok s1" using assms(1) s1 by (simp add: manager_ok_def)
      with s' erased show ?thesis by (auto intro: manager_ok_upd manager_ok_del split: if_splits)
    qed
  qed
qed

lemma destroy_manager_ok:
  assumes "manager_ok s" "destroyManager b K s = (r, s')" shows "manager_ok s'"
proof -
  have keep: "st_keeps im_map (if watch_fd w \<noteq> FD_INVALID
      then st_bind (on_inotify (removeWatch b K (watch_fd w))) (\<lambda>_. st_ret ()) else st_ret ())" for w :: "'b WatchInfo"
    by (intro keeps) (auto simp: st_keeps_def on_inotify_def split: prod.split)
  obtain r1 s1 where each: "st_each (\<lambda>w. if watch_fd w \<noteq> FD_INVALID
      then st_bind (on_inotify (removeWatch b K (watch_fd w))) (\<lambda>_. st_ret ()) else st_ret ())
      (concat (map snd (im_map s))) s = (r1, s1)" by fastforce
  from st_keepsD [OF keeps_each [OF keep] this] have "im_map s1 = im_map s" .
  moreover have "s' = s1 \<or> s' = s1\<lparr>im_map := []\<rparr>"
    using assms(2) each by (auto simp: destroyManager_def st_get_def st_bind_def st_mod_def split: sum.splits)
  ultimately show ?thesis using assms(1) by (auto simp: manager_ok_def)
qed


section \<open>Losing a watch\<close>

text \<open>
  The kernel's side: the live watches of an inotify instance, as pairs of number and directory.
  \<^verbatim>\<open>inotify_add_watch\<close> adds one, \<^verbatim>\<open>inotify_rm_watch\<close> takes the one with the number away.
\<close>

locale inotify_kernel =
  fixes K :: "'w inotify_ops" and watched :: "'w \<Rightarrow> (int \<times> string) set"
  assumes add_works: "add_watch K w fd d flags = (wd, w') \<Longrightarrow> wd \<noteq> -1 \<Longrightarrow> watched w' = insert (wd, d) (watched w)"
    and rm_works: "rm_watch K w fd wd = (r, w') \<Longrightarrow> r \<noteq> -1 \<Longrightarrow> watched w' = {p \<in> watched w. fst p \<noteq> wd}"
begin

lemma addWatch_watched:
  assumes "on_inotify (addWatch b K d flags) s = (Inr wd, s')" "wd \<noteq> FD_INVALID"
  shows "watched (io_world (im_inotify s')) = insert (wd, c_str d) (watched (io_world (im_inotify s)))"
  using assms
  by (auto simp: on_inotify_def addWatch_def st_simps FD_INVALID_def dest: add_works
      split: prod.splits sum.splits if_splits)

lemma removeWatch_watched:
  assumes "on_inotify (removeWatch b K wd) s = (Inr True, s')"
  shows "watched (io_world (im_inotify s')) = {p \<in> watched (io_world (im_inotify s)). fst p \<noteq> wd}"
  using assms
  by (auto simp: on_inotify_def removeWatch_def st_simps dest: rm_works split: prod.splits sum.splits)

lemma first_watch:
  assumes "watchConfig b K p cb s = (Inr True, s')" "getParentDir b p = Inr d" "map_of (im_map s) d = None"
  obtains wd where "wd \<noteq> FD_INVALID" "watched (io_world (im_inotify s')) = insert (wd, c_str d) (watched (io_world (im_inotify s)))"
    "map_of (im_map s') d = Some [\<lparr>watch_fd = wd, watch_config = p, on_change = cb\<rparr>]"
proof -
  obtain wd s1 where "on_inotify (addWatch b K d (IN_CLOSE_WRITE OR IN_MOVED_TO)) s = (Inr wd, s1)" "wd \<noteq> FD_INVALID"
    "s' = s1\<lparr>im_map := al_upd d [\<lparr>watch_fd = wd, watch_config = p, on_change = cb\<rparr>] (im_map s1)\<rparr>"
    using assms by (auto simp: watchConfig_def findWatchInfo_def st_simps split: prod.splits sum.splits if_splits)
  with addWatch_watched [OF this(1,2)] that show thesis by (simp add: al_simps)
qed

lemma later_watch:
  assumes "watchConfig b K p cb s = (Inr True, s')" "getParentDir b p = Inr d" "map_of (im_map s) d = Some ws"
    "p \<notin> watch_config ` set ws"
  shows "im_inotify s' = im_inotify s"
    "map_of (im_map s') d = Some (ws @ [\<lparr>watch_fd = FD_INVALID, watch_config = p, on_change = cb\<rparr>])"
proof -
  have "find (\<lambda>w. watch_config w = p) ws = None" using assms(4) by (auto simp: find_None_iff)
  with assms show "im_inotify s' = im_inotify s"
    "map_of (im_map s') d = Some (ws @ [\<lparr>watch_fd = FD_INVALID, watch_config = p, on_change = cb\<rparr>])"
    by (auto simp: watchConfig_def findWatchInfo_def st_simps al_simps)
qed

lemma goodbye_head:
  assumes "goodbyeConfig b K p s = (Inr True, s')" "getParentDir b p = Inr d"
    "map_of (im_map s) d = Some (w # ws)" "watch_config w = p" "watch_fd w \<noteq> FD_INVALID" "ws \<noteq> []"
  shows "watched (io_world (im_inotify s')) = {p \<in> watched (io_world (im_inotify s)). fst p \<noteq> watch_fd w}"
    "map_of (im_map s') d = Some ws"
proof -
  obtain s1 where s1: "on_inotify (removeWatch b K (watch_fd w)) s = (Inr True, s1)"
    "s' = s1\<lparr>im_map := al_upd d ws (im_map s1)\<rparr>"
    using assms by (auto simp: goodbyeConfig_def findWatchInfo_def st_simps split: prod.splits sum.splits if_splits)
  from removeWatch_watched [OF s1(1)] s1(2) show
    "watched (io_world (im_inotify s')) = {p \<in> watched (io_world (im_inotify s)). fst p \<noteq> watch_fd w}"
    "map_of (im_map s') d = Some ws" by (simp_all add: al_simps)
qed

end

interpretation ref_in: inotify_kernel ref_inotify "\<lambda>(n, ws). set ws"
  by unfold_locales (auto simp: ref_inotify_def split: if_splits)

text \<open>
  Saying goodbye to the first file of a directory makes the manager blind for the others:
  with two files of a new directory watched, giving up the first removes the kernel's only watch of the
  directory, the second stays registered without one, and watching a third file there, which reports
  success, does not bring it back.
\<close>

theorem goodbye_blinds_the_directory:
  assumes "inotify_kernel K watched"
    and "getParentDir b p = Inr d" "getParentDir b q = Inr d" "getParentDir b r = Inr d" "distinct [p, q, r]"
    and "map_of (im_map s) d = None" "c_str d \<notin> snd ` watched (io_world (im_inotify s))"
    and "watchConfig b K p cp s = (Inr True, s1)" "watchConfig b K q cq s1 = (Inr True, s2)"
    and "goodbyeConfig b K p s2 = (Inr True, s3)" "watchConfig b K r cr s3 = (Inr True, s4)"
  shows "registered d q s4 = Some cq \<and> registered d r s4 = Some cr \<and>
         c_str d \<notin> snd ` watched (io_world (im_inotify s4))"
proof -
  note k = assms(1)
  obtain wd where wd: "wd \<noteq> FD_INVALID"
    and w1: "watched (io_world (im_inotify s1)) = insert (wd, c_str d) (watched (io_world (im_inotify s)))"
    and m1: "map_of (im_map s1) d = Some [\<lparr>watch_fd = wd, watch_config = p, on_change = cp\<rparr>]"
    using inotify_kernel.first_watch [OF k assms(8,2,6)] by blast
  have q: "q \<notin> watch_config ` set [\<lparr>watch_fd = wd, watch_config = p, on_change = cp\<rparr>]"
    using assms(5) by auto
  note s2 = inotify_kernel.later_watch [OF k assms(9,3) m1 q, simplified]
  note s3 = inotify_kernel.goodbye_head [OF k assms(10,2) s2(2)]
  have r: "r \<notin> watch_config ` set [\<lparr>watch_fd = FD_INVALID, watch_config = q, on_change = cq\<rparr>]"
    using assms(5) by auto
  have m3: "map_of (im_map s3) d = Some [\<lparr>watch_fd = FD_INVALID, watch_config = q, on_change = cq\<rparr>]"
    using s3(2) wd by simp
  note s4 = inotify_kernel.later_watch [OF k assms(11,4) m3 r]
  have "watched (io_world (im_inotify s4)) =
      {x \<in> insert (wd, c_str d) (watched (io_world (im_inotify s))). fst x \<noteq> wd}"
    using s3(1) wd s2(1) s4(1) w1 by simp
  then have "c_str d \<notin> snd ` watched (io_world (im_inotify s4))"
    using assms(7) by auto
  with s4(2) assms(5) show ?thesis by (auto simp: registered_def findWatchInfo_def)
qed

theorem goodbye_blinds_the_directory_witness:
  "registered ''/etc'' ''/etc/b'' (im_run build.Release ref_inotify
     [Watch ''/etc/a'' 1, Watch ''/etc/b'' 2, Goodbye ''/etc/a'', Watch ''/etc/c'' 3] demo_manager) = Some 2"
proof -
  let ?w = "watchConfig build.Release ref_inotify" and ?g = "goodbyeConfig build.Release ref_inotify"
  let ?s1 = "snd (?w ''/etc/a'' 1 demo_manager)"
  let ?s2 = "snd (?w ''/etc/b'' 2 ?s1)"
  let ?s3 = "snd (?g ''/etc/a'' ?s2)"
  let ?s4 = "snd (?w ''/etc/c'' 3 ?s3)"
  have dirs: "getParentDir build.Release ''/etc/a'' = Inr ''/etc''" "getParentDir build.Release ''/etc/b'' = Inr ''/etc''"
    "getParentDir build.Release ''/etc/c'' = Inr ''/etc''" by code_simp+
  have ok: "fst (?w ''/etc/a'' 1 demo_manager) = Inr True" "fst (?w ''/etc/b'' 2 ?s1) = Inr True"
    "fst (?g ''/etc/a'' ?s2) = Inr True" "fst (?w ''/etc/c'' 3 ?s3) = Inr True" by code_simp+
  have new: "map_of (im_map demo_manager) ''/etc'' = None" "io_world (im_inotify demo_manager) = (0, [])"
    by (simp_all add: demo_manager_def InotifyManager_new_def)
  have run: "?w ''/etc/a'' 1 demo_manager = (Inr True, ?s1)" "?w ''/etc/b'' 2 ?s1 = (Inr True, ?s2)"
    "?g ''/etc/a'' ?s2 = (Inr True, ?s3)" "?w ''/etc/c'' 3 ?s3 = (Inr True, ?s4)"
    using ok by (simp_all add: prod_eq_iff)
  have "registered ''/etc'' ''/etc/b'' ?s4 = Some 2"
    using goodbye_blinds_the_directory [OF ref_in.inotify_kernel_axioms dirs _ new(1) _ run] by (simp add: new(2))
  then show ?thesis by simp
qed

end
