(* ===== verification/Config_Watcher.thy ===== *)
theory Config_Watcher
  imports Configs "HOL-Library.Sublist"
begin

text \<open>
  \<^verbatim>\<open>src/daemon/config_watcher.h\<close> and \<^verbatim>\<open>config_watcher.cc\<close>: the publisher of the daemon's configuration.
  The file, the inotify manager and the subscribers are reached through a record of operations over an
  unknown world, in which the subscribers keep their state; a subscriber is a number, \<open>None\<close> an empty
  pointer that was attached.
\<close>

section \<open>State and operations\<close>

record 'w watch_ops =
  w_load :: "'w \<Rightarrow> string \<Rightarrow> Configs res"
  w_update :: "nat \<Rightarrow> Configs \<Rightarrow> 'w \<Rightarrow> unit res \<times> 'w"
  w_alive :: "'w \<Rightarrow> nat \<Rightarrow> bool"
  w_inotify :: "'w \<Rightarrow> bool"
  w_watch :: "string \<Rightarrow> 'w \<Rightarrow> bool res \<times> 'w"
  w_goodbye :: "string \<Rightarrow> 'w \<Rightarrow> bool res \<times> 'w"

record 'w ConfigWatcher =
  cw_world :: 'w
  config_path :: string
  last_config :: Configs
  subscribers :: "nat option list"

definition ConfigWatcher_new :: "'w \<Rightarrow> 'w ConfigWatcher" where
  "ConfigWatcher_new w = \<lparr>cw_world = w, config_path = [], last_config = Configs_default, subscribers = []\<rparr>"

definition in_world :: "('w \<Rightarrow> 'a res \<times> 'w) \<Rightarrow> ('a, 'w ConfigWatcher) st" where
  "in_world f s = (case f (cw_world s) of (r, w) \<Rightarrow> (r, s\<lparr>cw_world := w\<rparr>))"

definition watcher_attach :: "'w watch_ops \<Rightarrow> nat option \<Rightarrow> (unit, 'w ConfigWatcher) st" where
  "watcher_attach W subscriber =
     st_bind (st_mod (\<lambda>s. s\<lparr>subscribers := subscribers s @ [subscriber]\<rparr>)) (\<lambda>_.
     st_bind (st_get config_path) (\<lambda>path.
     if path = [] then st_ret ()
     else
       st_bind (st_get last_config) (\<lambda>current.
       case subscriber of None \<Rightarrow> st_ret () | Some i \<Rightarrow> in_world (w_update W i current))))"

text \<open>An empty or expired pointer goes as well, whoever is detached.\<close>

definition expired :: "'w watch_ops \<Rightarrow> 'w \<Rightarrow> nat option \<Rightarrow> bool" where
  "expired W w p = (case p of None \<Rightarrow> True | Some i \<Rightarrow> \<not> w_alive W w i)"

definition watcher_detach :: "'w watch_ops \<Rightarrow> nat option \<Rightarrow> 'w ConfigWatcher \<Rightarrow> 'w ConfigWatcher" where
  "watcher_detach W subscriber s =
     s\<lparr>subscribers := filter (\<lambda>p. \<not> (expired W (cw_world s) p \<or> p = subscriber)) (subscribers s)\<rparr>"

definition active :: "'w watch_ops \<Rightarrow> 'w ConfigWatcher \<Rightarrow> nat list" where
  "active W s = map the (filter (\<lambda>p. \<not> expired W (cw_world s) p) (subscribers s))"

definition watcher_notify :: "'w watch_ops \<Rightarrow> (unit, 'w ConfigWatcher) st" where
  "watcher_notify W =
     st_bind (st_get (active W)) (\<lambda>act.
     st_bind (st_get last_config) (\<lambda>current.
     st_each (\<lambda>i. in_world (w_update W i current)) act))"

definition loadConfig :: "'w watch_ops \<Rightarrow> (unit, 'w ConfigWatcher) st" where
  "loadConfig W =
     st_catch
       (st_bind (\<lambda>s. (w_load W (cw_world s) (config_path s), s)) (\<lambda>cfg.
        st_bind (st_get (\<lambda>s. \<not> Configs_eq cfg (last_config s))) (\<lambda>changed.
        if changed
        then st_bind (st_mod (\<lambda>s. s\<lparr>last_config := cfg\<rparr>)) (\<lambda>_. watcher_notify W)
        else st_ret ())))
       (\<lambda>exc. st_ret ())"

text \<open>The callback: an event whose name occurs anywhere in the path.\<close>

definition on_config_event :: "'w watch_ops \<Rightarrow> string \<Rightarrow> (unit, 'w ConfigWatcher) st" where
  "on_config_event W name =
     st_bind (st_get config_path) (\<lambda>path. if sublist name path then loadConfig W else st_ret ())"

definition startWatching :: "'w watch_ops \<Rightarrow> string \<Rightarrow> (unit, 'w ConfigWatcher) st" where
  "startWatching W config =
     st_bind (st_get config_path) (\<lambda>path.
     if path = config then st_ret ()
     else
       st_bind (st_mod (\<lambda>s. s\<lparr>config_path := config\<rparr>)) (\<lambda>_.
       st_bind (st_get (\<lambda>s. w_inotify W (cw_world s))) (\<lambda>inotify_mngr.
       if \<not> inotify_mngr then st_throw (Except ''Inotify is invalid'')
       else
         st_bind (in_world (w_watch W config)) (\<lambda>ok.
         if \<not> ok then st_throw (Except ''Inotify add watch failed'')
         else loadConfig W))))"

definition watcher_clear :: "build \<Rightarrow> 'w watch_ops \<Rightarrow> (unit, 'w ConfigWatcher) st" where
  "watcher_clear b W =
     st_bind (st_assert b (\<lambda>s. w_inotify W (cw_world s))) (\<lambda>_.
     st_catch
       (st_bind (st_get (\<lambda>s. w_inotify W (cw_world s))) (\<lambda>inotify_mngr.
        if \<not> inotify_mngr then st_ret ()
        else
          st_bind (st_get config_path) (\<lambda>path.
          st_bind (in_world (w_goodbye W path)) (\<lambda>_. st_ret ()))))
       (\<lambda>exc. st_ret ()))"

section \<open>Notifying\<close>

lemma in_world_keeps [keeps]:
  "st_keeps config_path (in_world f)" "st_keeps last_config (in_world f)" "st_keeps subscribers (in_world f)"
  by (auto simp: st_keeps_def in_world_def split: prod.split)

text \<open>The subscribers one after the other; the first that throws ends it.\<close>

fun update_all :: "'w watch_ops \<Rightarrow> Configs \<Rightarrow> nat list \<Rightarrow> 'w \<Rightarrow> unit res \<times> 'w" where
  "update_all W c [] w = (Inr (), w)"
| "update_all W c (i # is) w =
     (case w_update W i c w of (Inl e, w') \<Rightarrow> (Inl e, w') | (Inr _, w') \<Rightarrow> update_all W c is w')"

lemma each_update:
  "st_each (\<lambda>i. in_world (w_update W i c)) is s =
     (case update_all W c is (cw_world s) of (r, w) \<Rightarrow> (r, s\<lparr>cw_world := w\<rparr>))"
proof (induction "is" arbitrary: s)
  case (Cons i "is")
  then show ?case
    by (auto simp: st_bind_def in_world_def split: prod.splits sum.splits)
qed (simp add: st_ret_def)

lemma notify_run:
  "watcher_notify W s = (case update_all W (last_config s) (active W s) (cw_world s) of (r, w) \<Rightarrow> (r, s\<lparr>cw_world := w\<rparr>))"
  by (simp add: watcher_notify_def st_simps each_update)

lemma update_all_append:
  "update_all W c (xs @ ys) w =
     (case update_all W c xs w of (Inl e, w') \<Rightarrow> (Inl e, w') | (Inr _, w') \<Rightarrow> update_all W c ys w')"
  by (induction xs arbitrary: w) (auto split: prod.splits sum.splits)

lemma loadConfig_run:
  "loadConfig W s =
     (case w_load W (cw_world s) (config_path s) of
        Inl e \<Rightarrow> (if catchable e then Inr () else Inl e, s)
      | Inr c \<Rightarrow>
          if c = last_config s then (Inr (), s)
          else (case update_all W c (active W s) (cw_world s) of
                  (r, w) \<Rightarrow> (case r of Inl e \<Rightarrow> if catchable e then Inr () else Inl e | Inr _ \<Rightarrow> Inr (),
                             s\<lparr>last_config := c, cw_world := w\<rparr>)))"
proof -
  have "active W (s\<lparr>last_config := c\<rparr>) = active W s" for c by (simp add: active_def)
  then show ?thesis
    by (auto simp: loadConfig_def st_catch_def st_bind_def st_get_def st_mod_def st_ret_def notify_run Configs_eq_iff
        split: sum.split prod.split)
qed

section \<open>Properties\<close>

text \<open>
  A failed update is not retried. When a subscriber throws on a new configuration, those
  attached after it do not see it, the exception is swallowed, and because the configuration is already
  remembered, further events of the same file content reach nobody, the failed subscriber included.
\<close>

theorem failed_update_is_not_retried:
  assumes "w_load W (cw_world s) (config_path s) = Inr c" and "c \<noteq> last_config s"
    and "active W s = xs @ i # ys"
    and "update_all W c xs (cw_world s) = (Inr (), w1)" and "w_update W i c w1 = (Inl e, w2)" and "catchable e"
    and "w_load W w2 (config_path s) = Inr c"
  shows "loadConfig W s = (Inr (), s\<lparr>last_config := c, cw_world := w2\<rparr>) \<and>
         loadConfig W (s\<lparr>last_config := c, cw_world := w2\<rparr>) = (Inr (), s\<lparr>last_config := c, cw_world := w2\<rparr>)"
  using assms by (simp add: loadConfig_run update_all_append)

text \<open>A world that counts the updates of two subscribers; the first one throws.\<close>

definition demo_watch :: "(nat \<times> nat) watch_ops" where
  "demo_watch =
     \<lparr>w_load = (\<lambda>w p. Inr (setEbpfs [] Configs_default)),
      w_update = (\<lambda>i c (m, n). if i = 0 then (Inl (Except ''dlopen() failed''), (Suc m, n)) else (Inr (), (m, Suc n))),
      w_alive = (\<lambda>w i. True), w_inotify = (\<lambda>w. True), w_watch = (\<lambda>p w. (Inr True, w)),
      w_goodbye = (\<lambda>p w. (Inr True, w))\<rparr>"

definition demo_watcher :: "nat option list \<Rightarrow> (nat \<times> nat) ConfigWatcher" where
  "demo_watcher subs = (ConfigWatcher_new (0, 0))\<lparr>config_path := ''hebpf.yaml'', subscribers := subs\<rparr>"

theorem failed_update_is_not_retried_witness:
  "cw_world (snd (loadConfig demo_watch (snd (loadConfig demo_watch (demo_watcher [Some 0, Some 1]))))) = (1, 0)"
  using failed_update_is_not_retried [of demo_watch "demo_watcher [Some 0, Some 1]" "setEbpfs [] Configs_default"
      "[]" 0 "[1]" "(0, 0)" "Except ''dlopen() failed''" "(1, 0)"]
  by (simp add: demo_watch_def demo_watcher_def active_def expired_def ConfigWatcher_new_def setEbpfs_def Configs_default_def)

end
