(* ===== verification/Monitor.thy ===== *)
theory Monitor
  imports Configs Json_If Status_Queue
begin

text \<open>
  \<^verbatim>\<open>src/monitor/\<close> and the two payload classes of \<^verbatim>\<open>src/data/\<close>: the Prometheus counters, the factory
  that shares a monitor per listening address, and the subscriber that starts, stops and feeds it. The
  Prometheus library is the record \<open>prom_ops\<close>; counters and monitors are numbers, a \<^verbatim>\<open>double\<close> is a
  value of an unknown type \<open>'d\<close>.
\<close>

section \<open>Payloads (metrics.cc, kernel\_data.cc)\<close>

text \<open>The conversions the JSON library has beside those of the rules: numbers and string maps.\<close>

record ('j, 'd) num_ops =
  j_get_double :: "'j \<Rightarrow> 'd res"
  j_get_labels :: "'j \<Rightarrow> (string \<times> string) list res"
  j_double :: "'d \<Rightarrow> 'j"
  j_labels :: "(string \<times> string) list \<Rightarrow> 'j"

record 'j Metrics =
  met_service :: string
  met_metrics :: "'j list"

definition Metrics_from_json :: "'j json_ops \<Rightarrow> 'j \<Rightarrow> 'j Metrics \<Rightarrow> 'j Metrics res" where
  "Metrics_from_json J json metrics =
     res_bind (j_field J json ''service'' (j_get_string J) (\<lambda>s m. m\<lparr>met_service := s\<rparr>) metrics)
       (j_field J json ''metrics'' (j_get_array J) (\<lambda>a m. m\<lparr>met_metrics := a\<rparr>))"

definition Metrics_to_json :: "'j json_ops \<Rightarrow> 'j Metrics \<Rightarrow> 'j" where
  "Metrics_to_json J metrics =
     j_obj J [(''service'', j_str J (met_service metrics)), (''metrics'', j_arr J (met_metrics metrics))]"

record 'd KernelData =
  kd_name :: string
  kd_value :: 'd
  kd_labels :: "(string \<times> string) list"

definition KernelData_from_json :: "'j json_ops \<Rightarrow> ('j, 'd) num_ops \<Rightarrow> 'j \<Rightarrow> 'd KernelData \<Rightarrow> 'd KernelData res" where
  "KernelData_from_json J N json event =
     res_bind (j_field J json ''name'' (j_get_string J) (\<lambda>s e. e\<lparr>kd_name := s\<rparr>) event) (\<lambda>event.
     res_bind (j_field J json ''value'' (j_get_double N) (\<lambda>v e. e\<lparr>kd_value := v\<rparr>) event) (\<lambda>event.
     j_field J json ''labels'' (j_get_labels N) (\<lambda>l e. e\<lparr>kd_labels := l\<rparr>) event))"

definition KernelData_to_json :: "'j json_ops \<Rightarrow> ('j, 'd) num_ops \<Rightarrow> 'd KernelData \<Rightarrow> 'j" where
  "KernelData_to_json J N event =
     j_obj J [(''name'', j_str J (kd_name event)), (''value'', j_double N (kd_value event)),
              (''labels'', j_labels N (kd_labels event))]"

section \<open>Monitor\<close>

text \<open>
  \<open>p_add\<close> builds and registers a counter family and adds the labels, \<open>p_inc\<close> increments a
  counter, \<open>p_u64\<close> is \<^verbatim>\<open>static_cast<uint64_t>\<close> of a double.
\<close>

record ('w, 'd) prom_ops =
  p_add :: "string \<Rightarrow> (string \<times> string) list \<Rightarrow> 'w \<Rightarrow> nat res \<times> 'w"
  p_inc :: "nat \<Rightarrow> u64 \<Rightarrow> 'w \<Rightarrow> 'w"
  p_u64 :: "'d \<Rightarrow> u64"

record 'w Monitor =
  mon_registry :: 'w
  counters :: "(string \<times> nat) list"

fun label_text :: "(string \<times> string) list \<Rightarrow> string" where
  "label_text [] = []"
| "label_text ((k, v) # labels) = ''|'' @ k @ ''='' @ v @ label_text labels"

definition makeKey :: "string \<Rightarrow> (string \<times> string) list \<Rightarrow> string" where
  "makeKey name labels = name @ label_text labels"

definition incrementCounter :: "('w, 'd) prom_ops \<Rightarrow> string \<Rightarrow> (string \<times> string) list \<Rightarrow> 'd \<Rightarrow>
    (unit, 'w Monitor) st" where
  "incrementCounter P name labels value s =
     (let key = makeKey name labels
      in if key = [] then (Inl (Except ''invalid key''), s)
         else case map_of (counters s) key of
           Some c \<Rightarrow> (Inr (), s\<lparr>mon_registry := p_inc P c (p_u64 P value) (mon_registry s)\<rparr>)
         | None \<Rightarrow>
             (case p_add P name labels (mon_registry s) of
                (Inl e, w) \<Rightarrow> (Inl e, s\<lparr>mon_registry := w\<rparr>)
              | (Inr c, w) \<Rightarrow> (Inr (), s\<lparr>mon_registry := p_inc P c (p_u64 P value) w,
                                        counters := (key, c) # counters s\<rparr>)))"

section \<open>MonitorFactory\<close>

text \<open>\<open>f_new\<close> is the constructor of a monitor, which opens the port; \<open>f_alive\<close> is \<^verbatim>\<open>lock()\<close> of a weak pointer.\<close>

record 'w factory_ops =
  f_new :: "string \<Rightarrow> 'w \<Rightarrow> nat res \<times> 'w"
  f_alive :: "'w \<Rightarrow> nat \<Rightarrow> bool"
  f_release :: "nat \<Rightarrow> 'w \<Rightarrow> 'w"

definition factory_create :: "build \<Rightarrow> 'w factory_ops \<Rightarrow> string \<Rightarrow>
    (string \<times> nat) list \<times> 'w \<Rightarrow> nat res \<times> ((string \<times> nat) list \<times> 'w)" where
  "factory_create b F bind_address s =
     (case hb_assert b (bind_address \<noteq> []) (Inr ()) of
        Inl e \<Rightarrow> (Inl e, s)
      | Inr _ \<Rightarrow>
          (case s of (cache, w) \<Rightarrow>
             (case (case map_of cache bind_address of
                      None \<Rightarrow> None | Some m \<Rightarrow> if f_alive F w m then Some m else None) of
                Some m \<Rightarrow> (Inr m, s)
              | None \<Rightarrow>
                  (case f_new F bind_address w of
                     (Inl e, w') \<Rightarrow> (Inl e, (cache, w'))
                   | (Inr m, w') \<Rightarrow> (Inr m, (al_upd bind_address m cache, w'))))))"

section \<open>MonitorSubscriber\<close>

text \<open>The factory, the queue and the consumer thread may be null; the monitor is \<open>None\<close> when there is none.\<close>

record ('w, 'j) MonitorSubscriber =
  ms_world :: 'w
  ms_factory :: "(string \<times> nat) list option"
  ms_running :: bool
  bind_address :: string
  monitor :: "nat option"
  ms_queue :: "'j Queue option"
  consumer_thread :: bool

definition MonitorSubscriber_new :: "'w \<Rightarrow> (string \<times> nat) list option \<Rightarrow> ('w, 'j) MonitorSubscriber" where
  "MonitorSubscriber_new w factory =
     \<lparr>ms_world = w, ms_factory = factory, ms_running = False, bind_address = [], monitor = None,
      ms_queue = None, consumer_thread = False\<rparr>"

definition ms_setQueue :: "'j Queue option \<Rightarrow> ('w, 'j) MonitorSubscriber \<Rightarrow> ('w, 'j) MonitorSubscriber" where
  "ms_setQueue queue s = s\<lparr>ms_queue := queue\<rparr>"

definition ms_create :: "build \<Rightarrow> 'w factory_ops \<Rightarrow> (nat, ('w, 'j) MonitorSubscriber) st" where
  "ms_create b F s =
     (case ms_factory s of
        None \<Rightarrow> (Inl Crash, s)
      | Some cache \<Rightarrow>
          (case factory_create b F (bind_address s) (cache, ms_world s) of
             (r, (cache', w)) \<Rightarrow> (r, s\<lparr>ms_factory := Some cache', ms_world := w\<rparr>)))"

definition on_queue :: "('j Queue \<Rightarrow> 'j Queue) \<Rightarrow> (unit, ('w, 'j) MonitorSubscriber) st" where
  "on_queue f s =
     (case ms_queue s of None \<Rightarrow> (Inl Crash, s) | Some q \<Rightarrow> (Inr (), s\<lparr>ms_queue := Some (f q)\<rparr>))"

definition ms_run :: "build \<Rightarrow> 'w factory_ops \<Rightarrow> string \<Rightarrow> (unit, ('w, 'j) MonitorSubscriber) st" where
  "ms_run b F address =
     st_bind (st_get ms_running) (\<lambda>on.
     st_bind (st_mod (\<lambda>s. s\<lparr>ms_running := True\<rparr>)) (\<lambda>_.
     if on then st_ret ()
     else
       st_bind (st_assert b (\<lambda>s. address \<noteq> [])) (\<lambda>_.
       st_bind (st_assert b (\<lambda>s. ms_factory s \<noteq> None)) (\<lambda>_.
       st_bind (st_assert b (\<lambda>s. ms_queue s \<noteq> None)) (\<lambda>_.
       st_bind (st_mod (\<lambda>s. s\<lparr>bind_address := address\<rparr>)) (\<lambda>_.
       st_bind (ms_create b F) (\<lambda>m.
       st_bind (st_mod (\<lambda>s. s\<lparr>monitor := Some m, consumer_thread := True\<rparr>)) (\<lambda>_.
       on_queue queue_start)))))))) "

text \<open>The consumer is joined: it has ended when \<^verbatim>\<open>stop\<close> goes on.\<close>

definition ms_stop :: "build \<Rightarrow> 'w factory_ops \<Rightarrow> (unit, ('w, 'j) MonitorSubscriber) st" where
  "ms_stop b F =
     st_bind (st_get ms_running) (\<lambda>on.
     st_bind (st_mod (\<lambda>s. s\<lparr>ms_running := False\<rparr>)) (\<lambda>_.
     if \<not> on then st_ret ()
     else
       st_bind (st_assert b (\<lambda>s. ms_queue s \<noteq> None)) (\<lambda>_.
       st_bind (on_queue queue_stop) (\<lambda>_.
       st_mod (\<lambda>s. s\<lparr>consumer_thread := False, monitor := None, bind_address := [],
         ms_world := (case monitor s of None \<Rightarrow> ms_world s | Some m \<Rightarrow> f_release F m (ms_world s))\<rparr>)))))"

definition ms_update :: "build \<Rightarrow> 'w factory_ops \<Rightarrow> Configs \<Rightarrow> (unit, ('w, 'j) MonitorSubscriber) st" where
  "ms_update b F config =
     st_bind (st_get (\<lambda>s. monitor s \<noteq> None)) (\<lambda>last_enabled.
     if \<not> prometheus_enabled config \<and> \<not> last_enabled then st_ret ()
     else
       st_bind (st_get (\<lambda>s. bind_address s \<noteq> prometheus_listen config)) (\<lambda>need_restart.
       if prometheus_enabled config \<and> last_enabled \<and> \<not> need_restart then st_ret ()
       else
         st_bind (if \<not> prometheus_enabled config \<or> prometheus_enabled config \<and> need_restart
                  then ms_stop b F else st_ret ()) (\<lambda>_.
         if prometheus_enabled config then ms_run b F (prometheus_listen config) else st_ret ())))"

text \<open>What one element taken from the queue does to the monitor's counters; \<open>kd0\<close> is the uninitialised object.\<close>

definition consume_elem :: "'j json_ops \<Rightarrow> ('j, 'd) num_ops \<Rightarrow> ('w, 'd) prom_ops \<Rightarrow> 'd KernelData \<Rightarrow> 'j \<Rightarrow>
    (unit, 'w Monitor option) st" where
  "consume_elem J N P kd0 elem s =
     (case s of
        None \<Rightarrow> (Inr (), None)
      | Some mon \<Rightarrow>
          (case KernelData_from_json J N elem kd0 of
             Inl e \<Rightarrow> (Inl e, s)
           | Inr event \<Rightarrow>
               (case incrementCounter P (kd_name event) (kd_labels event) (kd_value event) mon of
                  (r, mon') \<Rightarrow> (r, Some mon'))))"

definition consume_status :: "'j json_ops \<Rightarrow> ('j, 'd) num_ops \<Rightarrow> ('w, 'd) prom_ops \<Rightarrow> 'd KernelData \<Rightarrow> 'j \<Rightarrow>
    (unit, 'w Monitor option) st" where
  "consume_status J N P kd0 status =
     st_bind (st_res (Metrics_from_json J status \<lparr>met_service = [], met_metrics = []\<rparr>)) (\<lambda>metrics.
     st_each (consume_elem J N P kd0) (met_metrics metrics))"

section \<open>The subscriber follows the configuration\<close>

definition ms_ok :: "('w, 'j) MonitorSubscriber \<Rightarrow> bool" where
  "ms_ok s \<longleftrightarrow> (ms_running s \<longleftrightarrow> monitor s \<noteq> None) \<and> (consumer_thread s \<longleftrightarrow> monitor s \<noteq> None) \<and>
     ms_factory s \<noteq> None \<and> ms_queue s \<noteq> None"

lemma ms_update_follows:
  assumes "ms_ok s" and "ms_update b F config s = (Inr (), s')" and "prometheus_listen config \<noteq> []"
  shows "ms_ok s' \<and> (monitor s' \<noteq> None \<longleftrightarrow> prometheus_enabled config) \<and>
         (if prometheus_enabled config then bind_address s' = prometheus_listen config
          else bind_address s' = bind_address s \<or> bind_address s' = [])"
  using assms
  by (auto simp: ms_ok_def ms_update_def ms_run_def ms_stop_def ms_create_def on_queue_def st_simps
      split: if_splits prod.splits sum.splits option.splits)

text \<open>
  Prometheus follows the configuration: from a consistent subscriber with its queue and its
  factory, an update that returns leaves a consistent one that has a monitor, a consumer and a running
  flag exactly when the configuration enables it, and then on the configured address.
\<close>

theorem monitor_follows_config:
  assumes "ms_ok s" and "ms_update b F config s = (Inr (), s')" and "prometheus_listen config \<noteq> []"
  shows "ms_ok s' \<and> (monitor s' \<noteq> None \<longleftrightarrow> prometheus_enabled config) \<and>
         (if prometheus_enabled config then bind_address s' = prometheus_listen config
          else bind_address s' = bind_address s \<or> bind_address s' = [])"
  by (rule ms_update_follows [OF assms])

text \<open>
  A start that failed is not repaired. When the port cannot be opened, the subscriber keeps its
  running flag and the address without a monitor; from then on neither the same configuration nor one
  that switches Prometheus off changes anything, so it stays down, free port or not, until the address
  in the configuration changes.
\<close>

theorem failed_monitor_start_sticks:
  assumes "monitor s = None" and "ms_running s = False" and "ms_factory s = Some cache" and "ms_queue s = Some q"
    and "prometheus_enabled config" and "prometheus_listen config = addr" and "addr \<noteq> []"
    and "map_of cache addr = None" and "f_new F addr (ms_world s) = (Inl e, w)"
    and "\<not> prometheus_enabled disabled"
  shows "let s1 = snd (ms_update b F config s) in
    fst (ms_update b F config s) = Inl e \<and> monitor s1 = None \<and> ms_running s1 \<and>
    ms_update b F config s1 = (Inr (), s1) \<and> ms_update b F disabled s1 = (Inr (), s1)"
proof -
  let ?s1 = "s\<lparr>ms_running := True, bind_address := addr, ms_factory := Some cache, ms_world := w\<rparr>"
  have create: "ms_create b F (t\<lparr>ms_running := True, bind_address := addr\<rparr>) =
      (Inl e, t\<lparr>ms_running := True, bind_address := addr, ms_factory := Some cache, ms_world := w\<rparr>)"
    if "ms_factory t = Some cache" "ms_world t = ms_world s" for t :: "('a, 'b) MonitorSubscriber"
    using assms that by (simp add: ms_create_def factory_create_def)
  have "ms_update b F config s = (Inl e, ?s1)"
    using assms create [of s] by (cases s) (simp add: ms_update_def ms_run_def ms_stop_def st_simps)
  moreover have "ms_update b F config ?s1 = (Inr (), ?s1)" "ms_update b F disabled ?s1 = (Inr (), ?s1)"
    using assms by (simp_all add: ms_update_def ms_run_def ms_stop_def st_simps)
  ultimately show ?thesis using assms by (simp add: Let_def)
qed

text \<open>A machine on which a port that is in use cannot be opened; the world says which one it is.\<close>

definition demo_factory :: "string factory_ops" where
  "demo_factory = \<lparr>f_new = (\<lambda>a w. (if a = w then Inl (StdError ''null context'') else Inr 1, w)),
     f_alive = (\<lambda>w m. False), f_release = (\<lambda>m w. w)\<rparr>"

definition demo_subscriber :: "string \<Rightarrow> (string, unit) MonitorSubscriber" where
  "demo_subscriber w = ms_setQueue (Some (Queue_new 4)) (MonitorSubscriber_new w (Some []))"

definition prom_config :: "bool \<Rightarrow> Configs" where
  "prom_config on = setPrometheusEnabled on Configs_default"

theorem monitor_follows_config_witness:
  "monitor (snd (ms_update build.Release demo_factory (prom_config True) (demo_subscriber []))) \<noteq> None"
proof -
  have ok: "fst (ms_update build.Release demo_factory (prom_config True) (demo_subscriber [])) = Inr ()" by code_simp
  obtain s' where run: "ms_update build.Release demo_factory (prom_config True) (demo_subscriber []) = (Inr (), s')"
    using ok by (metis prod.collapse)
  have "ms_ok (demo_subscriber [])" by (simp add: ms_ok_def demo_subscriber_def ms_setQueue_def MonitorSubscriber_new_def)
  moreover have on: "prometheus_enabled (prom_config True)" "prometheus_listen (prom_config True) \<noteq> []"
    by (simp_all add: prom_config_def configs_setters Configs_default_def)
  ultimately show ?thesis
    using monitor_follows_config [OF _ run on(2)] on(1) by (simp add: run)
qed

theorem failed_monitor_start_sticks_witness:
  "monitor (snd (ms_update build.Release demo_factory (prom_config True) (demo_subscriber ''0.0.0.0:8080''))) = None"
  using failed_monitor_start_sticks [of "demo_subscriber ''0.0.0.0:8080''" "[]" "Queue_new 4" "prom_config True"
      "''0.0.0.0:8080''" demo_factory "StdError ''null context''" "''0.0.0.0:8080''" "prom_config False" build.Release]
  by (simp add: Let_def demo_subscriber_def ms_setQueue_def MonitorSubscriber_new_def prom_config_def
      configs_setters Configs_default_def demo_factory_def)

section \<open>Counters\<close>

text \<open>
  The registry: which counter a name with labels has, and its value. Adding a pair that has none gives
  a fresh counter at zero; nothing else changes it.
\<close>

locale prom_registry =
  fixes P :: "('w, 'd) prom_ops"
    and reg :: "'w \<Rightarrow> string \<times> (string \<times> string) list \<Rightarrow> nat option"
    and val :: "'w \<Rightarrow> nat \<Rightarrow> nat"
  assumes add_new: "reg w nl = None \<Longrightarrow> p_add P (fst nl) (snd nl) w = (Inr c, w') \<Longrightarrow>
      c \<notin> ran (reg w) \<and> reg w' = (reg w)(nl \<mapsto> c) \<and> val w' = (val w)(c := 0)"
    and add_fails: "p_add P n l w = (Inl e, w') \<Longrightarrow> reg w' = reg w \<and> val w' = val w"
    and inc_reg: "reg (p_inc P c v w) = reg w"
    and inc_val: "val (p_inc P c v w) = (val w)(c := val w c + unat v)"

text \<open>A metric whose name and label names have neither separator, nor its label values a bar.\<close>

definition clean_metric :: "string \<Rightarrow> (string \<times> string) list \<Rightarrow> bool" where
  "clean_metric name labels \<longleftrightarrow> CHR ''|'' \<notin> set name \<and>
     (\<forall>(k, v) \<in> set labels. CHR ''|'' \<notin> set k \<and> CHR ''='' \<notin> set k \<and> CHR ''|'' \<notin> set v)"

lemma split_at:
  assumes "c \<notin> set xs" "c \<notin> set ys" "xs @ c # us = ys @ c # vs"
  shows "xs = ys \<and> us = vs"
  using assms
  by (induction xs arbitrary: ys) (auto simp: Cons_eq_append_conv append_eq_Cons_conv)

lemma bar_split:
  assumes "CHR ''|'' \<notin> set xs" "CHR ''|'' \<notin> set ys" and eq: "xs @ label_text ls = ys @ label_text ms"
  shows "xs = ys \<and> label_text ls = label_text ms"
proof -
  have head: "takeWhile (\<lambda>c. c \<noteq> CHR ''|'') (zs @ label_text ns) = zs" if "CHR ''|'' \<notin> set zs" for zs ns
    using that by (cases ns rule: label_text.cases) (auto simp: takeWhile_append takeWhile_eq_all_conv)
  have "xs = ys" using head [OF assms(1), of ls] head [OF assms(2), of ms] unfolding eq by simp
  with eq show ?thesis by simp
qed

lemma label_text_inj:
  "label_text ls = label_text ms \<Longrightarrow> clean_metric [] ls \<Longrightarrow> clean_metric [] ms \<Longrightarrow> ls = ms"
proof (induction ls arbitrary: ms rule: label_text.induct)
  case 1
  then show ?case by (cases ms rule: label_text.cases) auto
next
  case (2 k v ls)
  from 2(2) obtain k' v' ms' where ms: "ms = (k', v') # ms'" by (cases ms rule: label_text.cases) auto
  have "k @ CHR ''='' # v @ label_text ls = k' @ CHR ''='' # v' @ label_text ms'"
    using 2(2) by (simp add: ms)
  then have k: "k = k'" and rest: "v @ label_text ls = v' @ label_text ms'"
    using split_at [of "CHR ''=''" k k'] 2(3,4) by (auto simp: clean_metric_def ms)
  have "v = v' \<and> label_text ls = label_text ms'"
    using bar_split [OF _ _ rest] 2(3,4) by (auto simp: clean_metric_def ms)
  with k 2 show ?case by (auto simp: clean_metric_def ms)
qed

lemma makeKey_inj:
  assumes "clean_metric n l" "clean_metric n' l'"
  shows "makeKey n l = makeKey n' l' \<longleftrightarrow> n = n' \<and> l = l'"
proof
  assume "makeKey n l = makeKey n' l'"
  then have "n = n'" "label_text l = label_text l'"
    using bar_split [of n n' l l'] assms by (auto simp: makeKey_def clean_metric_def)
  then show "n = n' \<and> l = l'"
    using label_text_inj [of l l'] assms by (auto simp: clean_metric_def)
qed simp

text \<open>The subscriber's calls, one increment after the other.\<close>

fun increments :: "('w, 'd) prom_ops \<Rightarrow> (string \<times> (string \<times> string) list \<times> 'd) list \<Rightarrow> (unit, 'w Monitor) st" where
  "increments P [] = st_ret ()"
| "increments P ((n, l, v) # es) = st_bind (incrementCounter P n l v) (\<lambda>_. increments P es)"

definition metric_total :: "('w, 'd) prom_ops \<Rightarrow> (string \<times> (string \<times> string) list \<times> 'd) list \<Rightarrow>
    string \<Rightarrow> (string \<times> string) list \<Rightarrow> nat" where
  "metric_total P es n l = sum_list (map (\<lambda>(n', l', v). if n' = n \<and> l' = l then unat (p_u64 P v) else 0) es)"

text \<open>
  What the counter cache must satisfy over a registry: it knows exactly the registry's counters
  of clean metrics, and no counter serves two metrics; and the value of a metric.
\<close>

definition mon_ok :: "('w \<Rightarrow> string \<times> (string \<times> string) list \<Rightarrow> nat option) \<Rightarrow> 'w Monitor \<Rightarrow> bool" where
  "mon_ok reg s \<longleftrightarrow> (\<forall>n l. clean_metric n l \<longrightarrow> map_of (counters s) (makeKey n l) = reg (mon_registry s) (n, l)) \<and>
     inj_on (reg (mon_registry s)) (dom (reg (mon_registry s)))"

definition value_of :: "('w \<Rightarrow> string \<times> (string \<times> string) list \<Rightarrow> nat option) \<Rightarrow> ('w \<Rightarrow> nat \<Rightarrow> nat) \<Rightarrow>
    'w Monitor \<Rightarrow> string \<Rightarrow> (string \<times> string) list \<Rightarrow> nat" where
  "value_of reg val s n l = (case reg (mon_registry s) (n, l) of None \<Rightarrow> 0 | Some c \<Rightarrow> val (mon_registry s) c)"

context prom_registry
begin

lemma increment_one:
  assumes ok: "mon_ok reg s" and c: "clean_metric n l" and run: "incrementCounter P n l v s = (Inr (), s')"
  shows "mon_ok reg s'" "clean_metric n' l' \<Longrightarrow>
    value_of reg val s' n' l' = value_of reg val s n' l' + (if n = n' \<and> l = l' then unat (p_u64 P v) else 0)"
proof -
  have key: "map_of (counters s) (makeKey n l) = reg (mon_registry s) (n, l)"
    using ok c by (simp add: mon_ok_def)
  have inj: "inj_on (reg (mon_registry s)) (dom (reg (mon_registry s)))" using ok by (simp add: mon_ok_def)
  have "mon_ok reg s' \<and> (clean_metric n' l' \<longrightarrow>
    value_of reg val s' n' l' = value_of reg val s n' l' + (if n = n' \<and> l = l' then unat (p_u64 P v) else 0))"
  proof (cases "reg (mon_registry s) (n, l)")
    case (Some c)
    then have s': "s' = s\<lparr>mon_registry := p_inc P c (p_u64 P v) (mon_registry s)\<rparr>"
      using run key by (simp add: incrementCounter_def Let_def split: if_splits)
    have "reg (mon_registry s) (n', l') = Some c \<Longrightarrow> (n', l') = (n, l)"
      using inj_onD [OF inj, of "(n', l')" "(n, l)"] Some by (auto intro: domI)
    then show ?thesis
      using ok Some by (auto simp: s' mon_ok_def value_of_def inc_reg inc_val split: option.split)
  next
    case None
    then obtain c w where add: "p_add P n l (mon_registry s) = (Inr c, w)" and
      s': "s' = s\<lparr>mon_registry := p_inc P c (p_u64 P v) w, counters := (makeKey n l, c) # counters s\<rparr>"
      using run key by (auto simp: incrementCounter_def Let_def split: if_splits prod.splits sum.splits)
    from add_new [of "mon_registry s" "(n, l)" c w] None add
    have w: "c \<notin> ran (reg (mon_registry s))" "reg w = (reg (mon_registry s))((n, l) \<mapsto> c)" "val w = (val (mon_registry s))(c := 0)"
      by auto
    have "inj_on (reg w) (dom (reg w))"
      using inj w(1) unfolding w(2) by (auto simp: inj_on_def ran_def dom_def)
    moreover have "clean_metric m k \<Longrightarrow> map_of (counters s') (makeKey m k) = reg w (m, k)" for m k
      using ok makeKey_inj [OF _ c, of m k] by (auto simp: s' mon_ok_def w(2))
    moreover have "reg (mon_registry s) (n', l') \<noteq> Some c" using w(1) by (auto simp: ran_def)
    ultimately show ?thesis
      using None by (auto simp: s' mon_ok_def value_of_def inc_reg inc_val w(2,3) split: option.split)
  qed
  then show "mon_ok reg s'" "clean_metric n' l' \<Longrightarrow>
    value_of reg val s' n' l' = value_of reg val s n' l' + (if n = n' \<and> l = l' then unat (p_u64 P v) else 0)" by auto
qed

lemma increments_ok:
  assumes "mon_ok reg s" "\<forall>(n, l, v) \<in> set es. clean_metric n l" "increments P es s = (Inr (), s')"
  shows "mon_ok reg s'"
  using assms
proof (induction es arbitrary: s)
  case Nil
  then show ?case by (simp add: st_ret_def)
next
  case (Cons e es)
  obtain m k v where e: "e = (m, k, v)" by (cases e)
  from Cons.prems(3) obtain s1 where s1: "incrementCounter P m k v s = (Inr (), s1)" "increments P es s1 = (Inr (), s')"
    by (auto simp: e st_bind_Inr_iff)
  have "clean_metric m k" using Cons.prems(2) by (simp add: e)
  from increment_one(1) [OF Cons.prems(1) this s1(1)] Cons.IH [OF _ _ s1(2)] Cons.prems(2)
  show ?case by auto
qed

lemma increments_total:
  assumes "mon_ok reg s" "\<forall>(n, l, v) \<in> set es. clean_metric n l" "increments P es s = (Inr (), s')" "clean_metric n l"
  shows "value_of reg val s' n l = value_of reg val s n l + metric_total P es n l"
  using assms
proof (induction es arbitrary: s)
  case Nil
  then show ?case by (simp add: st_ret_def metric_total_def)
next
  case (Cons e es)
  obtain m k v where e: "e = (m, k, v)" by (cases e)
  from Cons.prems(3) obtain s1 where s1: "incrementCounter P m k v s = (Inr (), s1)" "increments P es s1 = (Inr (), s')"
    by (auto simp: e st_bind_Inr_iff)
  have "clean_metric m k" using Cons.prems(2) by (simp add: e)
  from increment_one [OF Cons.prems(1) this s1(1)] Cons.IH [OF _ _ s1(2)] Cons.prems(2,4)
  show ?case by (auto simp: e metric_total_def)
qed

end

section \<open>What a status adds to the counters\<close>

text \<open>The increments a published status asks for, when all of it converts.\<close>

definition event_of :: "'j json_ops \<Rightarrow> ('j, 'd) num_ops \<Rightarrow> 'd KernelData \<Rightarrow> 'j \<Rightarrow>
    (string \<times> (string \<times> string) list \<times> 'd) res" where
  "event_of J N kd0 elem =
     res_bind (KernelData_from_json J N elem kd0) (\<lambda>e. Inr (kd_name e, kd_labels e, kd_value e))"

definition status_events :: "'j json_ops \<Rightarrow> ('j, 'd) num_ops \<Rightarrow> 'd KernelData \<Rightarrow> 'j \<Rightarrow>
    (string \<times> (string \<times> string) list \<times> 'd) list res" where
  "status_events J N kd0 status =
     res_bind (Metrics_from_json J status \<lparr>met_service = [], met_metrics = []\<rparr>) (\<lambda>metrics.
     res_map (event_of J N kd0) (met_metrics metrics))"

lemma consume_elem_increments:
  assumes "event_of J N kd0 elem = Inr (n, l, v)"
  shows "consume_elem J N P kd0 elem (Some s) = (fst (incrementCounter P n l v s), Some (snd (incrementCounter P n l v s)))"
  using assms by (auto simp: event_of_def consume_elem_def res_bind_Inr_iff split: prod.split)

lemma consume_each_increments:
  "res_map (event_of J N kd0) elems = Inr es \<Longrightarrow>
   st_each (consume_elem J N P kd0) elems (Some s) = (fst (increments P es s), Some (snd (increments P es s)))"
proof (induction elems arbitrary: es s)
  case Nil
  then show ?case by (simp add: st_ret_def)
next
  case (Cons elem elems)
  then obtain n l v es' where "event_of J N kd0 elem = Inr (n, l, v)" "es = (n, l, v) # es'"
    "res_map (event_of J N kd0) elems = Inr es'"
    by (auto simp: res_bind_Inr_iff)
  with Cons.IH show ?case
    by (simp add: consume_elem_increments st_bind_def split: prod.split sum.split)
qed

lemma consume_status_increments:
  assumes "status_events J N kd0 status = Inr es"
  shows "consume_status J N P kd0 status (Some s) = (fst (increments P es s), Some (snd (increments P es s)))"
  using assms consume_each_increments [of J N kd0 _ es P s]
  by (auto simp: status_events_def consume_status_def res_bind_Inr_iff st_simps)

text \<open>
  Counters count. A published status that converts, all of whose metrics have clean names and
  labels, and that the consumer takes to its end, raises every clean metric by exactly the sum of the
  values the status gives it, truncated to whole numbers each: metrics never mix, one counter is
  registered per metric however often it occurs, and the counter cache stays in step with the registry.
\<close>

theorem status_is_counted:
  assumes "prom_registry P reg val" and "mon_ok reg s" and "status_events J N kd0 status = Inr es"
    and "\<forall>(n', l', v) \<in> set es. clean_metric n' l'"
    and "consume_status J N P kd0 status (Some s) = (Inr (), t)" and "clean_metric n l"
  shows "\<exists>s'. t = Some s' \<and> value_of reg val s' n l = value_of reg val s n l + metric_total P es n l"
proof -
  obtain s' where run: "increments P es s = (Inr (), s')" "t = Some s'"
    using assms(5) by (auto simp: consume_status_increments [OF assms(3)] prod_eq_iff)
  from prom_registry.increments_total [OF assms(1,2,4) run(1) assms(6)] run(2) show ?thesis by simp
qed

text \<open>
  Two metrics whose keys collide share a counter. A label value may hold a bar, which is also
  the separator of the key: with the first metric known, the second is never registered, and what
  is meant for it is added to the first one's counter.
\<close>

theorem colliding_labels_share_a_counter:
  assumes "map_of (counters s) (makeKey n [(x, v @ ''|'' @ y @ ''='' @ z)]) = Some c" and "n \<noteq> []"
  shows "incrementCounter P n [(x, v), (y, z)] value s =
           (Inr (), s\<lparr>mon_registry := p_inc P c (p_u64 P value) (mon_registry s)\<rparr>) \<and>
         [(x, v), (y, z)] \<noteq> [(x, v @ ''|'' @ y @ ''='' @ z)]"
proof -
  have "makeKey n [(x, v), (y, z)] = makeKey n [(x, v @ ''|'' @ y @ ''='' @ z)]"
    by (simp add: makeKey_def)
  then show ?thesis using assms by (auto simp: incrementCounter_def Let_def makeKey_def)
qed

subsection \<open>A reference registry\<close>

text \<open>The metrics registered so far, a counter being the position of its metric, and the values.\<close>

type_synonym registry = "(string \<times> (string \<times> string) list) list \<times> (nat \<Rightarrow> nat)"

definition ref_reg :: "registry \<Rightarrow> string \<times> (string \<times> string) list \<Rightarrow> nat option" where
  "ref_reg w = map_of (zip (fst w) [0..<length (fst w)])"

definition ref_prom :: "(registry, u16) prom_ops" where
  "ref_prom =
     \<lparr>p_add = (\<lambda>n l w. case ref_reg w (n, l) of
        Some c \<Rightarrow> (Inr c, w)
      | None \<Rightarrow> (Inr (length (fst w)), (fst w @ [(n, l)], (snd w)(length (fst w) := 0)))),
      p_inc = (\<lambda>c v w. (fst w, (snd w)(c := snd w c + unat v))), p_u64 = ucast\<rparr>"

lemma ref_reg_new:
  assumes "ref_reg (ns, v) nl = None"
  shows "ref_reg (ns @ [nl], v') = (ref_reg (ns, v))(nl \<mapsto> length ns)" "length ns \<notin> ran (ref_reg (ns, v))"
  using assms
  by (auto simp: ref_reg_def map_add_def fun_eq_iff ran_def simp del: map_of_zip_is_None
      dest!: map_of_SomeD set_zip_rightD split: option.split)

interpretation refprom: prom_registry ref_prom ref_reg snd
proof
  fix w :: registry and nl c w'
  assume new: "ref_reg w nl = None" and add: "p_add ref_prom (fst nl) (snd nl) w = (Inr c, w')"
  obtain ns v where w: "w = (ns, v)" by (cases w)
  from new add have "c = length ns" "w' = (ns @ [nl], v(length ns := 0))"
    by (auto simp: w ref_prom_def)
  then show "c \<notin> ran (ref_reg w) \<and> ref_reg w' = (ref_reg w)(nl \<mapsto> c) \<and> snd w' = (snd w)(c := 0)"
    using ref_reg_new [of ns v nl] new by (simp add: w)
qed (auto simp: ref_prom_def ref_reg_def split: option.splits)

section \<open>The payloads survive their JSON\<close>

text \<open>What the conversions of numbers and label maps promise.\<close>

locale payload_lib = json_lib J for J :: "'j json_ops" +
  fixes N :: "('j, 'd) num_ops"
  assumes get_double: "j_get_double N (j_double N d) = Inr d"
    and get_labels: "j_get_labels N (j_labels N l) = Inr l"
begin

lemma kernel_data_roundtrip: "KernelData_from_json J N (KernelData_to_json J N e) e0 = Inr e"
  by (simp add: KernelData_from_json_def KernelData_to_json_def field_present string_str get_double get_labels)

lemma metrics_roundtrip: "Metrics_from_json J (Metrics_to_json J m) m0 = Inr m"
  by (simp add: Metrics_from_json_def Metrics_to_json_def field_present string_str array_arr)

lemma status_events_of:
  "status_events J N kd0 (Metrics_to_json J \<lparr>met_service = x, met_metrics = map (KernelData_to_json J N) es\<rparr>) =
     Inr (map (\<lambda>e. (kd_name e, kd_labels e, kd_value e)) es)"
proof -
  have "res_map (event_of J N kd0) (map (KernelData_to_json J N) es) = Inr (map (\<lambda>e. (kd_name e, kd_labels e, kd_value e)) es)"
    by (induction es) (simp_all add: event_of_def kernel_data_roundtrip)
  then show ?thesis by (simp add: status_events_def metrics_roundtrip)
qed

end

text \<open>Numbers and label maps over the reference JSON values.\<close>

fun json_labels :: "json \<Rightarrow> (string \<times> string) list res" where
  "json_labels (JObj kvs) = res_map (\<lambda>(k, j). res_bind (json_string j) (\<lambda>s. Inr (k, s))) kvs"
| "json_labels _ = Inl (StdError ''type_error'')"

definition ref_num :: "(json, u16) num_ops" where
  "ref_num = \<lparr>j_get_double = json_u16, j_get_labels = json_labels, j_double = JU16,
     j_labels = (\<lambda>l. JObj (map (\<lambda>(k, v). (k, JStr v)) l))\<rparr>"

lemma json_labels_of: "res_map (\<lambda>(k, j). res_bind (json_string j) (\<lambda>s. Inr (k, s))) (map (\<lambda>(k, v). (k, JStr v)) l) = Inr l"
  by (induction l) auto

interpretation refpay: payload_lib ref_json ref_num
  by unfold_locales (simp_all add: ref_num_def json_labels_of)

definition demo_event :: "string \<Rightarrow> u16 \<Rightarrow> json" where
  "demo_event user n = KernelData_to_json ref_json ref_num
     \<lparr>kd_name = ''exec'', kd_value = n, kd_labels = [(''user'', user)]\<rparr>"

definition demo_status :: json where
  "demo_status = Metrics_to_json ref_json
     \<lparr>met_service = ''hello'', met_metrics = [demo_event ''root'' 2, demo_event ''ann'' 5, demo_event ''root'' 3]\<rparr>"

definition demo_mon :: "registry Monitor" where
  "demo_mon = \<lparr>mon_registry = ([], \<lambda>_. 0), counters = []\<rparr>"

definition demo_kd :: "u16 KernelData" where
  "demo_kd = \<lparr>kd_name = [], kd_value = 0, kd_labels = []\<rparr>"

theorem status_is_counted_witness:
  "\<exists>s'. snd (consume_status ref_json ref_num ref_prom demo_kd demo_status (Some demo_mon)) = Some s' \<and>
     value_of ref_reg snd s' ''exec'' [(''user'', ''root'')] = 5"
proof -
  have ok: "fst (consume_status ref_json ref_num ref_prom demo_kd demo_status (Some demo_mon)) = Inr ()" by code_simp
  obtain t where run: "consume_status ref_json ref_num ref_prom demo_kd demo_status (Some demo_mon) = (Inr (), t)"
    using ok by (metis prod.collapse)
  let ?es = "[(''exec'', [(''user'', ''root'')], 2), (''exec'', [(''user'', ''ann'')], 5),
              (''exec'', [(''user'', ''root'')], 3)] :: (string \<times> (string \<times> string) list \<times> u16) list"
  have es: "status_events ref_json ref_num demo_kd demo_status = Inr ?es" by code_simp
  have mon: "mon_ok ref_reg demo_mon" by (simp add: mon_ok_def demo_mon_def ref_reg_def)
  have clean: "\<forall>(n', l', v) \<in> set ?es. clean_metric n' l'" "clean_metric ''exec'' [(''user'', ''root'')]"
    by (simp_all add: clean_metric_def)
  have total: "metric_total ref_prom ?es ''exec'' [(''user'', ''root'')] = 5"
    "value_of ref_reg snd demo_mon ''exec'' [(''user'', ''root'')] = 0" by code_simp+
  from status_is_counted [OF refprom.prom_registry_axioms mon es clean(1) run clean(2)] total
  show ?thesis by (simp add: run)
qed

theorem colliding_labels_share_a_counter_witness:
  "snd (incrementCounter ref_prom ''m'' [(''a'', ''1''), (''b'', ''2'')] 7
     \<lparr>mon_registry = ([(''m'', [(''a'', ''1|b=2'')])], \<lambda>_. 0), counters = [(''m|a=1|b=2'', 0)]\<rparr>) =
   \<lparr>mon_registry = ([(''m'', [(''a'', ''1|b=2'')])], (\<lambda>_. 0)(0 := 7)), counters = [(''m|a=1|b=2'', 0)]\<rparr>"
  using colliding_labels_share_a_counter [of "\<lparr>mon_registry = ([(''m'', [(''a'', ''1|b=2'')])], \<lambda>_. 0), counters = [(''m|a=1|b=2'', 0)]\<rparr>"
      "''m''" "''a''" "''1''" "''b''" "''2''" 0 ref_prom 7]
  by (simp add: makeKey_def ref_prom_def)

end
