(* ===== verification/Ringbuffer.thy ===== *)
theory Ringbuffer
  imports Pinned_Map
begin

text \<open>
  \<^verbatim>\<open>src/ebpf/ringbuffer.cc\<close> and \<^verbatim>\<open>pinned_ringbuffer_map.cc\<close>: a ring buffer of kernel events wired to the
  I/O thread, and the pinned map behind one. Objects live at addresses, because both libbpf and the I/O
  thread keep the address of the object that registered with them. The new kernel calls extend
  \<open>fs_ops\<close>.
\<close>

section \<open>Calls\<close>

text \<open>
  \<open>rb_new\<close> is \<^verbatim>\<open>ring_buffer__new\<close> with the map's descriptor and the context it hands to the callback,
  \<open>rb_take\<close> the samples \<^verbatim>\<open>ring_buffer__consume\<close> finds; \<open>io_lock\<close> tells whether the I/O module is
  alive, \<open>io_add\<close> registers a read callback that captures an address and gives the watcher.
\<close>

record 'w rb_ops = "'w fs_ops" +
  fs_enoent :: "'w \<Rightarrow> bool"
  fs_create_ringbuf :: "'w \<Rightarrow> string \<Rightarrow> u64 \<Rightarrow> int \<times> 'w"
  rb_new :: "'w \<Rightarrow> int \<Rightarrow> nat \<Rightarrow> nat option \<times> 'w"
  rb_free :: "'w \<Rightarrow> nat \<Rightarrow> 'w"
  rb_take :: "'w \<Rightarrow> nat \<Rightarrow> string list \<times> 'w"
  io_lock :: "'w \<Rightarrow> nat option \<Rightarrow> bool"
  io_add :: "'w \<Rightarrow> int \<Rightarrow> nat \<Rightarrow> nat \<times> 'w"
  io_del :: "'w \<Rightarrow> nat \<Rightarrow> 'w"

section \<open>Ringbuffer\<close>

text \<open>
  The handle of libbpf carries the context address, the watcher the captured one; a callback is a
  value of an unknown type, null by default.
\<close>

record 'c Ringbuffer =
  rb_fd :: "int option"
  rb_ring :: "(nat \<times> nat) option"
  rb_callback :: "'c option"
  rb_watcher :: "(nat \<times> nat) option"
  rb_io :: "nat option"

definition Ringbuffer_new :: "int option \<Rightarrow> nat option \<Rightarrow> 'c option \<Rightarrow> 'c Ringbuffer" where
  "Ringbuffer_new fd io callback =
     \<lparr>rb_fd = fd, rb_ring = None, rb_callback = callback, rb_watcher = None, rb_io = io\<rparr>"

definition rb_emptied :: "'c Ringbuffer" where
  "rb_emptied = \<lparr>rb_fd = None, rb_ring = None, rb_callback = None, rb_watcher = None, rb_io = None\<rparr>"

text \<open>What the members' destructors do, in reverse order of declaration.\<close>

definition Ringbuffer_destroy :: "('w, 'z) rb_ops_scheme \<Rightarrow> 'c Ringbuffer \<Rightarrow> 'w \<Rightarrow> 'w" where
  "Ringbuffer_destroy F rb w0 =
     (let w1 = (case rb_watcher rb of None \<Rightarrow> w0 | Some (t, a) \<Rightarrow> io_del F w0 t);
          w2 = (case rb_ring rb of None \<Rightarrow> w1 | Some (r, c) \<Rightarrow> rb_free F w1 r)
      in case rb_fd rb of None \<Rightarrow> w2 | Some fd \<Rightarrow> if fd \<noteq> FD_INVALID then fs_close F w2 fd else w2)"

text \<open>The moved-from object is emptied; a move assignment first lets go of what the target had.\<close>

definition Ringbuffer_move :: "'c Ringbuffer \<Rightarrow> 'c Ringbuffer \<times> 'c Ringbuffer" where
  "Ringbuffer_move other = (other, rb_emptied)"

definition Ringbuffer_move_assign :: "('w, 'z) rb_ops_scheme \<Rightarrow> bool \<Rightarrow> 'c Ringbuffer \<Rightarrow> 'c Ringbuffer \<Rightarrow> 'w \<Rightarrow>
    ('c Ringbuffer \<times> 'c Ringbuffer) \<times> 'w" where
  "Ringbuffer_move_assign F same this other w0 =
     (if same then ((this, other), w0)
      else
        let w1 = (case rb_fd this of None \<Rightarrow> w0 | Some fd \<Rightarrow> if fd \<noteq> FD_INVALID then fs_close F w0 fd else w0);
            w2 = (case rb_ring this of None \<Rightarrow> w1 | Some (r, c) \<Rightarrow> rb_free F w1 r);
            w3 = (case rb_watcher this of None \<Rightarrow> w2 | Some (t, a) \<Rightarrow> io_del F w2 t)
        in ((other, rb_emptied), w3))"

text \<open>\<open>this\<close> is the address of the object.\<close>

definition Ringbuffer_init :: "('w, 'z) rb_ops_scheme \<Rightarrow> nat \<Rightarrow> (unit, 'c Ringbuffer \<times> 'w) st" where
  "Ringbuffer_init F this s =
     (case s of (rb, w0) \<Rightarrow>
        case rb_fd rb of
          None \<Rightarrow> (Inl (Except ''MUST provide a eBPF program fd''), s)
        | Some fd \<Rightarrow>
            if fd = FD_INVALID then (Inl (Except ''MUST provide a eBPF program fd''), s)
            else
              let (ring, w1) = rb_new F w0 fd this;
                  w2 = (case rb_ring rb of None \<Rightarrow> w1 | Some (r, c) \<Rightarrow> rb_free F w1 r);
                  rb1 = rb\<lparr>rb_ring := map_option (\<lambda>r. (r, this)) ring\<rparr>
              in if ring = None then (Inl (Except ''ring_buffer__new() failed''), rb1, w2)
                 else if \<not> io_lock F w2 (rb_io rb) then (Inl (Except ''MUST provide a io context''), rb1, w2)
                 else
                   let (t, w3) = io_add F w2 fd this;
                       w4 = (case rb_watcher rb of None \<Rightarrow> w3 | Some (t', a) \<Rightarrow> io_del F w3 t')
                   in (Inr (), rb1\<lparr>rb_watcher := Some (t, this)\<rparr>, w4))"

text \<open>
  \<^verbatim>\<open>consume\<close> on the object at an address: each sample goes to the callback of the object at the context
  address, if that has one. The result lists the calls.
\<close>

definition Ringbuffer_consume :: "('w, 'z) rb_ops_scheme \<Rightarrow> (nat \<Rightarrow> 'c Ringbuffer) \<Rightarrow> nat \<Rightarrow> 'w \<Rightarrow>
    ('c \<times> string) list \<times> 'w" where
  "Ringbuffer_consume F store this w =
     (case rb_ring (store this) of
        None \<Rightarrow> ([], w)
      | Some (r, ctx) \<Rightarrow>
          (case rb_take F w r of
             (samples, w') \<Rightarrow>
               ((case rb_callback (store ctx) of None \<Rightarrow> [] | Some cb \<Rightarrow> map (\<lambda>x. (cb, x)) samples), w')))"

text \<open>
  A move leaves the I/O thread and libbpf with the old address: the moved buffer still has its
  callback, and no event reaches it any more.
\<close>

lemma moved_ringbuffer_is_deaf:
  assumes "rb_watcher (store a) = Some (t, a)" and "a \<noteq> b"
  shows "Ringbuffer_consume F (store(a := snd (Ringbuffer_move (store a)), b := fst (Ringbuffer_move (store a)))) a w =
           ([], w)"
  using assms by (simp add: Ringbuffer_consume_def Ringbuffer_move_def rb_emptied_def)

section \<open>RingBufferMap\<close>

record 'w RingBufferMap = "'w PinnedMapIf" +
  rm_pin_path :: string
  rm_name :: string
  rm_size :: u64
  rm_fd :: int
  rm_initialized :: bool

definition RingBufferMap_new :: "'w \<Rightarrow> int \<Rightarrow> bool \<Rightarrow> bool \<Rightarrow> string \<Rightarrow> 'w RingBufferMap" where
  "RingBufferMap_new w refcnt flag ours pin_path =
     \<lparr>pm_kernel = w, g_mount_refcnt = refcnt, g_mount_init_flag = flag, g_mounted_by_us = ours,
      rm_pin_path = pin_path, rm_name = [], rm_size = 0, rm_fd = -1, rm_initialized = False\<rparr>"

definition setMapSize :: "u64 \<Rightarrow> 'w RingBufferMap \<Rightarrow> 'w RingBufferMap" where
  "setMapSize n s = s\<lparr>rm_size := n\<rparr>"

definition setMapName :: "string \<Rightarrow> 'w RingBufferMap \<Rightarrow> 'w RingBufferMap" where
  "setMapName name s = s\<lparr>rm_name := name\<rparr>"

text \<open>Open the pinned map, or create and pin it.\<close>

definition open_or_create :: "build \<Rightarrow> ('w, 'z) rb_ops_scheme \<Rightarrow> (bool, 'w RingBufferMap) st" where
  "open_or_create b F s =
     (let (fd, w) = fs_obj_get F (pm_kernel s) (rm_pin_path s)
      in if fd \<ge> 0 then (Inr True, s\<lparr>rm_fd := fd, pm_kernel := w\<rparr>)
         else if \<not> fs_enoent F w then (Inr False, s\<lparr>rm_fd := fd, pm_kernel := w\<rparr>)
         else let (fd', w') = fs_create_ringbuf F w (rm_name s) (rm_size s)
         in if fd' < 0 then (Inr False, s\<lparr>rm_fd := fd', pm_kernel := w'\<rparr>)
         else let (ok, w'') = fs_obj_pin F w' fd' (rm_pin_path s)
         in if ok then (Inr True, s\<lparr>rm_fd := fd', pm_kernel := w''\<rparr>)
            else (Inr False, s\<lparr>rm_fd := -1, pm_kernel := fs_close F w'' fd'\<rparr>))"


definition RingBufferMap_init :: "build \<Rightarrow> ('w, 'z) rb_ops_scheme \<Rightarrow> (bool, 'w RingBufferMap) st" where
  "RingBufferMap_init b F =
     st_bind (st_assert b (\<lambda>s. rm_pin_path s \<noteq> [])) (\<lambda>_.
     st_bind (st_assert b (\<lambda>s. rm_name s \<noteq> [])) (\<lambda>_.
     st_bind (st_assert b (\<lambda>s. rm_size s > 0)) (\<lambda>_.
     st_bind (ensureBpffsMounted (fs_ops.truncate F)) (\<lambda>_.
     st_bind (open_or_create b F) (\<lambda>ok.
     if \<not> ok then st_ret False
     else
       st_bind (st_assert b (\<lambda>s. rm_fd s > 0)) (\<lambda>_.
       st_bind (st_mod (\<lambda>s. s\<lparr>rm_initialized := True\<rparr>)) (\<lambda>_.
       st_ret True)))))))"

definition RingBufferMap_cleanup :: "('w, 'z) rb_ops_scheme \<Rightarrow> 'w RingBufferMap \<Rightarrow> 'w RingBufferMap" where
  "RingBufferMap_cleanup F s0 =
     (let s1 = (if rm_fd s0 \<ge> 0 then s0\<lparr>pm_kernel := fs_close F (pm_kernel s0) (rm_fd s0), rm_fd := -1\<rparr> else s0);
          s2 = (if rm_pin_path s1 \<noteq> [] then s1\<lparr>pm_kernel := fs_unlink F (pm_kernel s1) (rm_pin_path s1)\<rparr> else s1)
      in s2\<lparr>rm_initialized := False\<rparr>)"

definition rm_getDebugStatus :: "('j, 'w RingBufferMap) st" where
  "rm_getDebugStatus = st_throw (Except ''not implemented'')"

text \<open>
  The new ring buffer owns the same descriptor as the map. When its \<^verbatim>\<open>init\<close> throws it is destroyed,
  descriptor included; the map keeps the number.
\<close>

definition new_ring :: "('w, 'z) rb_ops_scheme \<Rightarrow> nat \<Rightarrow> nat option \<Rightarrow> 'c option \<Rightarrow>
    ('c Ringbuffer, 'w RingBufferMap) st" where
  "new_ring F addr io callback s =
     (case Ringbuffer_init F addr (Ringbuffer_new (Some (rm_fd s)) io callback, pm_kernel s) of
        (r, rb, w) \<Rightarrow>
          (case r of
             Inl e \<Rightarrow> (Inl e, s\<lparr>pm_kernel := Ringbuffer_destroy F rb w\<rparr>)
           | Inr _ \<Rightarrow> (Inr rb, s\<lparr>pm_kernel := w\<rparr>)))"

definition getRingbuffer :: "build \<Rightarrow> ('w, 'z) rb_ops_scheme \<Rightarrow> nat \<Rightarrow> nat option \<Rightarrow> 'c option \<Rightarrow>
    ('c Ringbuffer, 'w RingBufferMap) st" where
  "getRingbuffer b F addr io callback =
     st_bind (st_get rm_initialized) (\<lambda>ready.
     st_bind (if ready then st_ret True else RingBufferMap_init b F) (\<lambda>ok.
     if \<not> ok then st_throw (Except ''Object initialization failed'')
     else new_ring F addr io callback))"

section \<open>One descriptor, two owners\<close>

lemma cleanup_never_releases:
  "g_mount_refcnt (RingBufferMap_cleanup F s) = g_mount_refcnt s"
  by (simp add: RingBufferMap_cleanup_def Let_def)

lemma Ringbuffer_init_fd: "Ringbuffer_init F this (rb, w) = (r, rb', w') \<Longrightarrow> rb_fd rb' = rb_fd rb"
  by (auto simp: Ringbuffer_init_def Let_def split: option.splits if_splits prod.splits)

lemma new_ring_fd:
  "new_ring F addr io callback s = (Inr rb, s') \<Longrightarrow> rb_fd rb = Some (rm_fd s') \<and> rm_fd s' \<noteq> FD_INVALID"
  by (auto simp: new_ring_def Ringbuffer_new_def dest: Ringbuffer_init_fd split: prod.splits sum.splits)
    (auto simp: Ringbuffer_init_def)

lemma getRingbuffer_fd:
  "getRingbuffer b F addr io callback s = (Inr rb, s') \<Longrightarrow> rb_fd rb = Some (rm_fd s') \<and> rm_fd s' \<noteq> FD_INVALID"
  by (auto simp: getRingbuffer_def st_bind_Inr_iff st_throw_def split: if_splits dest: new_ring_fd)

lemma open_or_create_fd: "open_or_create b F s = (Inr True, s') \<Longrightarrow> 0 \<le> rm_fd s' \<and> rm_pin_path s' = rm_pin_path s"
  by (auto simp: open_or_create_def Let_def split: if_splits prod.splits)

lemma ensure_keeps [keeps]: "st_keeps rm_pin_path (ensureBpffsMounted G)"
  by (auto simp: st_keeps_def ensureBpffsMounted_def Let_def split: prod.split)

lemma init_fd:
  "RingBufferMap_init b F s = (Inr True, s') \<Longrightarrow> 0 \<le> rm_fd s' \<and> rm_pin_path s' = rm_pin_path s"
  by (auto simp: RingBufferMap_init_def st_bind_Inr_iff st_assert_def st_ret_def st_mod_def split: if_splits
      dest!: open_or_create_fd dest: st_keepsD [OF ensure_keeps])

lemma new_ring_keeps: "new_ring F addr io callback s = (r, s') \<Longrightarrow> rm_fd s' = rm_fd s \<and> rm_pin_path s' = rm_pin_path s"
  by (auto simp: new_ring_def split: prod.splits sum.splits)

lemma getRingbuffer_new:
  assumes "getRingbuffer b F addr io callback s = (Inr rb, s')" and "\<not> rm_initialized s"
  shows "rb_fd rb = Some (rm_fd s') \<and> 0 \<le> rm_fd s' \<and> rm_pin_path s' = rm_pin_path s"
proof -
  obtain s1 where "RingBufferMap_init b F s = (Inr True, s1)" "new_ring F addr io callback s1 = (Inr rb, s')"
    using assms by (auto simp: getRingbuffer_def st_bind_Inr_iff st_throw_def st_get_def split: if_splits)
  with init_fd [of b F s s1] new_ring_fd [of F addr io callback s1 rb s'] new_ring_keeps [of F addr io callback s1 "Inr rb" s']
  show ?thesis by simp
qed

end
