(* ===== verification/Klog.thy ===== *)
theory Klog
  imports Ringbuffer
begin

text \<open>
  \<^verbatim>\<open>src/services/klog/\<close>: the kernel side's log record (klog.bpf.h, klog\_helpers.bpf.h) and the user side's
  formatter (klog.cc). The formatter's 1024 byte buffer is a list of that length; a write outside of it,
  or a read past the end of the sample, is \<open>Crash\<close>.
\<close>

section \<open>The record and the kernel helper\<close>

definition MAX_ARGS_CNT :: nat where "MAX_ARGS_CNT = 10"

text \<open>
  \<open>le_msg\<close> is the flexible array member: every byte of the sample from offset 90 on. The structure
  itself has 96 bytes, so a sample has at least six of them.
\<close>

record log_event =
  le_level :: u16
  le_args :: "u64 list"
  le_msg_len :: u16
  le_msg :: string

definition SIZEOF_LOG_EVENT :: nat where "SIZEOF_LOG_EVENT = 96"
definition OFFSET_MSG :: nat where "OFFSET_MSG = 90"

abbreviation NUL :: char where "NUL \<equiv> CHR 0x00"

text \<open>
  \<open>reserve\<close> is \<^verbatim>\<open>bpf_ringbuf_reserve\<close>: memory of the size asked for with arbitrary content, or
  null. \<open>msg\<close> is a C string: the characters before its terminator. The result is the submitted
  sample and its size.
\<close>

definition bpf_log_event_internal :: "(nat \<Rightarrow> log_event option) \<Rightarrow> u16 \<Rightarrow> string \<Rightarrow> u64 list \<Rightarrow>
    (log_event \<times> nat) option" where
  "bpf_log_event_internal reserve level msg args =
     (let msg_len = of_nat (length msg) :: u16;
          total_size = SIZEOF_LOG_EVENT + unat msg_len + 1
      in case reserve total_size of
           None \<Rightarrow> None
         | Some loge \<Rightarrow>
             Some (loge\<lparr>le_level := level, le_msg_len := msg_len,
                        le_msg := take (unat msg_len) msg @ [NUL] @ drop (unat msg_len + 1) (le_msg loge),
                        le_args := take MAX_ARGS_CNT args @ drop MAX_ARGS_CNT (le_args loge)\<rparr>, total_size))"

text \<open>The macro: the argument array has \<^verbatim>\<open>MAX_ARGS_CNT\<close> elements, the ones not given are zero.\<close>

definition KLOG :: "(nat \<Rightarrow> log_event option) \<Rightarrow> u16 \<Rightarrow> string \<Rightarrow> u64 list \<Rightarrow> (log_event \<times> nat) option" where
  "KLOG reserve level fmt vs =
     bpf_log_event_internal reserve level fmt (vs @ replicate (MAX_ARGS_CNT - length vs) 0)"

section \<open>Texts of the arguments\<close>

text \<open>Digits of a number in a base; the second argument lists the digits.\<close>

fun radix_text :: "nat \<Rightarrow> string \<Rightarrow> nat \<Rightarrow> string" where
  "radix_text b ds n = (if n < b \<or> b < 2 then [ds ! n] else radix_text b ds (n div b) @ [ds ! (n mod b)])"

declare radix_text.simps [simp del]

definition dec_text :: "nat \<Rightarrow> string" where
  "dec_text n = radix_text 10 ''0123456789'' n"

definition signed_text :: "u64 \<Rightarrow> string" where
  "signed_text v = (if sint v < 0 then ''-'' @ dec_text (nat (- sint v)) else dec_text (unat v))"

definition hex_text :: "string \<Rightarrow> u64 \<Rightarrow> string" where
  "hex_text ds v = radix_text 16 ds (unat v)"

text \<open>\<^verbatim>\<open>inet_ntoa\<close>: the four bytes in memory order, the low one first.\<close>

definition inet_ntoa :: "u32 \<Rightarrow> string" where
  "inet_ntoa a =
     dec_text (unat (a AND 255)) @ ''.'' @ dec_text (unat (drop_bit 8 a AND 255)) @ ''.'' @
     dec_text (unat (drop_bit 16 a AND 255)) @ ''.'' @ dec_text (unat (drop_bit 24 a AND 255))"

definition is_spec :: "char \<Rightarrow> bool" where
  "is_spec c \<longleftrightarrow> c \<in> set ''duxXpPA''"

definition spec_text :: "char \<Rightarrow> u64 \<Rightarrow> string" where
  "spec_text spec val =
     (if spec = CHR ''d'' then signed_text val
      else if spec = CHR ''u'' then dec_text (unat val)
      else if spec = CHR ''x'' then hex_text ''0123456789abcdef'' val
      else if spec = CHR ''X'' then hex_text ''0123456789ABCDEF'' val
      else if spec = CHR ''p'' then (if val = 0 then ''(nil)'' else ''0x'' @ hex_text ''0123456789abcdef'' val)
      else if spec = CHR ''P'' then
        (if val = 6 then ''TCP'' else if val = 17 then ''UDP'' else if val = 1 then ''ICMP'' else signed_text val)
      else inet_ntoa (ucast val))"

section \<open>Klog::logEvent\<close>

definition BUF_SIZE :: nat where "BUF_SIZE = 1024"

text \<open>
  \<^verbatim>\<open>snprintf\<close> into the rest of the buffer: as much of the text as fits before a terminator. What it
  returns, and what the position moves by, is the length of the whole text.
\<close>

definition snprintf_at :: "string \<Rightarrow> nat \<Rightarrow> string \<Rightarrow> string" where
  "snprintf_at buf pos t =
     (let t' = take (BUF_SIZE - pos - 1) t in take pos buf @ t' @ [NUL] @ drop (pos + length t' + 1) buf)"

fun format_loop :: "u64 list \<Rightarrow> string \<Rightarrow> nat \<Rightarrow> nat \<Rightarrow> string \<Rightarrow> (string \<times> nat) res" where
  "format_loop args [] pos arg_idx buf = Inl Crash"
| "format_loop args (c # fmt) pos arg_idx buf =
     (if c = NUL \<or> pos \<ge> BUF_SIZE - 1 then Inr (buf, pos)
      else if c \<noteq> CHR ''%'' then format_loop args fmt (pos + 1) arg_idx (buf[pos := c])
      else
        case fmt of
          [] \<Rightarrow> Inl Crash
        | spec # fmt' \<Rightarrow>
            if spec = CHR ''%'' then format_loop args fmt' (pos + 1) arg_idx (buf[pos := CHR ''%''])
            else if is_spec spec then
              if arg_idx \<ge> MAX_ARGS_CNT
              then format_loop args fmt' (pos + length ''<missing>'') arg_idx (snprintf_at buf pos ''<missing>'')
              else
                let t = spec_text spec (args ! arg_idx)
                in format_loop args fmt' (pos + length t) (arg_idx + 1) (snprintf_at buf pos t)
            else format_loop args fmt' (pos + 2) arg_idx (buf[pos := CHR ''%'', pos + 1 := spec]))"

text \<open>The terminator is written at the final position; the log call reads up to the first NUL.\<close>

definition format_msg :: "u64 list \<Rightarrow> string \<Rightarrow> string res" where
  "format_msg args fmt =
     res_bind (format_loop args fmt 0 0 (replicate BUF_SIZE NUL)) (\<lambda>(buf, pos).
     if pos < BUF_SIZE then Inr (takeWhile (\<lambda>c. c \<noteq> NUL) (buf[pos := NUL])) else Inl Crash)"

definition klog_level_name :: "u16 \<Rightarrow> string" where
  "klog_level_name l =
     (if l = 0 then ''trace'' else if l = 1 then ''debug'' else if l = 2 then ''info''
      else if l = 3 then ''warn'' else if l = 4 then ''error'' else if l = 5 then ''critical'' else ''off'')"

text \<open>\<open>threshold\<close> is \<^verbatim>\<open>getLevel()\<close>. The result is the return value and the line that is logged, if any.\<close>

definition logEvent :: "u32 \<Rightarrow> log_event \<Rightarrow> nat \<Rightarrow> (int \<times> (string \<times> string) option) res" where
  "logEvent threshold event len =
     (if len < SIZEOF_LOG_EVENT then Inr (-1, None)
      else if len < OFFSET_MSG then Inr (-1, None)
      else if (ucast (le_level event) :: u32) < threshold then Inr (0, None)
      else res_bind (format_msg (le_args event) (le_msg event)) (\<lambda>msg.
           Inr (0, Some (klog_level_name (le_level event), msg))))"

text \<open>The second size check never fires: a sample shorter than the offset is shorter than the structure.\<close>

lemma second_size_check_is_dead: "len \<ge> SIZEOF_LOG_EVENT \<Longrightarrow> \<not> len < OFFSET_MSG"
  by (simp add: SIZEOF_LOG_EVENT_def OFFSET_MSG_def)

section \<open>Lengths of the texts\<close>

lemma radix_text_length: "2 \<le> b \<Longrightarrow> n < b ^ Suc k \<Longrightarrow> 0 < length (radix_text b ds n) \<and> length (radix_text b ds n) \<le> Suc k"
proof (induction k arbitrary: n)
  case 0
  then show ?case by (subst (1 2) radix_text.simps) simp
next
  case (Suc k)
  have "n div b < b ^ Suc k" using Suc.prems by (simp add: div_less_iff_less_mult mult.commute)
  from Suc.IH [OF Suc.prems(1) this] show ?case by (subst (1 2) radix_text.simps) auto
qed

lemma radix_text_set: "2 \<le> b \<Longrightarrow> b = length ds \<Longrightarrow> set (radix_text b ds n) \<subseteq> set ds"
proof (induction b ds n rule: radix_text.induct)
  case (1 b ds n)
  then have "ds \<noteq> []" by auto
  with 1 show ?case by (subst radix_text.simps) (auto intro: nth_mem)
qed

named_theorems klog_texts \<open>lengths and characters of the formatter's texts\<close>

lemma dec_text_len: "n < 10 ^ Suc k \<Longrightarrow> 0 < length (dec_text n) \<and> length (dec_text n) \<le> Suc k"
  unfolding dec_text_def by (rule radix_text_length) simp_all

lemma dec_text_u64: "n < 2 ^ 64 \<Longrightarrow> 0 < length (dec_text n) \<and> length (dec_text n) \<le> 20"
  using dec_text_len [of n 19] by simp

lemma dec_text_signed: "n \<le> 2 ^ 63 \<Longrightarrow> length (dec_text n) \<le> 19"
  using dec_text_len [of n 18] by simp

lemma dec_text_byte: "length (dec_text (unat ((a :: u32) AND 255))) \<le> 3"
proof -
  have "a AND 255 \<le> 255" by (rule word_and_le1)
  then have "unat (a AND 255) \<le> 255" by (simp add: word_le_nat_alt)
  then show ?thesis using dec_text_len [of "unat (a AND 255)" 2] by simp
qed

lemma unat_u64: "unat (v :: u64) < 2 ^ 64"
  using unsigned_less [of v] by simp

lemma hex_text_len: "length ds = 16 \<Longrightarrow> 0 < length (hex_text ds v) \<and> length (hex_text ds v) \<le> 16"
  unfolding hex_text_def using radix_text_length [of 16 "unat v" 15 ds] unat_u64 [of v] by simp

lemma no_NUL [klog_texts]:
  "NUL \<notin> set (dec_text n)" "NUL \<notin> set (hex_text ''0123456789abcdef'' v)"
  "NUL \<notin> set (hex_text ''0123456789ABCDEF'' v)"
  using radix_text_set [of 10 "''0123456789''" n] radix_text_set [of 16 "''0123456789abcdef''" "unat v"]
    radix_text_set [of 16 "''0123456789ABCDEF''" "unat v"]
  by (auto simp: dec_text_def hex_text_def)

lemma sint_u64: "- (2 ^ 63) \<le> sint (v :: u64)" "sint (v :: u64) < 2 ^ 63"
  using sint_greater_eq [of v] sint_less [of v] by simp_all

lemma signed_text_len: "0 < length (signed_text v) \<and> length (signed_text v) \<le> 20"
proof (cases "sint v < 0")
  case True
  have "nat (- sint v) \<le> 2 ^ 63" using sint_u64 [of v] by (simp add: nat_le_iff)
  from dec_text_signed [OF this] True show ?thesis by (simp add: signed_text_def)
next
  case False
  then show ?thesis using dec_text_u64 [of "unat v"] unat_u64 [of v] by (simp add: signed_text_def)
qed

lemma spec_text_len: "0 < length (spec_text spec v)" "length (spec_text spec v) \<le> 20"
  using dec_text_u64 [of "unat v"] unat_u64 [of v] signed_text_len [of v]
    hex_text_len [of "''0123456789abcdef''" v] hex_text_len [of "''0123456789ABCDEF''" v]
    dec_text_byte [of "ucast v"] dec_text_byte [of "drop_bit 8 (ucast v)"]
    dec_text_byte [of "drop_bit 16 (ucast v)"] dec_text_byte [of "drop_bit 24 (ucast v)"]
  by (auto simp: spec_text_def inet_ntoa_def)

lemma spec_text_no_NUL [klog_texts]: "NUL \<notin> set (spec_text spec v)"
  by (auto simp: spec_text_def inet_ntoa_def signed_text_def klog_texts)

section \<open>The formatter against a rendering without a buffer\<close>

text \<open>
  What each character or conversion of a C string contributes; \<open>None\<close> for a message that ends in a
  percent sign, where the formatter steps over the terminator.
\<close>

fun klog_tokens :: "u64 list \<Rightarrow> string \<Rightarrow> nat \<Rightarrow> string list option" where
  "klog_tokens args [] i = Some []"
| "klog_tokens args (c # fmt) i =
     (if c \<noteq> CHR ''%'' then map_option (\<lambda>ts. [c] # ts) (klog_tokens args fmt i)
      else
        case fmt of
          [] \<Rightarrow> None
        | spec # fmt' \<Rightarrow>
            if spec = CHR ''%'' then map_option (\<lambda>ts. ''%'' # ts) (klog_tokens args fmt' i)
            else if is_spec spec then
              if i \<ge> MAX_ARGS_CNT then map_option (\<lambda>ts. ''<missing>'' # ts) (klog_tokens args fmt' i)
              else map_option (\<lambda>ts. spec_text spec (args ! i) # ts) (klog_tokens args fmt' (i + 1))
            else map_option (\<lambda>ts. [CHR ''%'', spec] # ts) (klog_tokens args fmt' i))"

text \<open>Where the loop stops: at the end, or at the first position with no room left.\<close>

fun stop_pos :: "string list \<Rightarrow> nat \<Rightarrow> nat" where
  "stop_pos [] p = p"
| "stop_pos (t # ts) p = (if p \<ge> BUF_SIZE - 1 then p else stop_pos ts (p + length t))"

definition pad :: "string \<Rightarrow> string" where
  "pad t = t @ replicate (BUF_SIZE - length t) NUL"

lemma pad_put: "length t < BUF_SIZE \<Longrightarrow> (pad t)[length t := c] = pad (t @ [c])"
  by (cases "BUF_SIZE - length t") (auto simp: pad_def list_update_append)

lemma pad_put2: "length t + 1 < BUF_SIZE \<Longrightarrow> (pad t)[length t := c, Suc (length t) := d] = pad (t @ [c, d])"
  using pad_put [of t c] pad_put [of "t @ [c]" d] by simp

lemma pad_snprintf: "length t + length u < BUF_SIZE \<Longrightarrow> snprintf_at (pad t) (length t) u = pad (t @ u)"
  by (cases "BUF_SIZE - length t - length u") (auto simp: snprintf_at_def pad_def Let_def drop_append)

lemma stop_pos_done: "p \<ge> BUF_SIZE - 1 \<Longrightarrow> stop_pos ts p = p"
  by (cases ts) auto

lemma stop_pos_fits: "stop_pos ts p < BUF_SIZE - 1 \<Longrightarrow> stop_pos ts p = p + length (concat ts)"
proof (induction ts arbitrary: p)
  case (Cons t ts)
  from Cons.IH [of "p + length t"] Cons.prems show ?case by (simp del: One_nat_def split: if_splits)
qed simp

lemma stop_pos_small: "p + length (concat ts) < BUF_SIZE \<Longrightarrow> stop_pos ts p \<le> p + length (concat ts)"
proof (induction ts arbitrary: p)
  case (Cons t ts)
  from Cons.IH [of "p + length t"] Cons.prems show ?case by simp
qed simp

lemma stop_pos_bound: "\<forall>t \<in> set ts. length t \<le> m \<Longrightarrow> p < BUF_SIZE - 1 + m \<Longrightarrow> 0 < m \<Longrightarrow> stop_pos ts p < BUF_SIZE - 1 + m"
proof (induction ts arbitrary: p)
  case (Cons t ts)
  then show ?case using Cons.IH [of "p + length t"] by auto
qed simp

lemma format_loop_done: "pos \<ge> BUF_SIZE - 1 \<Longrightarrow> fmt \<noteq> [] \<Longrightarrow> format_loop args fmt pos i buf = Inr (buf, pos)"
  by (cases fmt) auto

lemma klog_tokens_cases:
  assumes "klog_tokens args (c # fmt) i = Some ts"
  obtains (plain) ts' where "c \<noteq> CHR ''%''" "ts = [c] # ts'" "klog_tokens args fmt i = Some ts'"
    | (percent) fmt' ts' where "c = CHR ''%''" "fmt = CHR ''%'' # fmt'" "ts = ''%'' # ts'" "klog_tokens args fmt' i = Some ts'"
    | (missing) spec fmt' ts' where "c = CHR ''%''" "fmt = spec # fmt'" "spec \<noteq> CHR ''%''" "is_spec spec" "i \<ge> MAX_ARGS_CNT"
        "ts = ''<missing>'' # ts'" "klog_tokens args fmt' i = Some ts'"
    | (arg) spec fmt' ts' where "c = CHR ''%''" "fmt = spec # fmt'" "spec \<noteq> CHR ''%''" "is_spec spec" "\<not> i \<ge> MAX_ARGS_CNT"
        "ts = spec_text spec (args ! i) # ts'" "klog_tokens args fmt' (i + 1) = Some ts'"
    | (other) spec fmt' ts' where "c = CHR ''%''" "fmt = spec # fmt'" "spec \<noteq> CHR ''%''" "\<not> is_spec spec"
        "ts = [CHR ''%'', spec] # ts'" "klog_tokens args fmt' i = Some ts'"
proof (cases "c = CHR ''%''")
  case False
  with assms plain show ?thesis by auto
next
  case c: True
  with assms obtain spec fmt' where fmt: "fmt = spec # fmt'" by (cases fmt) auto
  consider "spec = CHR ''%''" | "spec \<noteq> CHR ''%''" "is_spec spec" "i \<ge> MAX_ARGS_CNT"
    | "spec \<noteq> CHR ''%''" "is_spec spec" "\<not> i \<ge> MAX_ARGS_CNT" | "spec \<noteq> CHR ''%''" "\<not> is_spec spec" by blast
  then show ?thesis
  proof cases
    case 1
    with assms c fmt percent show ?thesis by auto
  next
    case 2
    with assms c fmt missing show ?thesis by auto
  next
    case 3
    with assms c fmt arg show ?thesis by auto
  next
    case 4
    with assms c fmt other show ?thesis by auto
  qed
qed

lemma loop_continues:
  assumes IH: "\<And>t. length t < BUF_SIZE \<Longrightarrow>
      \<exists>b. format_loop args (fmt @ NUL # junk) (length t) i (pad t) = Inr (b, stop_pos ts (length t)) \<and>
        (stop_pos ts (length t) < BUF_SIZE \<longrightarrow> b = pad (take (BUF_SIZE - 1) (t @ concat ts)))"
    and buf: "length t + length u < BUF_SIZE \<Longrightarrow> buf = pad (t @ u)"
  shows "\<exists>b. format_loop args (fmt @ NUL # junk) (length t + length u) i buf = Inr (b, stop_pos ts (length t + length u)) \<and>
        (stop_pos ts (length t + length u) < BUF_SIZE \<longrightarrow> b = pad (take (BUF_SIZE - 1) (t @ u @ concat ts)))"
proof (cases "length t + length u < BUF_SIZE")
  case True
  from IH [of "t @ u"] True buf [OF True] show ?thesis by simp
next
  case False
  then show ?thesis by (simp add: stop_pos_done format_loop_done)
qed

lemma format_loop_tokens:
  "klog_tokens args fmt i = Some ts \<Longrightarrow> NUL \<notin> set fmt \<Longrightarrow> length t < BUF_SIZE \<Longrightarrow>
   \<exists>b. format_loop args (fmt @ NUL # junk) (length t) i (pad t) = Inr (b, stop_pos ts (length t)) \<and>
     (stop_pos ts (length t) < BUF_SIZE \<longrightarrow> b = pad (take (BUF_SIZE - 1) (t @ concat ts)))"
proof (induction args fmt i arbitrary: ts t rule: klog_tokens.induct)
  case (1 args i)
  then show ?case by simp
next
  case (2 args c fmt i)
  show ?case
  proof (cases "length t < BUF_SIZE - 1")
    case full: False
    then show ?thesis using 2 by (auto simp: stop_pos_done)
  next
    case room: True
    have c: "c \<noteq> NUL" using 2(7) by auto
    from 2(6) show ?thesis
    proof (cases rule: klog_tokens_cases)
      case plain
      with loop_continues [where t = t and u = "[c]" and buf = "(pad t)[length t := c]", OF 2(1) [OF plain(1,3)]] 2(7,8) c room show ?thesis
        by (simp add: pad_put)
    next
      case percent
      with loop_continues [where t = t and u = "''%''" and buf = "(pad t)[length t := CHR ''%'']", OF 2(2) [OF _ percent(2) _ percent(4)]] 2(7,8) c room
      show ?thesis by (simp add: pad_put)
    next
      case missing
      with loop_continues [where t = t and u = "''<missing>''" and buf = "snprintf_at (pad t) (length t) ''<missing>''", OF 2(3) [OF _ missing(2,3,4,5,7)]]
        2(7,8) c room
      show ?thesis by (simp add: pad_snprintf)
    next
      case (arg spec fmt' ts')
      with loop_continues [where t = t and u = "spec_text spec (args ! i)" and buf = "snprintf_at (pad t) (length t) (spec_text spec (args ! i))", OF 2(4) [OF _ arg(2,3,4,5,7)]] 2(7,8) c room
      show ?thesis by (simp add: pad_snprintf Let_def)
    next
      case (other spec fmt' ts')
      with loop_continues [where t = t and u = "[CHR ''%'', spec]" and buf = "(pad t)[length t := CHR ''%'', Suc (length t) := spec]", OF 2(5) [OF _ other(2,3,4,6)]] 2(7,8) c room
      show ?thesis by (simp add: pad_put2)
    qed
  qed
qed

lemma klog_tokens_props:
  "klog_tokens args fmt i = Some ts \<Longrightarrow> NUL \<notin> set fmt \<Longrightarrow> (\<forall>t \<in> set ts. length t \<le> 20) \<and> NUL \<notin> set (concat ts)"
proof (induction args fmt i arbitrary: ts rule: klog_tokens.induct)
  case (2 args c fmt i)
  from 2(6) show ?case
  proof (cases rule: klog_tokens_cases)
    case plain
    with 2(1) [OF plain(1,3)] 2(7) show ?thesis by simp
  next
    case percent
    with 2(2) [OF _ percent(2) _ percent(4)] 2(7) show ?thesis by simp
  next
    case missing
    with 2(3) [OF _ missing(2-5,7)] 2(7) show ?thesis by simp
  next
    case arg
    with 2(4) [OF _ arg(2-5,7)] 2(7) show ?thesis by (simp add: spec_text_len klog_texts)
  next
    case other
    with 2(5) [OF _ other(2-4,6)] 2(7) show ?thesis by simp
  qed
qed simp

lemma takeWhile_pad: "NUL \<notin> set t \<Longrightarrow> takeWhile (\<lambda>c. c \<noteq> NUL) (t @ replicate n NUL) = t"
  by (induction t) (auto simp: takeWhile_replicate)

lemma klog_format_exact_lemma:
  assumes "klog_tokens args fmt 0 = Some ts" and "NUL \<notin> set fmt"
  shows "format_msg args (fmt @ NUL # junk) =
           (if stop_pos ts 0 < BUF_SIZE then Inr (take (BUF_SIZE - 1) (concat ts)) else Inl Crash) \<and>
         stop_pos ts 0 \<le> BUF_SIZE + 18"
proof -
  let ?p = "stop_pos ts 0" and ?t = "take (BUF_SIZE - 1) (concat ts)"
  obtain b where run: "format_loop args (fmt @ NUL # junk) 0 0 (replicate BUF_SIZE NUL) = Inr (b, ?p)"
    and b: "?p < BUF_SIZE \<longrightarrow> b = pad ?t"
    using format_loop_tokens [OF assms, of "[]" junk] by (auto simp: pad_def BUF_SIZE_def)
  have nul: "NUL \<notin> set ?t" using klog_tokens_props [OF assms] by (auto dest: in_set_takeD)
  have "?p < BUF_SIZE - 1 + 20"
    using klog_tokens_props [OF assms] by (intro stop_pos_bound) (auto simp: BUF_SIZE_def)
  moreover have "(pad ?t)[?p := NUL] = pad ?t" if "?p < BUF_SIZE"
  proof -
    have "length ?t \<le> ?p"
      using stop_pos_fits [of ts 0] that by (cases "?p < BUF_SIZE - 1") (auto simp: BUF_SIZE_def)
    with that show ?thesis
      by (intro nth_equalityI) (auto simp: pad_def nth_list_update nth_append BUF_SIZE_def)
  qed
  moreover have "format_msg args (fmt @ NUL # junk) =
      (if ?p < BUF_SIZE then Inr (takeWhile (\<lambda>c. c \<noteq> NUL) (b[?p := NUL])) else Inl Crash)"
    by (simp add: format_msg_def run)
  moreover have "takeWhile (\<lambda>c. c \<noteq> NUL) (pad ?t) = ?t"
    unfolding pad_def by (rule takeWhile_pad [OF nul])
  ultimately show ?thesis using b by (simp add: BUF_SIZE_def)
qed

text \<open>
  Claim C16. The formatter against its rendering. For a message that does not end in a percent sign, the
  formatter logs the first 1023 characters of the rendering whenever the position it stops at lies in
  its buffer. Otherwise it writes its terminator behind the end of the buffer, up to 18 bytes from it:
  \<^verbatim>\<open>snprintf\<close> moves the position by what it would have written, and an unknown conversion by two.
\<close>

theorem klog_format_exact:
  assumes "klog_tokens args fmt 0 = Some ts" and "NUL \<notin> set fmt"
  shows "format_msg args (fmt @ NUL # junk) =
           (if stop_pos ts 0 < BUF_SIZE then Inr (take (BUF_SIZE - 1) (concat ts)) else Inl Crash) \<and>
         stop_pos ts 0 \<le> BUF_SIZE + 18"
  using assms by (rule klog_format_exact_lemma)

text \<open>What the macro sends is logged, if it fits.\<close>

lemma klog_delivers_lemma:
  assumes reserve: "\<forall>n m. reserve n = Some m \<longrightarrow> length (le_args m) = MAX_ARGS_CNT"
    and sent: "KLOG reserve level fmt vs = Some (event, len)"
    and fmt: "NUL \<notin> set fmt" "length fmt < 2 ^ 16" and vs: "length vs \<le> MAX_ARGS_CNT"
    and ts: "klog_tokens (vs @ replicate (MAX_ARGS_CNT - length vs) 0) fmt 0 = Some ts" "length (concat ts) < BUF_SIZE"
  shows "logEvent threshold event len =
           Inr (0, if ucast level < threshold then None else Some (klog_level_name level, concat ts))"
proof -
  let ?args = "vs @ replicate (MAX_ARGS_CNT - length vs) 0"
  have len: "unat (of_nat (length fmt) :: u16) = length fmt"
    using fmt(2) by (simp add: unat_of_nat take_bit_nat_eq_self)
  obtain m where m: "reserve (SIZEOF_LOG_EVENT + length fmt + 1) = Some m"
    and event: "le_level event = level" "le_args event = take MAX_ARGS_CNT ?args @ drop MAX_ARGS_CNT (le_args m)"
      "le_msg event = fmt @ NUL # drop (length fmt + 1) (le_msg m)"
    and size: "len = SIZEOF_LOG_EVENT + length fmt + 1"
    using sent by (auto simp: KLOG_def bpf_log_event_internal_def Let_def len split: option.splits)
  have args: "le_args event = ?args" using reserve m vs by (simp add: event)
  have "stop_pos ts 0 < BUF_SIZE" using stop_pos_small [of 0 ts] ts(2) by simp
  moreover have "take (BUF_SIZE - 1) (concat ts) = concat ts" using ts(2) by (simp add: BUF_SIZE_def)
  ultimately have "format_msg ?args (le_msg event) = Inr (concat ts)"
    using klog_format_exact_lemma [OF ts(1) fmt(1)] by (simp add: event(3))
  then show ?thesis
    using second_size_check_is_dead [of len] by (simp add: logEvent_def size event(1) args)
qed

text \<open>
  Claim C15. From the kernel to the log. Whatever a program logs with the macro, provided the message
  holds no NUL, does not end in a percent sign and renders to at most 1023 characters, is logged by the
  user side under the level it was given and with exactly that text; a level below the logger's
  threshold is passed over. The sample's memory may hold anything when it is reserved.
\<close>

theorem klog_delivers:
  assumes "\<forall>n m. reserve n = Some m \<longrightarrow> length (le_args m) = MAX_ARGS_CNT"
    and "KLOG reserve level fmt vs = Some (event, len)"
    and "NUL \<notin> set fmt" "length fmt < 2 ^ 16" and "length vs \<le> MAX_ARGS_CNT"
    and "klog_tokens (vs @ replicate (MAX_ARGS_CNT - length vs) 0) fmt 0 = Some ts" "length (concat ts) < BUF_SIZE"
  shows "logEvent threshold event len =
           Inr (0, if ucast level < threshold then None else Some (klog_level_name level, concat ts))"
  using assms by (rule klog_delivers_lemma)

lemma klog_tokens_plain:
  "CHR ''%'' \<notin> set xs \<Longrightarrow>
   klog_tokens args (xs @ fmt) i = map_option (\<lambda>ts. map (\<lambda>c. [c]) xs @ ts) (klog_tokens args fmt i)"
  by (cases "klog_tokens args fmt i"; induction xs) auto

lemma stop_pos_plain:
  "p + length xs < BUF_SIZE \<Longrightarrow> stop_pos (map (\<lambda>c. [c]) xs @ ts) p = stop_pos ts (p + length xs)"
  by (induction xs arbitrary: p) (auto simp: stop_pos_done)

text \<open>A message of 1022 letters and a number of three digits writes behind the buffer.\<close>

theorem klog_format_exact_witness:
  "format_msg [100] (replicate 1022 (CHR ''a'') @ ''%d'' @ [NUL]) = Inl Crash"
proof -
  have d: "klog_tokens [100] ''%d'' 0 = Some [''100'']" by code_simp
  let ?fmt = "replicate 1022 (CHR ''a'') @ ''%d''" and ?ts = "map (\<lambda>c. [c]) (replicate 1022 (CHR ''a'')) @ [''100'']"
  have ts: "klog_tokens [100] ?fmt 0 = Some ?ts"
    using d by (subst klog_tokens_plain) (simp_all del: map_replicate)
  have "\<not> stop_pos ?ts 0 < BUF_SIZE"
    by (subst stop_pos_plain) (simp_all add: BUF_SIZE_def)
  with klog_format_exact [OF ts, of "[]"] show ?thesis by (simp del: map_replicate)
qed

definition junk_reserve :: "nat \<Rightarrow> log_event option" where
  "junk_reserve n = Some \<lparr>le_level = 7, le_args = replicate 10 99, le_msg_len = 0, le_msg = replicate (n - 90) (CHR ''?'')\<rparr>"

theorem klog_delivers_witness:
  "\<exists>event len. KLOG junk_reserve 2 ''%P from %A, port %u%%'' [6, 0x0100007F, 80] = Some (event, len) \<and>
     logEvent 1 event len = Inr (0, Some (''info'', ''TCP from 127.0.0.1, port 80%''))"
proof -
  let ?fmt = "''%P from %A, port %u%%''" and ?vs = "[6, 0x0100007F, 80] :: u64 list"
  let ?ts = "[''TCP'', '' '', ''f'', ''r'', ''o'', ''m'', '' '', ''127.0.0.1'', '','', '' '', ''p'', ''o'', ''r'', ''t'',
    '' '', ''80'', ''%'']"
  have reserve: "\<forall>n m. junk_reserve n = Some m \<longrightarrow> length (le_args m) = MAX_ARGS_CNT"
    by (auto simp: junk_reserve_def MAX_ARGS_CNT_def)
  obtain event len where sent: "KLOG junk_reserve 2 ?fmt ?vs = Some (event, len)"
    by (auto simp: KLOG_def bpf_log_event_internal_def junk_reserve_def Let_def)
  have ts: "klog_tokens (?vs @ replicate (MAX_ARGS_CNT - length ?vs) 0) ?fmt 0 = Some ?ts" by code_simp
  have "logEvent 1 event len = Inr (0, if (ucast (2 :: u16) :: u32) < 1 then None else Some (klog_level_name 2, concat ?ts))"
    by (rule klog_delivers [OF reserve sent _ _ _ ts]) (simp_all add: MAX_ARGS_CNT_def BUF_SIZE_def)
  with sent show ?thesis by (simp add: klog_level_name_def)
qed

section \<open>Klog: construction, unpin, destruction\<close>

definition KLOG_BUFFER_SIZE :: u64 where "KLOG_BUFFER_SIZE = 256 * 1024"
definition KLOG_BUFFER_NAME :: string where "KLOG_BUFFER_NAME = ''hebpf_klog''"
definition PATH_PIN :: string where "PATH_PIN = PATH_BPFFS @ KLOG_BUFFER_NAME"

text \<open>\<open>mgr\<close> is the fresh \<^verbatim>\<open>RingBufferMap\<close>; the callback is \<^verbatim>\<open>logEvent\<close> of this object.\<close>

definition Klog_new :: "build \<Rightarrow> ('w, 'z) rb_ops_scheme \<Rightarrow> nat \<Rightarrow> nat option \<Rightarrow> u64 \<Rightarrow> string \<Rightarrow>
    (unit Ringbuffer, 'w RingBufferMap) st" where
  "Klog_new b F addr io map_size map_name =
     st_bind (st_mod (setMapSize map_size)) (\<lambda>_.
     st_bind (st_mod (setMapName map_name)) (\<lambda>_.
     getRingbuffer b F addr io (Some ())))"

definition Klog_unpin :: "('w, 'z) rb_ops_scheme \<Rightarrow> 'w RingBufferMap \<Rightarrow> 'w RingBufferMap" where
  "Klog_unpin F mgr = RingBufferMap_cleanup F mgr"

text \<open>The members' destructors: the ring buffer first; the map has none of its own.\<close>

definition Klog_destroy :: "('w, 'z) rb_ops_scheme \<Rightarrow> unit Ringbuffer \<Rightarrow> 'w RingBufferMap \<Rightarrow> 'w" where
  "Klog_destroy F ringbuf mgr = Ringbuffer_destroy F ringbuf (pm_kernel mgr)"

text \<open>
  The log map's descriptor is closed twice. The map and the ring buffer built over it both own
  it: on the way out \<^verbatim>\<open>main\<close> unpins, which closes it, and the destructor closes the same number again,
  which by then may be any other descriptor of the process.
\<close>

theorem klog_closes_its_map_twice:
  assumes "Klog_new b F addr io n name (RingBufferMap_new w refcnt flag ours path) = (Inr ringbuf, mgr)"
  shows "\<exists>w'. 0 \<le> rm_fd mgr \<and>
    pm_kernel (Klog_unpin F mgr) =
      (if path \<noteq> [] then fs_unlink F (fs_close F (pm_kernel mgr) (rm_fd mgr)) path
       else fs_close F (pm_kernel mgr) (rm_fd mgr)) \<and>
    Klog_destroy F ringbuf (Klog_unpin F mgr) = fs_close F w' (rm_fd mgr)"
proof -
  let ?s = "setMapName name (setMapSize n (RingBufferMap_new w refcnt flag ours path))"
  have "getRingbuffer b F addr io (Some ()) ?s = (Inr ringbuf, mgr)"
    using assms by (simp add: Klog_new_def st_bind_def st_mod_def)
  from getRingbuffer_new [OF this] have "rb_fd ringbuf = Some (rm_fd mgr)" "0 \<le> rm_fd mgr" "rm_pin_path mgr = path"
    by (simp_all add: setMapName_def setMapSize_def RingBufferMap_new_def)
  then show ?thesis
    by (simp add: Klog_unpin_def RingBufferMap_cleanup_def Klog_destroy_def Ringbuffer_destroy_def Let_def FD_INVALID_def)
      blast
qed

text \<open>A kernel that writes down the descriptors it closes.\<close>

definition demo_rb :: "int list rb_ops" where
  "demo_rb =
     \<lparr>fs_stat = (\<lambda>w p. True), fs_mkdir = (\<lambda>w p. (0, w)), fs_is_bpffs = (\<lambda>w p. True), fs_mount = (\<lambda>w p. (True, w)),
      fs_umount = (\<lambda>w p. (True, w)), fs_obj_get = (\<lambda>w p. (-1, w)), fs_create_prog_array = (\<lambda>w p n. (-1, w)),
      fs_create_hash = (\<lambda>w p n. (-1, w)), fs_obj_pin = (\<lambda>w f p. (True, w)), fs_unlink = (\<lambda>w p. w),
      fs_close = (\<lambda>w f. f # w), fs_enoent = (\<lambda>w. True), fs_create_ringbuf = (\<lambda>w p n. (9, w)),
      rb_new = (\<lambda>w f a. (Some 1, w)), rb_free = (\<lambda>w r. w), rb_take = (\<lambda>w r. ([], w)), io_lock = (\<lambda>w i. True),
      io_add = (\<lambda>w f a. (1, w)), io_del = (\<lambda>w t. w)\<rparr>"

theorem klog_closes_its_map_twice_witness:
  "\<exists>ringbuf mgr.
    Klog_new build.Debug demo_rb 100 (Some 1) KLOG_BUFFER_SIZE KLOG_BUFFER_NAME (RingBufferMap_new [] 0 False False PATH_PIN)
      = (Inr ringbuf, mgr) \<and>
    rm_fd mgr = 9 \<and> Klog_destroy demo_rb ringbuf (Klog_unpin demo_rb mgr) = [9, 9]"
proof -
  let ?run = "Klog_new build.Debug demo_rb 100 (Some 1) KLOG_BUFFER_SIZE KLOG_BUFFER_NAME (RingBufferMap_new [] 0 False False PATH_PIN)"
  let ?out = "\<lparr>pm_kernel = [], g_mount_refcnt = 1, g_mount_init_flag = True, g_mounted_by_us = False, rm_pin_path = PATH_PIN,
      rm_name = KLOG_BUFFER_NAME, rm_size = KLOG_BUFFER_SIZE, rm_fd = 9, rm_initialized = True\<rparr>"
  let ?ring = "\<lparr>rb_fd = Some 9, rb_ring = Some (1, 100), rb_callback = Some (), rb_watcher = Some (1, 100), rb_io = Some 1\<rparr>"
  have run: "?run = (Inr ?ring, ?out)"
    by (simp add: Klog_new_def st_simps setMapSize_def setMapName_def RingBufferMap_new_def getRingbuffer_def
        RingBufferMap_init_def ensureBpffsMounted_def open_or_create_def new_ring_def Ringbuffer_init_def Ringbuffer_new_def
        demo_rb_def fs_ops.truncate_def PATH_PIN_def KLOG_BUFFER_NAME_def KLOG_BUFFER_SIZE_def FD_INVALID_def Let_def)
  from klog_closes_its_map_twice [OF run] obtain w' where "Klog_destroy demo_rb ?ring (Klog_unpin demo_rb ?out) = fs_close demo_rb w' 9"
    by auto
  moreover have "tl (Klog_destroy demo_rb ?ring (Klog_unpin demo_rb ?out)) = [9]"
    by (simp add: Klog_destroy_def Klog_unpin_def RingBufferMap_cleanup_def Ringbuffer_destroy_def demo_rb_def FD_INVALID_def Let_def)
  ultimately have "Klog_destroy demo_rb ?ring (Klog_unpin demo_rb ?out) = [9, 9]"
    by (simp add: demo_rb_def)
  with run show ?thesis by auto
qed

end
