(* ===== verification/Debug_Server.thy ===== *)
theory Debug_Server
  imports Configs Json_If
begin

text \<open>
  \<^verbatim>\<open>src/debug_server/\<close>: the HTTP server that reports the state of its subscribers. The calls into
  boost::asio are the record \<open>asio_ops\<close> over an unknown world, an acceptor is a number, and the
  asynchronous handlers are operations the I/O thread runs. A subscriber is a number.
\<close>

section \<open>State\<close>

text \<open>
  The operations on an acceptor give whether they succeeded. \<open>as_destroy\<close> is its destructor, which
  closes it; \<open>as_io\<close> is what locking the weak I/O pointer gives: null, or an object that is an
  \<^verbatim>\<open>io::Io\<close> or not.
\<close>

record 'w asio_ops =
  as_io :: "'w \<Rightarrow> bool option"
  as_address_ok :: "string \<Rightarrow> bool"
  as_new :: "'w \<Rightarrow> nat \<times> 'w"
  as_destroy :: "nat \<Rightarrow> 'w \<Rightarrow> 'w"
  as_open :: "nat \<Rightarrow> string \<Rightarrow> 'w \<Rightarrow> bool \<times> 'w"
  as_reuse :: "nat \<Rightarrow> 'w \<Rightarrow> bool \<times> 'w"
  as_bind :: "nat \<Rightarrow> string \<Rightarrow> u16 \<Rightarrow> 'w \<Rightarrow> bool \<times> 'w"
  as_listen :: "nat \<Rightarrow> 'w \<Rightarrow> bool \<times> 'w"
  as_accept :: "nat \<Rightarrow> 'w \<Rightarrow> 'w"
  as_close :: "nat \<Rightarrow> 'w \<Rightarrow> 'w"

record 'w DebugServer =
  ds_world :: 'w
  acceptor :: "nat option"
  ds_address :: string
  ds_port :: u16
  ds_running :: bool
  subscriber_list :: "nat list option"

definition DebugServer_new :: "'w \<Rightarrow> 'w DebugServer" where
  "DebugServer_new w =
     \<lparr>ds_world = w, acceptor = None, ds_address = [], ds_port = 0, ds_running = False, subscriber_list = Some []\<rparr>"

section \<open>start, stop, update\<close>

definition setListen :: "build \<Rightarrow> string \<Rightarrow> u16 \<Rightarrow> (unit, 'w DebugServer) st" where
  "setListen b addr p =
     st_bind (st_assert b (\<lambda>_. addr \<noteq> [])) (\<lambda>_.
     st_bind (st_assert b (\<lambda>_. p > 0)) (\<lambda>_.
     st_mod (\<lambda>s. s\<lparr>ds_address := addr, ds_port := p\<rparr>)))"

text \<open>A call on the acceptor; on a null pointer it crashes.\<close>

definition on_acceptor :: "(nat \<Rightarrow> 'w \<Rightarrow> 'a \<times> 'w) \<Rightarrow> ('a, 'w DebugServer) st" where
  "on_acceptor f s =
     (case acceptor s of
        None \<Rightarrow> (Inl Crash, s)
      | Some a \<Rightarrow> (case f a (ds_world s) of (r, w) \<Rightarrow> (Inr r, s\<lparr>ds_world := w\<rparr>)))"

definition doAccept :: "build \<Rightarrow> 'w asio_ops \<Rightarrow> (unit, 'w DebugServer) st" where
  "doAccept b A =
     st_bind (st_assert b (\<lambda>s. acceptor s \<noteq> None)) (\<lambda>_.
     on_acceptor (\<lambda>a w. ((), as_accept A a w)))"

text \<open>A new acceptor takes the place of the old one, which is destroyed.\<close>

definition new_acceptor :: "'w asio_ops \<Rightarrow> 'w DebugServer \<Rightarrow> 'w DebugServer" where
  "new_acceptor A s =
     (case as_new A (ds_world s) of
        (a, w) \<Rightarrow> s\<lparr>acceptor := Some a, ds_world := (case acceptor s of None \<Rightarrow> w | Some old \<Rightarrow> as_destroy A old w)\<rparr>)"

definition ds_start :: "build \<Rightarrow> 'w asio_ops \<Rightarrow> string \<Rightarrow> u16 \<Rightarrow> (bool, 'w DebugServer) st" where
  "ds_start b A addr p =
     st_bind (setListen b addr p) (\<lambda>_.
     st_bind (st_get (\<lambda>s. as_io A (ds_world s))) (\<lambda>io.
     if io = None then st_throw (Except ''IO context is invalid'')
     else if io = Some False then st_throw (Except ''IO context is not io::Io'')
     else
       st_bind (st_mod (new_acceptor A)) (\<lambda>_.
       if \<not> as_address_ok A addr then st_throw (StdError ''make_address'')
       else
         st_bind (on_acceptor (\<lambda>a. as_open A a addr)) (\<lambda>ok. if \<not> ok then st_ret False else
         st_bind (on_acceptor (\<lambda>a. as_reuse A a)) (\<lambda>ok. if \<not> ok then st_ret False else
         st_bind (on_acceptor (\<lambda>a. as_bind A a addr p)) (\<lambda>ok. if \<not> ok then st_ret False else
         st_bind (on_acceptor (\<lambda>a. as_listen A a)) (\<lambda>ok. if \<not> ok then st_ret False else
         st_bind (doAccept b A) (\<lambda>_. st_ret True))))))))"

definition ds_stop :: "'w asio_ops \<Rightarrow> 'w DebugServer \<Rightarrow> 'w DebugServer" where
  "ds_stop A s =
     (if \<not> ds_running s then s\<lparr>ds_running := False\<rparr>
      else s\<lparr>ds_running := False, ds_address := [], ds_port := 0,
             ds_world := (case acceptor s of None \<Rightarrow> ds_world s | Some a \<Rightarrow> as_close A a (ds_world s))\<rparr>)"

definition ds_update :: "build \<Rightarrow> 'w asio_ops \<Rightarrow> Configs \<Rightarrow> (unit, 'w DebugServer) st" where
  "ds_update b A config =
     st_bind (st_get ds_running) (\<lambda>on.
     if on then
       if dbgserv_enabled config then
         st_bind (st_get (\<lambda>s. dbgserv_addr config \<noteq> ds_address s \<or> dbgserv_port config \<noteq> ds_port s)) (\<lambda>differs.
         if differs
         then st_bind (st_mod (ds_stop A)) (\<lambda>_.
              st_bind (ds_start b A (dbgserv_addr config) (dbgserv_port config)) (\<lambda>_. st_ret ()))
         else st_ret ())
       else st_mod (ds_stop A)
     else if dbgserv_enabled config
     then st_bind (ds_start b A (dbgserv_addr config) (dbgserv_port config)) (\<lambda>_. st_ret ())
     else st_ret ())"

section \<open>Subscribers\<close>

text \<open>The list is replaced, never changed; a handler that runs keeps the one it has loaded.\<close>

definition ds_attach :: "nat option \<Rightarrow> 'w DebugServer \<Rightarrow> 'w DebugServer" where
  "ds_attach subscriber s =
     (case subscriber of
        None \<Rightarrow> s
      | Some i \<Rightarrow>
          let new_list = (case subscriber_list s of None \<Rightarrow> [] | Some l \<Rightarrow> l)
          in s\<lparr>subscriber_list := Some (if i \<in> set new_list then new_list else new_list @ [i])\<rparr>)"

definition ds_detach :: "nat option \<Rightarrow> 'w DebugServer \<Rightarrow> 'w DebugServer" where
  "ds_detach subscriber s =
     (case subscriber of
        None \<Rightarrow> s
      | Some i \<Rightarrow>
          let new_list = (case subscriber_list s of None \<Rightarrow> [] | Some l \<Rightarrow> l)
          in if i \<in> set new_list then s\<lparr>subscriber_list := Some (filter (\<lambda>k. k \<noteq> i) new_list)\<rparr> else s)"

text \<open>
  The report is the object under construction, an association list; a subscriber's \<^verbatim>\<open>update\<close> adds to
  it and may throw.
\<close>

definition ds_notify :: "'j json_ops \<Rightarrow> string \<Rightarrow> string \<Rightarrow> (nat \<Rightarrow> (string \<times> 'j) list \<Rightarrow> unit res \<times> (string \<times> 'j) list) \<Rightarrow>
    'w DebugServer \<Rightarrow> 'j res" where
  "ds_notify J version now update s =
     (case (case subscriber_list s of None \<Rightarrow> st_ret () | Some l \<Rightarrow> st_each update l)
             [(''version'', j_str J version), (''build_time'', j_str J now)] of
        (Inl e, root) \<Rightarrow> Inl e
      | (Inr _, root) \<Rightarrow> Inr (j_obj J root))"

section \<open>Handlers\<close>

text \<open>The accept handler: gives whether a connection is read. On an error it goes on only while running.\<close>

definition on_accept :: "build \<Rightarrow> 'w asio_ops \<Rightarrow> bool \<Rightarrow> (bool, 'w DebugServer) st" where
  "on_accept b A ec =
     (if ec then
        st_bind (st_get ds_running) (\<lambda>on.
        if on then st_bind (doAccept b A) (\<lambda>_. st_ret False) else st_ret False)
      else st_bind (doAccept b A) (\<lambda>_. st_ret True))"

datatype http_method = GET | OTHER_METHOD

record http_response =
  resp_status :: nat
  resp_server :: string
  resp_type :: string
  resp_body :: string

definition sendResponse :: "nat \<Rightarrow> string \<Rightarrow> http_response" where
  "sendResponse status body =
     \<lparr>resp_status = status, resp_server = ''hebpf-debug'', resp_type = ''application/json'', resp_body = body\<rparr>"

text \<open>The read handler: no answer on a read error; \<open>dump\<close> is the JSON library's printer.\<close>

definition on_read :: "'j json_ops \<Rightarrow> ('j \<Rightarrow> string) \<Rightarrow> string \<Rightarrow> string \<Rightarrow>
    (nat \<Rightarrow> (string \<times> 'j) list \<Rightarrow> unit res \<times> (string \<times> 'j) list) \<Rightarrow> 'w DebugServer \<Rightarrow> bool \<Rightarrow> http_method \<Rightarrow> string \<Rightarrow>
    http_response option res" where
  "on_read J dump version now update s ec method target =
     (if ec then Inr None
      else if method = GET \<and> target = ''/api/debug''
      then res_bind (ds_notify J version now update s) (\<lambda>json. Inr (Some (sendResponse 200 (dump json))))
      else Inr (Some (sendResponse 404 ''{\"error\":\"Not found\"}'')))"

section \<open>What any sequence of calls does\<close>

text \<open>
  A call from the configuration watcher, from \<^verbatim>\<open>main\<close> or from the I/O thread, with any outcome; between
  them the world changes as it likes.
\<close>

inductive ds_step :: "build \<Rightarrow> 'w asio_ops \<Rightarrow> 'w DebugServer \<Rightarrow> 'w DebugServer \<Rightarrow> bool"
  for b :: build and A :: "'w asio_ops" where
  start: "ds_start b A addr p s = (r, s') \<Longrightarrow> ds_step b A s s'"
| stop: "ds_step b A s (ds_stop A s)"
| update: "ds_update b A config s = (u, s') \<Longrightarrow> ds_step b A s s'"
| attach: "ds_step b A s (ds_attach i s)"
| detach: "ds_step b A s (ds_detach i s)"
| accept: "on_accept b A ec s = (r, s') \<Longrightarrow> ds_step b A s s'"
| world: "ds_step b A s (s\<lparr>ds_world := w\<rparr>)"

inductive ds_reach :: "build \<Rightarrow> 'w asio_ops \<Rightarrow> 'w DebugServer \<Rightarrow> bool"
  for b :: build and A :: "'w asio_ops" where
  new: "ds_reach b A (DebugServer_new w)"
| step: "ds_reach b A s \<Longrightarrow> ds_step b A s s' \<Longrightarrow> ds_reach b A s'"

lemma on_acceptor_keeps [keeps]:
  "(\<And>s w. f (s\<lparr>ds_world := w\<rparr>) = f s) \<Longrightarrow> st_keeps f (on_acceptor g)"
  by (auto simp: st_keeps_def on_acceptor_def split: option.split prod.split)

lemma ds_keeps [keeps]:
  "st_keeps ds_running (doAccept b A)" "st_keeps subscriber_list (doAccept b A)"
  "st_keeps ds_running (ds_start b A addr p)" "st_keeps subscriber_list (ds_start b A addr p)"
  by (auto simp: doAccept_def ds_start_def setListen_def new_acceptor_def intro!: keeps split: prod.splits)

lemma ds_keeps_subscribers [keeps]:
  "st_keeps subscriber_list (ds_update b A config)" "st_keeps subscriber_list (on_accept b A ec)"
  by (auto simp: ds_update_def on_accept_def ds_stop_def intro!: keeps)

lemma ds_keeps_running [keeps]: "st_keeps ds_running (on_accept b A ec)"
  by (auto simp: on_accept_def intro!: keeps)

lemma ds_update_idle:
  "\<not> ds_running s \<Longrightarrow> ds_update b A config s =
     (if dbgserv_enabled config
      then (case ds_start b A (dbgserv_addr config) (dbgserv_port config) s of
              (Inl e, s') \<Rightarrow> (Inl e, s') | (Inr _, s') \<Rightarrow> (Inr (), s'))
      else (Inr (), s))"
  by (simp add: ds_update_def st_bind_def st_get_def st_ret_def split: prod.split sum.split)

lemma ds_stop_idle: "\<not> ds_running s \<Longrightarrow> ds_stop A s = s"
  by (simp add: ds_stop_def)

lemma ds_step_idle: "ds_step b A s s' \<Longrightarrow> \<not> ds_running s \<Longrightarrow> \<not> ds_running s'"
proof (induction rule: ds_step.induct)
  case (start addr p s r s')
  then show ?case by (metis st_keepsD [OF ds_keeps(3)])
next
  case (update config s u s')
  then show ?case
    by (auto simp: ds_update_idle split: if_splits prod.splits sum.splits dest: st_keepsD [OF ds_keeps(3)])
next
  case (accept ec s r s')
  then show ?case by (metis st_keepsD [OF ds_keeps_running])
qed (auto simp: ds_stop_def ds_attach_def ds_detach_def Let_def split: option.split)

lemma ds_reach_idle: "ds_reach b A s \<Longrightarrow> \<not> ds_running s"
  by (induction rule: ds_reach.induct) (auto simp: DebugServer_new_def dest: ds_step_idle)

text \<open>
  Claim C35. The debug server cannot be switched off. Nothing ever sets its running flag, so in every
  state it can reach, stopping it does nothing, a configuration that disables it changes nothing, and
  every configuration that enables it opens a new acceptor, even one that changes neither address nor
  port.
\<close>

theorem debug_server_cannot_be_stopped:
  assumes "ds_reach b A s"
  shows "ds_stop A s = s \<and>
    (\<not> dbgserv_enabled config \<longrightarrow> ds_update b A config s = (Inr (), s)) \<and>
    (dbgserv_enabled config \<longrightarrow>
       snd (ds_update b A config s) = snd (ds_start b A (dbgserv_addr config) (dbgserv_port config) s))"
  using ds_reach_idle [OF assms] by (auto simp: ds_stop_idle ds_update_idle split: prod.split sum.split)

text \<open>A machine that counts the acceptors it has made and keeps the open ones.\<close>

definition demo_asio :: "(nat \<times> nat list) asio_ops" where
  "demo_asio =
     \<lparr>as_io = (\<lambda>w. Some True), as_address_ok = (\<lambda>a. True), as_new = (\<lambda>(n, l). (n, Suc n, l)),
      as_destroy = (\<lambda>a (n, l). (n, filter (\<lambda>k. k \<noteq> a) l)), as_open = (\<lambda>a addr (n, l). (True, n, a # l)),
      as_reuse = (\<lambda>a w. (True, w)), as_bind = (\<lambda>a addr p w. (True, w)), as_listen = (\<lambda>a w. (True, w)),
      as_accept = (\<lambda>a w. w), as_close = (\<lambda>a (n, l). (n, filter (\<lambda>k. k \<noteq> a) l))\<rparr>"

definition demo_server :: "(nat \<times> nat list) DebugServer" where
  "demo_server = snd (ds_update build.Debug demo_asio (setDebugServerEnabled True Configs_default) (DebugServer_new (0, [])))"

lemma demo_server_reach: "ds_reach build.Debug demo_asio demo_server"
  unfolding demo_server_def
  by (rule ds_reach.step [OF ds_reach.new ds_step.update]) (rule prod.collapse [symmetric])

theorem debug_server_cannot_be_stopped_witness:
  "ds_world demo_server = (1, [0]) \<and> ds_world (ds_stop demo_asio demo_server) = (1, [0]) \<and>
   ds_world (snd (ds_update build.Debug demo_asio (setDebugServerEnabled False Configs_default) demo_server)) = (1, [0]) \<and>
   ds_world (snd (ds_update build.Debug demo_asio (setDebugServerEnabled True Configs_default) demo_server)) = (2, [1])"
proof -
  have w: "ds_world demo_server = (1, [0])" by code_simp
  have again: "ds_world (snd (ds_start build.Debug demo_asio (dbgserv_addr (setDebugServerEnabled True Configs_default))
      (dbgserv_port (setDebugServerEnabled True Configs_default)) demo_server)) = (2, [1])" by code_simp
  have off: "\<not> dbgserv_enabled (setDebugServerEnabled False Configs_default)"
    and on: "dbgserv_enabled (setDebugServerEnabled True Configs_default)"
    by (simp_all add: setDebugServerEnabled_def)
  from debug_server_cannot_be_stopped [OF demo_server_reach, of "setDebugServerEnabled False Configs_default"]
    debug_server_cannot_be_stopped [OF demo_server_reach, of "setDebugServerEnabled True Configs_default"]
  show ?thesis using w again off on by simp
qed

text \<open>
  The subscriber list is a set. In every state the server can reach the list exists and names
  nobody twice; attaching adds exactly the subscriber, detaching removes exactly it, and an answered
  request reports what the subscribers add, in the order they were attached.
\<close>

theorem debug_subscribers_are_a_set:
  assumes "ds_reach b A s"
  shows "\<exists>l. subscriber_list s = Some l \<and> distinct l \<and>
    set (the (subscriber_list (ds_attach (Some i) s))) = insert i (set l) \<and>
    set (the (subscriber_list (ds_detach (Some i) s))) = set l - {i} \<and>
    ds_notify J version now update s =
      map_sum id (\<lambda>_. j_obj J (snd (st_each update l [(''version'', j_str J version), (''build_time'', j_str J now)])))
        (fst (st_each update l [(''version'', j_str J version), (''build_time'', j_str J now)]))"
proof -
  have "\<exists>l. subscriber_list s = Some l \<and> distinct l" using assms
  proof (induction rule: ds_reach.induct)
    case (step s s')
    from step.hyps(2) step.IH show ?case
      by (cases rule: ds_step.cases)
        (auto simp: ds_stop_def ds_attach_def ds_detach_def Let_def
          dest: st_keepsD [OF ds_keeps(4)] st_keepsD [OF ds_keeps_subscribers(1)] st_keepsD [OF ds_keeps_subscribers(2)]
          split: option.splits)
  qed (simp add: DebugServer_new_def)
  then show ?thesis
    by (auto simp: ds_attach_def ds_detach_def ds_notify_def Let_def split: prod.split sum.split)
qed

theorem debug_subscribers_are_a_set_witness:
  "the (subscriber_list (ds_attach (Some 7) (ds_attach (Some 7) demo_server))) = [7]"
proof -
  have "ds_reach build.Debug demo_asio (ds_attach (Some 7) demo_server)"
    by (rule ds_reach.step [OF demo_server_reach ds_step.attach])
  from debug_subscribers_are_a_set [OF this, of 7 ref_json "[]" "[]" "\<lambda>_. st_ret ()"]
  have "distinct (the (subscriber_list (ds_attach (Some 7) demo_server)))" by auto
  moreover have "subscriber_list demo_server = Some []" by code_simp
  ultimately show ?thesis by (simp add: ds_attach_def)
qed

end
