(* ===== verification/Examples.thy ===== *)
theory Examples
  imports Monitor Ringbuffer
begin

text \<open>
  \<^verbatim>\<open>src/services/examples/\<close>: the two tracepoint services. \<^verbatim>\<open>hello\<close> only loads its program; \<^verbatim>\<open>usermode\<close> also
  receives an event per \<^verbatim>\<open>execve\<close> from its kernel program and reports a counter to Prometheus.
\<close>

section \<open>hello\<close>

definition SERVICE_NAME_HELLO :: string where "SERVICE_NAME_HELLO = ''example_hello''"

definition hello_getName :: string where "hello_getName = SERVICE_NAME_HELLO"

text \<open>Unlike the packet services it goes on when the I/O module is gone.\<close>

definition hello_start :: "build \<Rightarrow> ('w, 's) skel_ops \<Rightarrow> (nat \<Rightarrow> bool) \<Rightarrow> nat option \<Rightarrow> (bool, ('w, 's) EbpfSkelIf) st" where
  "hello_start b K alive io =
     st_bind (skel_start alive io) (\<lambda>_.
     st_bind (skel_open K) (\<lambda>_.
     st_bind (st_get (\<lambda>s. skel s = None)) (\<lambda>null.
     if null then st_ret False
     else
       st_bind (skel_load b K) (\<lambda>_.
       st_bind (skel_attach b K) (\<lambda>_.
       st_ret True)))))"

definition hello_stop :: "build \<Rightarrow> ('w, 's) skel_ops \<Rightarrow> (unit, ('w, 's) EbpfSkelIf) st" where
  "hello_stop b K = st_bind (skel_detach b K) (\<lambda>_. skel_destroy b K)"

definition hello_create_service :: "'w \<Rightarrow> ('w, 's) EbpfSkelIf" where
  "hello_create_service w = EbpfSkelIf_new w None"

text \<open>The kernel program: its return value and what it writes to the trace pipe.\<close>

definition hello_handle_execve :: "int \<times> string" where
  "hello_handle_execve = (0, ''Hello from eBPF! Process executed: '')"

section \<open>usermode: the kernel program\<close>

text \<open>
  \<open>reserve\<close> gives the memory of one event with whatever count it holds, or null. The result is the
  program's return value and the event submitted.
\<close>

definition handle_execve :: "u64 option \<Rightarrow> int \<times> u64 option" where
  "handle_execve reserved =
     (case reserved of
        None \<Rightarrow> (0, None)
      | Some count \<Rightarrow> (0, Some (if count = 0 then 1 else count + 1)))"

section \<open>usermode: the service\<close>

definition SERVICE_NAME_USERMODE :: string where "SERVICE_NAME_USERMODE = ''example_usermode''"

record ('w, 's) ExampleUsermodeEbpf = "('w, 's) EbpfSkelIf" +
  um_ringbuff :: "unit Ringbuffer option"
  um_count :: u64

definition ExampleUsermodeEbpf_new :: "'w \<Rightarrow> 's option \<Rightarrow> ('w, 's) ExampleUsermodeEbpf" where
  "ExampleUsermodeEbpf_new w sk = \<lparr>kernel = w, skel = sk, io_ctx = None, um_ringbuff = None, um_count = 0\<rparr>"

definition usermode_create_service :: "'w \<Rightarrow> ('w, 's) ExampleUsermodeEbpf" where
  "usermode_create_service w = ExampleUsermodeEbpf_new w None"

definition usermode_getName :: string where "usermode_getName = SERVICE_NAME_USERMODE"

text \<open>\<open>addr\<close> is the address of the new ring buffer; the old one, if any, is destroyed when it is replaced.\<close>

definition usermode_load :: "build \<Rightarrow> ('w, 's) skel_ops \<Rightarrow> ('w, 'z) rb_ops_scheme \<Rightarrow> nat \<Rightarrow>
    (unit, ('w, 's) ExampleUsermodeEbpf) st" where
  "usermode_load b K F addr =
     st_bind (skel_load b K) (\<lambda>_.
     with_skel b (\<lambda>sk s.
       let fd = sk_map_fd K sk ''rb''
       in if fd < 0 then (Inl (Except (''Cannot get ringbuffer fd: '' @ SERVICE_NAME_USERMODE)), s)
          else
            let rb = Ringbuffer_new (Some fd) (io_ctx s) (Some ());
                w = (case um_ringbuff s of None \<Rightarrow> kernel s | Some old \<Rightarrow> Ringbuffer_destroy F old (kernel s))
            in case Ringbuffer_init F addr (rb, w) of
                 (r, rb', w') \<Rightarrow> (r, s\<lparr>um_ringbuff := Some rb', kernel := w'\<rparr>)))"

definition usermode_start :: "build \<Rightarrow> ('w, 's) skel_ops \<Rightarrow> ('w, 'z) rb_ops_scheme \<Rightarrow> nat \<Rightarrow> (nat \<Rightarrow> bool) \<Rightarrow> nat option \<Rightarrow>
    (bool, ('w, 's) ExampleUsermodeEbpf) st" where
  "usermode_start b K F addr alive io =
     st_bind (skel_start alive io) (\<lambda>_.
     st_bind (skel_open K) (\<lambda>_.
     st_bind (st_get (\<lambda>s. skel s = None)) (\<lambda>null.
     if null then st_ret False
     else
       st_bind (usermode_load b K F addr) (\<lambda>_.
       st_bind (skel_attach b K) (\<lambda>_.
       st_ret True)))))"

definition usermode_stop :: "build \<Rightarrow> ('w, 's) skel_ops \<Rightarrow> (unit, ('w, 's) ExampleUsermodeEbpf) st" where
  "usermode_stop b K = st_bind (skel_detach b K) (\<lambda>_. skel_destroy b K)"

text \<open>\<open>data\<close> is the event the pointer leads to, \<open>None\<close> for null.\<close>

definition usermode_onEvent :: "u64 option \<Rightarrow> nat \<Rightarrow> ('w, 's) ExampleUsermodeEbpf \<Rightarrow>
    int \<times> ('w, 's) ExampleUsermodeEbpf" where
  "usermode_onEvent data data_sz s =
     (if data_sz \<noteq> 8 then (-1, s)
      else case data of None \<Rightarrow> (0, s) | Some count \<Rightarrow> (0, s\<lparr>um_count := count\<rparr>))"

text \<open>\<open>to_double\<close> is the conversion of an unsigned number to \<^verbatim>\<open>double\<close>.\<close>

definition usermode_metric :: "'d \<Rightarrow> 'd KernelData" where
  "usermode_metric v = \<lparr>kd_name = ''execve_total'', kd_value = v, kd_labels = [(''service'', usermode_getName)]\<rparr>"

definition usermode_getPrometheusStatus :: "'j json_ops \<Rightarrow> ('j, 'd) num_ops \<Rightarrow> (u64 \<Rightarrow> 'd) \<Rightarrow>
    ('w, 's) ExampleUsermodeEbpf \<Rightarrow> 'j" where
  "usermode_getPrometheusStatus J N to_double s =
     Metrics_to_json J
       \<lparr>met_service = usermode_getName,
        met_metrics = (if um_count s > 0 then [KernelData_to_json J N (usermode_metric (to_double (um_count s)))] else [])\<rparr>"

section \<open>What Prometheus sees of it\<close>

text \<open>The consumer takes the reports of \<open>k\<close> turns of the producer, all of the same state.\<close>

definition consume_turns :: "'j json_ops \<Rightarrow> ('j, 'd) num_ops \<Rightarrow> ('w, 'd) prom_ops \<Rightarrow> 'd KernelData \<Rightarrow> nat \<Rightarrow> 'j \<Rightarrow>
    (unit, 'w Monitor option) st" where
  "consume_turns J N P kd0 k status = st_each (consume_status J N P kd0) (replicate k status)"

lemma usermode_clean: "clean_metric ''execve_total'' [(''service'', usermode_getName)]"
  by (simp add: clean_metric_def usermode_getName_def SERVICE_NAME_USERMODE_def)

text \<open>
  The \<^verbatim>\<open>execve\<close> counter grows without events. The service reports the last count it received at
  every turn of the producer, and the monitor adds what it is given: over \<open>k\<close> turns in which nothing
  happens, the Prometheus counter grows by \<open>k\<close> times the count.
\<close>

theorem usermode_counter_inflates:
  assumes "prom_registry P reg val" and "payload_lib J N" and "mon_ok reg m" and "0 < um_count s"
    and "consume_turns J N P kd0 k (usermode_getPrometheusStatus J N to_double s) (Some m) = (Inr (), t)"
  shows "\<exists>m'. t = Some m' \<and> mon_ok reg m' \<and>
    value_of reg val m' ''execve_total'' [(''service'', usermode_getName)] =
      value_of reg val m ''execve_total'' [(''service'', usermode_getName)] + k * unat (p_u64 P (to_double (um_count s)))"
  using assms(3,5)
proof (induction k arbitrary: m)
  case 0
  then show ?case by (auto simp: consume_turns_def st_ret_def)
next
  case (Suc k)
  let ?status = "usermode_getPrometheusStatus J N to_double s" and ?d = "to_double (um_count s)"
  let ?n = "''execve_total''" and ?l = "[(''service'', usermode_getName)]"
  have es: "status_events J N kd0 ?status = Inr [(?n, ?l, ?d)]"
    using payload_lib.status_events_of [OF assms(2), of kd0 usermode_getName "[usermode_metric ?d]"] assms(4)
    by (simp add: usermode_getPrometheusStatus_def usermode_metric_def)
  obtain r m1 where inc: "incrementCounter P ?n ?l ?d m = (r, m1)" by fastforce
  have "consume_status J N P kd0 ?status (Some m) = (r, Some m1)"
    by (simp add: consume_status_increments [OF es] st_bind_def inc st_ret_def split: sum.split)
  then have m1: "incrementCounter P ?n ?l ?d m = (Inr (), m1)"
    and rest: "consume_turns J N P kd0 k ?status (Some m1) = (Inr (), t)"
    using Suc.prems(2) inc by (auto simp: consume_turns_def st_bind_def split: sum.splits)
  note one = prom_registry.increment_one [OF assms(1) Suc.prems(1) usermode_clean m1]
  from Suc.IH [OF one(1) rest] one(2) [OF usermode_clean] show ?case by auto
qed

theorem usermode_counter_inflates_witness:
  "\<exists>m'. snd (consume_turns ref_json ref_num ref_prom demo_kd 3
       (usermode_getPrometheusStatus ref_json ref_num ucast
          (snd (usermode_onEvent (Some 5) 8 \<lparr>kernel = (), skel = Some (), io_ctx = None, um_ringbuff = None, um_count = 0\<rparr>)))
       (Some demo_mon)) = Some m' \<and>
     value_of ref_reg snd m' ''execve_total'' [(''service'', usermode_getName)] = 15"
proof -
  let ?s = "snd (usermode_onEvent (Some 5) 8 \<lparr>kernel = (), skel = Some (), io_ctx = None, um_ringbuff = None, um_count = 0\<rparr>)"
  let ?run = "consume_turns ref_json ref_num ref_prom demo_kd 3 (usermode_getPrometheusStatus ref_json ref_num ucast ?s) (Some demo_mon)"
  have "fst ?run = Inr ()" by code_simp
  then obtain t where run: "?run = (Inr (), t)" by (metis prod.collapse)
  have mon: "mon_ok ref_reg demo_mon" by (simp add: mon_ok_def demo_mon_def ref_reg_def)
  have count: "um_count ?s = 5" by (simp add: usermode_onEvent_def)
  have start: "value_of ref_reg snd demo_mon ''execve_total'' [(''service'', usermode_getName)] = 0"
    by (simp add: value_of_def demo_mon_def ref_reg_def)
  have five: "unat (p_u64 ref_prom (ucast (5 :: u64))) = 5" by code_simp
  from usermode_counter_inflates [OF refprom.prom_registry_axioms refpay.payload_lib_axioms mon _ run] count start five
  show ?thesis by (auto simp: run)
qed

end
