(* ===== verification/Shutdown.thy ===== *)
theory Shutdown
  imports Prelude
begin

text \<open>
  How \<^verbatim>\<open>Daemon::stop\<close> and \<^verbatim>\<open>MonitorSubscriber::stop\<close> meet the threads they join: both take a mutex and
  keep it while they wait for a thread that takes the same mutex. The steps of the stopping thread and
  of the worker interleave freely; the services' work, which shares nothing with \<^verbatim>\<open>stop\<close>, is left out.
\<close>

section \<open>Threads\<close>

text \<open>
  The stopping thread: before the call, waiting for the mutex, waiting in \<^verbatim>\<open>join\<close> with the mutex held,
  back from the call. The worker: at the loop's condition, asleep or waiting for an element, in a turn
  with some elements left, before and after taking the mutex for one of them, ended.
\<close>

datatype stopper = Before | Wants_mutex | Joining | Returned

datatype worker = Top | Asleep | Turn nat | Wants nat | Holds nat | Ended

datatype holder = Stopper | Worker

record threads =
  th_running :: bool
  th_mutex :: "holder option"
  th_queue_stopped :: bool
  stopper :: stopper
  worker :: worker

definition threads_start :: threads where
  "threads_start =
     \<lparr>th_running = True, th_mutex = None, th_queue_stopped = False, stopper = Before, worker = Top\<rparr>"

section \<open>Daemon::stop and the producer\<close>

text \<open>
  A turn of the producer visits any number of services; for one that reports a status it takes
  \<^verbatim>\<open>queue_mutex_\<close> to copy the queue pointer. \<^verbatim>\<open>stop\<close> clears the flag first.
\<close>

inductive daemon_step :: "threads \<Rightarrow> threads \<Rightarrow> bool" where
  stop_call: "stopper s = Before \<Longrightarrow> daemon_step s (s\<lparr>th_running := False, stopper := Wants_mutex\<rparr>)"
| stop_lock: "stopper s = Wants_mutex \<Longrightarrow> th_mutex s = None \<Longrightarrow>
    daemon_step s (s\<lparr>th_mutex := Some Stopper, stopper := Joining\<rparr>)"
| stop_joined: "stopper s = Joining \<Longrightarrow> worker s = Ended \<Longrightarrow>
    daemon_step s (s\<lparr>th_queue_stopped := True, th_mutex := None, stopper := Returned\<rparr>)"
| turn: "worker s = Top \<Longrightarrow> th_running s \<Longrightarrow> daemon_step s (s\<lparr>worker := Turn n\<rparr>)"
| leave: "worker s = Top \<Longrightarrow> \<not> th_running s \<Longrightarrow> daemon_step s (s\<lparr>worker := Ended\<rparr>)"
| no_status: "worker s = Turn (Suc n) \<Longrightarrow> daemon_step s (s\<lparr>worker := Turn n\<rparr>)"
| status: "worker s = Turn (Suc n) \<Longrightarrow> daemon_step s (s\<lparr>worker := Wants n\<rparr>)"
| lock: "worker s = Wants n \<Longrightarrow> th_mutex s = None \<Longrightarrow> daemon_step s (s\<lparr>th_mutex := Some Worker, worker := Holds n\<rparr>)"
| unlock: "worker s = Holds n \<Longrightarrow> daemon_step s (s\<lparr>th_mutex := None, worker := Turn n\<rparr>)"
| sleep: "worker s = Turn 0 \<Longrightarrow> daemon_step s (s\<lparr>worker := Asleep\<rparr>)"
| wake: "worker s = Asleep \<Longrightarrow> daemon_step s (s\<lparr>worker := Top\<rparr>)"

section \<open>MonitorSubscriber::stop and the consumer\<close>

text \<open>
  The consumer waits for a status and takes \<^verbatim>\<open>mutex_\<close> for each of its elements. \<^verbatim>\<open>stop\<close> clears the flag,
  takes \<^verbatim>\<open>mutex_\<close>, stops the queue, which wakes a waiting consumer with nothing, and joins.
\<close>

inductive monitor_step :: "threads \<Rightarrow> threads \<Rightarrow> bool" where
  stop_call: "stopper s = Before \<Longrightarrow> monitor_step s (s\<lparr>th_running := False, stopper := Wants_mutex\<rparr>)"
| stop_lock: "stopper s = Wants_mutex \<Longrightarrow> th_mutex s = None \<Longrightarrow>
    monitor_step s (s\<lparr>th_mutex := Some Stopper, th_queue_stopped := True, stopper := Joining\<rparr>)"
| stop_joined: "stopper s = Joining \<Longrightarrow> worker s = Ended \<Longrightarrow>
    monitor_step s (s\<lparr>th_mutex := None, stopper := Returned\<rparr>)"
| wait: "worker s = Top \<Longrightarrow> th_running s \<Longrightarrow> monitor_step s (s\<lparr>worker := Asleep\<rparr>)"
| leave: "worker s = Top \<Longrightarrow> \<not> th_running s \<Longrightarrow> monitor_step s (s\<lparr>worker := Ended\<rparr>)"
| popped: "worker s = Asleep \<Longrightarrow> \<not> th_queue_stopped s \<Longrightarrow> monitor_step s (s\<lparr>worker := Turn n\<rparr>)"
| nothing: "worker s = Asleep \<Longrightarrow> th_queue_stopped s \<Longrightarrow> monitor_step s (s\<lparr>worker := Top\<rparr>)"
| element: "worker s = Turn (Suc n) \<Longrightarrow> monitor_step s (s\<lparr>worker := Wants n\<rparr>)"
| lock: "worker s = Wants n \<Longrightarrow> th_mutex s = None \<Longrightarrow> monitor_step s (s\<lparr>th_mutex := Some Worker, worker := Holds n\<rparr>)"
| unlock: "worker s = Holds n \<Longrightarrow> monitor_step s (s\<lparr>th_mutex := None, worker := Turn n\<rparr>)"
| finished: "worker s = Turn 0 \<Longrightarrow> monitor_step s (s\<lparr>worker := Top\<rparr>)"

section \<open>The mutex has one holder\<close>

definition mutex_ok :: "threads \<Rightarrow> bool" where
  "mutex_ok s \<longleftrightarrow>
     (th_mutex s = Some Stopper \<longleftrightarrow> stopper s = Joining) \<and>
     (th_mutex s = Some Worker \<longleftrightarrow> (\<exists>n. worker s = Holds n)) \<and>
     (stopper s = Before \<longleftrightarrow> th_running s) \<and>
     (stopper s = Returned \<longrightarrow> worker s = Ended) \<and>
     (worker s = Ended \<longrightarrow> \<not> th_running s)"

lemma start_ok: "mutex_ok threads_start"
  by (simp add: mutex_ok_def threads_start_def)

lemma daemon_step_ok: "daemon_step s t \<Longrightarrow> mutex_ok s \<Longrightarrow> mutex_ok t"
  by (induction rule: daemon_step.induct) (auto simp: mutex_ok_def)

lemma monitor_step_ok: "monitor_step s t \<Longrightarrow> mutex_ok s \<Longrightarrow> mutex_ok t"
  by (induction rule: monitor_step.induct) (auto simp: mutex_ok_def)

lemma daemon_steps_ok: "daemon_step\<^sup>*\<^sup>* s t \<Longrightarrow> mutex_ok s \<Longrightarrow> mutex_ok t"
  by (induction rule: rtranclp_induct) (auto intro: daemon_step_ok)

lemma monitor_steps_ok: "monitor_step\<^sup>*\<^sup>* s t \<Longrightarrow> mutex_ok s \<Longrightarrow> mutex_ok t"
  by (induction rule: rtranclp_induct) (auto intro: monitor_step_ok)

section \<open>After stop is called, every run ends\<close>

definition stop_rank :: "threads \<Rightarrow> nat" where
  "stop_rank s = (case stopper s of Before \<Rightarrow> 3 | Wants_mutex \<Rightarrow> 2 | Joining \<Rightarrow> 1 | Returned \<Rightarrow> 0)"

definition producer_phase :: "threads \<Rightarrow> nat" where
  "producer_phase s = (case worker s of Ended \<Rightarrow> 0 | Top \<Rightarrow> 1 | Asleep \<Rightarrow> 2 | _ \<Rightarrow> 3)"

definition consumer_phase :: "threads \<Rightarrow> nat" where
  "consumer_phase s = (case worker s of Ended \<Rightarrow> 0 | Top \<Rightarrow> 1 | Asleep \<Rightarrow> 3 | _ \<Rightarrow> 2)"

definition turn_left :: "threads \<Rightarrow> nat" where
  "turn_left s = (case worker s of Turn n \<Rightarrow> 3 * n | Holds n \<Rightarrow> 3 * n + 1 | Wants n \<Rightarrow> 3 * n + 2 | _ \<Rightarrow> 0)"

lemmas thread_ranks = stop_rank_def producer_phase_def consumer_phase_def turn_left_def

lemma daemon_step_less:
  "daemon_step s t \<Longrightarrow> \<not> th_running s \<Longrightarrow>
   \<not> th_running t \<and> (t, s) \<in> measures [stop_rank, producer_phase, turn_left]"
  by (induction rule: daemon_step.induct) (auto simp: thread_ranks)

lemma monitor_step_less:
  "monitor_step s t \<Longrightarrow> \<not> th_running s \<Longrightarrow>
   \<not> th_running t \<and> (t, s) \<in> measures [stop_rank, consumer_phase, turn_left]"
  by (induction rule: monitor_step.induct) (auto simp: thread_ranks)

text \<open>No run from a state goes on forever.\<close>

definition ends :: "(threads \<Rightarrow> threads \<Rightarrow> bool) \<Rightarrow> threads \<Rightarrow> bool" where
  "ends R s \<longleftrightarrow> (\<nexists>run. run 0 = s \<and> (\<forall>i::nat. R (run i) (run (Suc i))))"

lemma ends_by_rank:
  assumes less: "\<And>s t. R s t \<Longrightarrow> I s \<Longrightarrow> I t \<and> (t, s) \<in> r" and "wf r" and "I s"
  shows "ends R s"
proof (unfold ends_def, rule notI)
  assume "\<exists>run. run 0 = s \<and> (\<forall>i::nat. R (run i) (run (Suc i)))"
  then obtain run where run: "run 0 = s" "\<And>i. R (run i) (run (Suc i))" by auto
  have I: "I (run i)" for i
    using \<open>I s\<close> by (induction i) (auto simp: run(1) dest: less [OF run(2)])
  with less [OF run(2)] have "\<forall>i. (run (Suc i), run i) \<in> r" by blast
  with \<open>wf r\<close> show False by (auto simp: wf_iff_no_infinite_down_chain)
qed

definition deadlocked :: "threads \<Rightarrow> bool" where
  "deadlocked s \<longleftrightarrow> stopper s = Joining \<and> th_mutex s = Some Stopper \<and> (\<exists>n. worker s = Wants n)"

lemma mutex_free: "mutex_ok s \<Longrightarrow> th_mutex s = None \<longleftrightarrow> stopper s \<noteq> Joining \<and> (\<forall>n. worker s \<noteq> Holds n)"
  by (cases "th_mutex s"; cases "the (th_mutex s)") (auto simp: mutex_ok_def)

lemma daemon_stuck:
  assumes ok: "mutex_ok s" and off: "\<not> th_running s" and stuck: "\<And>u. \<not> daemon_step s u"
  shows "stopper s = Returned \<or> deadlocked s"
proof (cases "worker s")
  case (Wants n)
  then have "th_mutex s \<noteq> None" using stuck daemon_step.lock by blast
  with Wants mutex_free [OF ok] ok show ?thesis by (auto simp: deadlocked_def mutex_ok_def)
next
  case (Turn n)
  then show ?thesis using stuck by (cases n) (blast intro: daemon_step.intros)+
next
  case Ended
  then show ?thesis
    using stuck ok off mutex_free [OF ok] daemon_step.stop_lock [of s] daemon_step.stop_joined [of s]
    by (cases "stopper s") (auto simp: mutex_ok_def)
qed (use stuck off in \<open>blast intro: daemon_step.intros\<close>)+

lemma monitor_stuck:
  assumes ok: "mutex_ok s" and off: "\<not> th_running s" and stuck: "\<And>u. \<not> monitor_step s u"
  shows "stopper s = Returned \<or> deadlocked s"
proof (cases "worker s")
  case (Wants n)
  then have "th_mutex s \<noteq> None" using stuck monitor_step.lock by blast
  with Wants mutex_free [OF ok] ok show ?thesis by (auto simp: deadlocked_def mutex_ok_def)
next
  case (Turn n)
  then show ?thesis using stuck by (cases n) (blast intro: monitor_step.intros)+
next
  case Ended
  then show ?thesis
    using stuck ok off mutex_free [OF ok] monitor_step.stop_lock [of s] monitor_step.stop_joined [of s]
    by (cases "stopper s") (auto simp: mutex_ok_def)
qed (use stuck off in \<open>blast intro: monitor_step.intros\<close>)+


text \<open>\<^verbatim>\<open>stop\<close> was called while the worker slept.\<close>

definition stopping :: threads where
  "stopping = threads_start\<lparr>th_running := False, stopper := Wants_mutex, worker := Asleep\<rparr>"


inductive_simps deadlock_simps:
  "daemon_step \<lparr>th_running = False, th_mutex = Some Stopper, th_queue_stopped = q, stopper = Joining, worker = Wants n\<rparr> u"
  "monitor_step \<lparr>th_running = False, th_mutex = Some Stopper, th_queue_stopped = q, stopper = Joining, worker = Wants n\<rparr> u"

lemma daemon_runs_to_deadlock:
  "daemon_step\<^sup>*\<^sup>* threads_start
     \<lparr>th_running = False, th_mutex = Some Stopper, th_queue_stopped = False, stopper = Joining, worker = Wants n\<rparr>"
proof -
  let ?s1 = "threads_start\<lparr>worker := Turn (Suc n)\<rparr>"
  let ?s2 = "?s1\<lparr>worker := Wants n\<rparr>"
  let ?s3 = "?s2\<lparr>th_running := False, stopper := Wants_mutex\<rparr>"
  have "daemon_step threads_start ?s1" by (rule daemon_step.turn) (simp_all add: threads_start_def)
  moreover have "daemon_step ?s1 ?s2" by (rule daemon_step.status) simp
  moreover have "daemon_step ?s2 ?s3" by (rule daemon_step.stop_call) (simp add: threads_start_def)
  moreover have "daemon_step ?s3 (?s3\<lparr>th_mutex := Some Stopper, stopper := Joining\<rparr>)"
    by (rule daemon_step.stop_lock) (simp_all add: threads_start_def)
  ultimately show ?thesis by (simp add: threads_start_def converse_rtranclp_into_rtranclp)
qed

lemma monitor_runs_to_deadlock:
  "monitor_step\<^sup>*\<^sup>* threads_start
     \<lparr>th_running = False, th_mutex = Some Stopper, th_queue_stopped = True, stopper = Joining, worker = Wants n\<rparr>"
proof -
  let ?s0 = "threads_start\<lparr>worker := Asleep\<rparr>"
  let ?s1 = "?s0\<lparr>worker := Turn (Suc n)\<rparr>"
  let ?s2 = "?s1\<lparr>worker := Wants n\<rparr>"
  let ?s3 = "?s2\<lparr>th_running := False, stopper := Wants_mutex\<rparr>"
  have "monitor_step threads_start ?s0" by (rule monitor_step.wait) (simp_all add: threads_start_def)
  moreover have "monitor_step ?s0 ?s1" by (rule monitor_step.popped) (simp_all add: threads_start_def)
  moreover have "monitor_step ?s1 ?s2" by (rule monitor_step.element) simp
  moreover have "monitor_step ?s2 ?s3" by (rule monitor_step.stop_call) (simp add: threads_start_def)
  moreover have "monitor_step ?s3 (?s3\<lparr>th_mutex := Some Stopper, th_queue_stopped := True, stopper := Joining\<rparr>)"
    by (rule monitor_step.stop_lock) (simp_all add: threads_start_def)
  ultimately show ?thesis by (simp add: threads_start_def converse_rtranclp_into_rtranclp)
qed

text \<open>
  Claim C32. Both \<^verbatim>\<open>stop\<close> calls can deadlock. From the start the daemon reaches a state in which \<^verbatim>\<open>stop\<close> holds
  the queue mutex and joins the producer, which has a status to deliver and waits for that mutex, and
  nothing can happen any more; the same for the monitor and its consumer.
\<close>

theorem stop_can_deadlock:
  "(\<exists>s. daemon_step\<^sup>*\<^sup>* threads_start s \<and> deadlocked s \<and> (\<nexists>u. daemon_step s u)) \<and>
   (\<exists>s. monitor_step\<^sup>*\<^sup>* threads_start s \<and> deadlocked s \<and> (\<nexists>u. monitor_step s u))"
proof (intro conjI exI)
  show "daemon_step\<^sup>*\<^sup>* threads_start
      \<lparr>th_running = False, th_mutex = Some Stopper, th_queue_stopped = False, stopper = Joining, worker = Wants 0\<rparr>"
    by (rule daemon_runs_to_deadlock)
  show "monitor_step\<^sup>*\<^sup>* threads_start
      \<lparr>th_running = False, th_mutex = Some Stopper, th_queue_stopped = True, stopper = Joining, worker = Wants 0\<rparr>"
    by (rule monitor_runs_to_deadlock)
qed (simp_all add: deadlocked_def deadlock_simps)

end
