(* ===== verification/Logger.thy ===== *)
theory Logger
  imports Enums
begin

text \<open>
  \<^verbatim>\<open>src/log/\<close>: the process-wide log settings and the cache of loggers, with the two logging macros. The
  static variables of logger.cc are the record \<open>log_state\<close>; spdlog's loggers are what this code sets
  of them; \<open>level_num\<close> is \<^verbatim>\<open>static_cast<uint32_t>\<close> of a level. The log file's name is \<^verbatim>\<open>HEBPF_PROJECT\<close>, the argument \<open>proj\<close>.
\<close>

section \<open>State\<close>

record logger =
  lg_file :: string
  lg_stdout :: bool
  lg_level :: Level

record log_state =
  g_map :: "(string \<times> logger) list"
  g_level :: Level
  g_logfile :: string
  g_stdout :: bool

definition LOGFILE_DEFAULT :: "string \<Rightarrow> string" where
  "LOGFILE_DEFAULT proj = ''/var/run/log/'' @ proj @ ''.log''"

definition log_init :: "string \<Rightarrow> log_state" where
  "log_init proj = \<lparr>g_map = [], g_level = LOGLEVEL_DEFAULT, g_logfile = LOGFILE_DEFAULT proj, g_stdout = False\<rparr>"

section \<open>Logger\<close>

definition Logger_getLevel :: "log_state \<Rightarrow> Level" where
  "Logger_getLevel s = g_level s"

text \<open>\<open>can_open\<close>: whether the rotating sink can open the file; else its constructor throws.\<close>

definition getLogger :: "string \<Rightarrow> (string \<Rightarrow> bool) \<Rightarrow> string \<Rightarrow> (logger, log_state) st" where
  "getLogger proj can_open log_name s =
     (let log_name2 = (if log_name = [] then proj else log_name)
      in case map_of (g_map s) log_name2 of
           Some l \<Rightarrow> (Inr l, s)
         | None \<Rightarrow>
             if \<not> can_open (g_logfile s) then (Inl (StdError ''spdlog_ex''), s)
             else let temp = \<lparr>lg_file = g_logfile s, lg_stdout = g_stdout s, lg_level = g_level s\<rparr>
                  in (Inr temp, s\<lparr>g_map := al_upd log_name2 temp (g_map s)\<rparr>))"

text \<open>
  \<^verbatim>\<open>GLOBAL_LOG\<close>: the logger of the given name is only looked up when the global level lets
  the message through, and the logger checks its own level again. The result is where the line went.
\<close>

definition log_line :: "string \<Rightarrow> (string \<Rightarrow> bool) \<Rightarrow> string \<Rightarrow> Level \<Rightarrow> ((string \<times> bool) option, log_state) st" where
  "log_line proj can_open name lev =
     st_bind (st_get (\<lambda>s. level_num lev \<ge> level_num (g_level s))) (\<lambda>pass.
     if \<not> pass then st_ret None
     else
       st_bind (getLogger proj can_open name) (\<lambda>l.
       st_ret (if level_num lev \<ge> level_num (lg_level l) then Some (lg_file l, lg_stdout l) else None)))"

definition GLOBAL_LOG :: "string \<Rightarrow> (string \<Rightarrow> bool) \<Rightarrow> Level \<Rightarrow> ((string \<times> bool) option, log_state) st" where
  "GLOBAL_LOG proj can_open lev = log_line proj can_open proj lev"

section \<open>Loggers of the modules\<close>

text \<open>\<^verbatim>\<open>log::Id\<close>: the modules that log through \<^verbatim>\<open>Loggable\<close>. \<^verbatim>\<open>LOG\<close> takes the logger of the class it stands in.\<close>

datatype Id = Id_cmdline | Id_daemon | Id_debug_server | Id_ebpf | Id_fd | Id_hebpf | Id_inotify | Id_io | Id_monitor
  | Id_prometheus | Id_signal | Id_MAXSIZE

definition Id_enum :: "Id enum_table" where
  "Id_enum =
     [(Id_cmdline, ''cmdline''), (Id_daemon, ''daemon''), (Id_debug_server, ''debug_server''), (Id_ebpf, ''ebpf''),
      (Id_fd, ''fd''), (Id_hebpf, ''hebpf''), (Id_inotify, ''inotify''), (Id_io, ''io''), (Id_monitor, ''monitor''),
      (Id_prometheus, ''prometheus''), (Id_signal, ''signal''), (Id_MAXSIZE, ''MAXSIZE'')]"

interpretation id_enum: enumeration Id_enum
proof unfold_locales
  fix e
  show "e \<in> set (map fst Id_enum)"
    by (cases e) (simp_all add: Id_enum_def)
qed (simp_all add: Id_enum_def)

definition getModuleLogger :: "string \<Rightarrow> (string \<Rightarrow> bool) \<Rightarrow> Id \<Rightarrow> (logger, log_state) st" where
  "getModuleLogger proj can_open i = getLogger proj can_open (enumName Id_enum i)"

definition LOG :: "string \<Rightarrow> (string \<Rightarrow> bool) \<Rightarrow> Id \<Rightarrow> Level \<Rightarrow> ((string \<times> bool) option, log_state) st" where
  "LOG proj can_open i lev =
     st_bind (st_get (\<lambda>s. level_num lev \<ge> level_num (g_level s))) (\<lambda>pass.
     if \<not> pass then st_ret None
     else
       st_bind (getModuleLogger proj can_open i) (\<lambda>l.
       st_ret (if level_num lev \<ge> level_num (lg_level l) then Some (lg_file l, lg_stdout l) else None)))"

text \<open>
  The module named like the project shares the global logger; any other module has one of its own, which
  its lines make at most once and no other module's.
\<close>

lemma LOG_of_project: "LOG ''hebpf'' can_open Id_hebpf = GLOBAL_LOG ''hebpf'' can_open"
  by (rule ext) (simp add: LOG_def GLOBAL_LOG_def log_line_def getModuleLogger_def enumName_def Id_enum_def cong: if_cong)

lemma LOG_makes_one:
  assumes "LOG proj can_open i lev s = (r, s')"
  shows "s' = s \<or> (map_of (g_map s) (enumName Id_enum i) = None \<and>
    s' = s\<lparr>g_map := al_upd (enumName Id_enum i) \<lparr>lg_file = g_logfile s, lg_stdout = g_stdout s, lg_level = g_level s\<rparr> (g_map s)\<rparr>)"
proof -
  have "enumName Id_enum i \<noteq> []" by (cases i) (simp_all add: enumName_def Id_enum_def)
  then show ?thesis
    using assms
    by (auto simp: LOG_def getModuleLogger_def getLogger_def st_simps Let_def split: if_splits option.splits)
qed

lemma LOG_leaves_others:
  assumes "LOG proj can_open i lev s = (r, s')" and "j \<noteq> i"
  shows "map_of (g_map s') (enumName Id_enum j) = map_of (g_map s) (enumName Id_enum j)"
  using LOG_makes_one [OF assms(1)] assms(2) by (auto simp: al_simps id_enum.enumName_inj)

section \<open>LogConfig\<close>

definition log_setLevel :: "Level \<Rightarrow> log_state \<Rightarrow> log_state" where
  "log_setLevel lev s = s\<lparr>g_level := lev\<rparr>"

definition log_setLevel_name :: "string \<Rightarrow> (string \<Rightarrow> bool) \<Rightarrow> string \<Rightarrow> (unit, log_state) st" where
  "log_setLevel_name proj can_open level_str =
     st_bind (GLOBAL_LOG proj can_open info) (\<lambda>_.
     st_mod (log_setLevel (case stringEnum Level_enum level_str of Some l \<Rightarrow> l | None \<Rightarrow> LOGLEVEL_DEFAULT)))"

text \<open>\<^verbatim>\<open>path /= name\<close>: a separator is put in unless the path ends in one.\<close>

definition path_join :: "string \<Rightarrow> string \<Rightarrow> string" where
  "path_join p n = (if p = [] \<or> last p = CHR ''/'' then p @ n else p @ ''/'' @ n)"

text \<open>\<open>is_dir\<close> is \<^verbatim>\<open>std::filesystem::is_directory\<close>.\<close>

definition log_setLogFile :: "string \<Rightarrow> (string \<Rightarrow> bool) \<Rightarrow> (string \<Rightarrow> bool) \<Rightarrow> string \<Rightarrow> (unit, log_state) st" where
  "log_setLogFile proj can_open is_dir file =
     st_bind (if file \<noteq> [] then st_bind (GLOBAL_LOG proj can_open info) (\<lambda>_. st_ret ()) else st_ret ()) (\<lambda>_.
     let log_path = (if file = [] then LOGFILE_DEFAULT proj else file);
         log_path' = (if is_dir log_path then path_join log_path (proj @ ''.log'') else log_path)
     in st_mod (\<lambda>s. s\<lparr>g_logfile := log_path'\<rparr>))"

definition log_setStdout :: "bool \<Rightarrow> log_state \<Rightarrow> log_state" where
  "log_setStdout on s = s\<lparr>g_stdout := on\<rparr>"

text \<open>What \<^verbatim>\<open>main\<close> does with the options before it logs its first line.\<close>

definition main_log_setup :: "string \<Rightarrow> (string \<Rightarrow> bool) \<Rightarrow> (string \<Rightarrow> bool) \<Rightarrow> string \<Rightarrow> Level \<Rightarrow> (unit, log_state) st" where
  "main_log_setup proj can_open is_dir file lev =
     st_bind (st_mod (log_setStdout True)) (\<lambda>_.
     st_bind (log_setLogFile proj can_open is_dir file) (\<lambda>_.
     st_mod (log_setLevel lev)))"

section \<open>Properties\<close>

text \<open>
  The loggers in the cache are never replaced: what a logger was made with, it keeps.
\<close>

lemma getLogger_cached: "map_of (g_map s) n = Some l \<Longrightarrow> n \<noteq> [] \<Longrightarrow> getLogger proj can_open n s = (Inr l, s)"
  by (simp add: getLogger_def)

lemma getLogger_keeps: "getLogger proj can_open n s = (r, s') \<Longrightarrow> map_of (g_map s) m = Some l \<Longrightarrow> map_of (g_map s') m = Some l"
  by (auto simp: getLogger_def Let_def al_simps split: option.splits if_splits)

text \<open>
  The options for the log come too late for the global logger. Setting the log file writes a
  line first, which makes the global logger with the default file and the default level; the cache
  keeps it. Whatever file and level were asked for, global messages go to the default file, and those
  below \<^verbatim>\<open>info\<close> nowhere, while the module loggers made later follow the options.
\<close>

theorem log_options_come_too_late:
  assumes "can_open (LOGFILE_DEFAULT proj)" and "proj \<noteq> []" and "file \<noteq> []"
    and "main_log_setup proj can_open is_dir file lev (log_init proj) = (r, s)"
  shows "r = Inr () \<and>
    fst (GLOBAL_LOG proj can_open m s) =
      Inr (if level_num m \<ge> level_num lev \<and> level_num m \<ge> level_num info then Some (LOGFILE_DEFAULT proj, True) else None) \<and>
    (name \<noteq> proj \<and> name \<noteq> [] \<and> \<not> is_dir file \<and> can_open file \<longrightarrow>
      fst (log_line proj can_open name m s) = Inr (if level_num m \<ge> level_num lev then Some (file, True) else None))"
proof -
  have "r = Inr () \<and> s = \<lparr>g_map = [(proj, \<lparr>lg_file = LOGFILE_DEFAULT proj, lg_stdout = True, lg_level = info\<rparr>)],
      g_level = lev, g_logfile = (if is_dir file then path_join file (proj @ ''.log'') else file), g_stdout = True\<rparr>"
    using assms
    by (auto simp: main_log_setup_def log_setStdout_def log_setLogFile_def log_setLevel_def GLOBAL_LOG_def log_line_def
        getLogger_def log_init_def LOGLEVEL_DEFAULT_def st_simps Let_def)
  then show ?thesis
    using assms(1-3) by (auto simp: GLOBAL_LOG_def log_line_def getLogger_def st_simps Let_def)
qed

theorem log_options_come_too_late_witness:
  "fst (GLOBAL_LOG ''hebpf'' (\<lambda>f. True) debug
       (snd (main_log_setup ''hebpf'' (\<lambda>f. True) (\<lambda>f. False) ''/tmp/my.log'' debug (log_init ''hebpf'')))) = Inr None \<and>
   fst (GLOBAL_LOG ''hebpf'' (\<lambda>f. True) error
       (snd (main_log_setup ''hebpf'' (\<lambda>f. True) (\<lambda>f. False) ''/tmp/my.log'' debug (log_init ''hebpf'')))) =
     Inr (Some (''/var/run/log/hebpf.log'', True))"
proof -
  let ?run = "main_log_setup ''hebpf'' (\<lambda>f. True) (\<lambda>f. False) ''/tmp/my.log'' debug (log_init ''hebpf'')"
  obtain r s where run: "?run = (r, s)" by fastforce
  from log_options_come_too_late [OF _ _ _ run, of debug "[]"] log_options_come_too_late [OF _ _ _ run, of error "[]"]
  show ?thesis by (simp add: run LOGFILE_DEFAULT_def)
qed

end
