(* ===== verification/Io_Context.thy ===== *)
theory Io_Context
  imports Prelude
begin

text \<open>
  \<^verbatim>\<open>src/io/io.cc\<close>: the I/O thread and the descriptors it waits for. boost::asio is what its handlers see
  of it: posted work and completed waits run one after the other on the one thread that calls \<^verbatim>\<open>run\<close>,
  and an exception that leaves a handler leaves \<^verbatim>\<open>run\<close>.
\<close>

section \<open>State\<close>

text \<open>
  A watcher is a \<^verbatim>\<open>DescriptorBase\<close>: its duplicated descriptor, its handler (null by default), whether
  somebody still owns it, and whether a wait is pending. \<open>io_posts\<close> are the starts that were posted;
  each keeps its watcher alive.
\<close>

record 'h watcher =
  wt_fd :: int
  wt_handler :: "'h option"
  wt_owned :: bool
  wt_waiting :: bool

record 'h Io =
  io_thread :: bool
  io_watchers :: "'h watcher list"
  io_posts :: "nat list"

definition Io_new :: "'h Io" where
  "Io_new = \<lparr>io_thread = True, io_watchers = [], io_posts = []\<rparr>"

text \<open>\<open>dup_fd\<close> is what \<^verbatim>\<open>dup\<close> gives. The result is the watcher's number.\<close>

definition addReadCb :: "int \<Rightarrow> 'h option \<Rightarrow> (nat, 'h Io) st" where
  "addReadCb dup_fd callback s =
     (if dup_fd = -1 then (Inl (Except ''dup failed''), s)
      else (Inr (length (io_watchers s)),
            s\<lparr>io_watchers := io_watchers s @ [\<lparr>wt_fd = dup_fd, wt_handler = callback, wt_owned = True, wt_waiting = False\<rparr>],
              io_posts := io_posts s @ [length (io_watchers s)]\<rparr>))"

text \<open>The caller lets go of its watcher.\<close>

definition dropWatcher :: "nat \<Rightarrow> 'h Io \<Rightarrow> 'h Io" where
  "dropWatcher i s = s\<lparr>io_watchers := (io_watchers s)[i := (io_watchers s ! i)\<lparr>wt_owned := False\<rparr>]\<rparr>"

definition set_waiting :: "nat \<Rightarrow> bool \<Rightarrow> 'h Io \<Rightarrow> 'h Io" where
  "set_waiting i on s = s\<lparr>io_watchers := (io_watchers s)[i := (io_watchers s ! i)\<lparr>wt_waiting := on\<rparr>]\<rparr>"

text \<open>The thread takes the next posted start, if there is one.\<close>

definition run_post :: "'h Io \<Rightarrow> 'h Io" where
  "run_post s =
     (case io_posts s of
        [] \<Rightarrow> s
      | i # posts \<Rightarrow> if io_thread s then set_waiting i True (s\<lparr>io_posts := posts\<rparr>) else s)"

text \<open>
  The wait of a watcher completes with or without an error; \<open>result\<close> is what the handler does when it
  is called. The answer is the handler that was called, if any. A catchable exception ends the thread;
  the other ends of a handler end the process.
\<close>

definition run_ready :: "nat \<Rightarrow> bool \<Rightarrow> unit res \<Rightarrow> ('h option, 'h Io) st" where
  "run_ready i ec result s =
     (if \<not> io_thread s \<or> length (io_watchers s) \<le> i \<or> \<not> wt_waiting (io_watchers s ! i) then (Inr None, s)
      else
        let w = io_watchers s ! i; s' = set_waiting i False s
        in if \<not> wt_owned w \<or> ec \<or> wt_handler w = None then (Inr None, s')
           else case result of
                  Inr _ \<Rightarrow> (Inr (wt_handler w), set_waiting i True s')
                | Inl e \<Rightarrow> if catchable e then (Inr (wt_handler w), s'\<lparr>io_thread := False\<rparr>) else (Inl e, s'))"

definition Io_destroy :: "'h Io \<Rightarrow> 'h Io" where
  "Io_destroy s = s\<lparr>io_thread := False\<rparr>"

section \<open>Sequences of calls and events\<close>

datatype 'h io_call = Add int "'h option" | Drop nat | Post | Ready nat bool "unit res"

text \<open>The handlers called, in order; \<open>Inl\<close> when one of them ended the process.\<close>

fun io_run :: "'h io_call list \<Rightarrow> ('h list, 'h Io) st" where
  "io_run [] = st_ret []"
| "io_run (Add fd cb # cs) = (\<lambda>s. io_run cs (snd (addReadCb fd cb s)))"
| "io_run (Drop i # cs) = (\<lambda>s. io_run cs (dropWatcher i s))"
| "io_run (Post # cs) = (\<lambda>s. io_run cs (run_post s))"
| "io_run (Ready i ec r # cs) =
     st_bind (run_ready i ec r) (\<lambda>called. st_bind (io_run cs) (\<lambda>rest.
     st_ret (case called of None \<Rightarrow> rest | Some h \<Rightarrow> h # rest)))"

lemma dead_thread: "\<not> io_thread s \<Longrightarrow> fst (io_run cs s) = Inr []"
  by (induction cs arbitrary: s rule: io_run.induct)
    (auto simp: st_ret_def st_bind_def addReadCb_def dropWatcher_def run_post_def run_ready_def
      split: prod.splits sum.splits list.splits, (metis fst_conv sum.sel(2) sum.distinct(1))+)

text \<open>
  One exception ends all I/O. When the handler of one descriptor throws, the exception leaves
  the loop of the I/O thread, which is not started again: whatever is registered and becomes ready
  later, no handler of any descriptor is called any more, while new registrations still succeed.
\<close>

theorem throwing_handler_ends_io:
  assumes "io_thread s" and "i < length (io_watchers s)" and "io_watchers s ! i = w"
    and "wt_waiting w" and "wt_owned w" and "wt_handler w = Some h" and "catchable e"
  shows "fst (io_run (Ready i False (Inl e) # cs) s) = Inr [h] \<and>
    (dup_fd \<noteq> -1 \<longrightarrow> is_ok (fst (addReadCb dup_fd cb (snd (run_ready i False (Inl e) s)))))"
proof -
  have run: "run_ready i False (Inl e) s = (Inr (Some h), (set_waiting i False s)\<lparr>io_thread := False\<rparr>)"
    using assms by (simp add: run_ready_def Let_def)
  have "fst (io_run cs ((set_waiting i False s)\<lparr>io_thread := False\<rparr>)) = Inr []" by (rule dead_thread) simp
  then show ?thesis
    by (auto simp: run st_bind_def st_ret_def addReadCb_def split: prod.splits sum.splits)
qed

text \<open>Two descriptors are watched; the first one's handler throws, the second becomes ready afterwards.\<close>

definition demo_io :: "string Io" where
  "demo_io =
     snd (io_run [Add 5 (Some ''http''), Add 6 (Some ''inotify''), Post, Post] Io_new)"

theorem throwing_handler_ends_io_witness:
  "fst (io_run [Ready 0 False (Inl (StdError ''type_error'')), Ready 1 False (Inr ())] demo_io) = Inr [''http''] \<and>
   fst (io_run [Ready 0 False (Inr ()), Ready 1 False (Inr ()), Ready 0 False (Inr ())] demo_io) =
     Inr [''http'', ''inotify'', ''http'']"
proof -
  have s: "io_thread demo_io" "0 < length (io_watchers demo_io)"
    "io_watchers demo_io ! 0 = \<lparr>wt_fd = 5, wt_handler = Some ''http'', wt_owned = True, wt_waiting = True\<rparr>"
    by code_simp+
  have "fst (io_run [Ready 0 False (Inr ()), Ready 1 False (Inr ()), Ready 0 False (Inr ())] demo_io) =
     Inr [''http'', ''inotify'', ''http'']" by code_simp
  with throwing_handler_ends_io [OF s, of "''http''" "StdError ''type_error''" "[Ready 1 False (Inr ())]" 0 None]
  show ?thesis by simp
qed

end
