(* ===== verification/App.thy ===== *)
theory App
  imports Logger Configs Klog
begin

text \<open>
  The process around the components: \<^verbatim>\<open>src/signal/\<close>, \<^verbatim>\<open>src/thread/\<close>, \<^verbatim>\<open>src/callback/\<close>, \<^verbatim>\<open>src/cmdline/\<close>, the message
  of an exception, and \<^verbatim>\<open>main.cc\<close> as the sequence of calls it makes.
\<close>

section \<open>Exception\<close>

text \<open>
  \<open>err\<close> is \<^verbatim>\<open>errno\<close> as the constructor finds it, \<open>strerror\<close> what \<^verbatim>\<open>strerror_r\<close> gives for it, if it
  succeeds.
\<close>

definition Exception_msg :: "(int \<Rightarrow> string option) \<Rightarrow> string \<Rightarrow> nat \<Rightarrow> string \<Rightarrow> bool \<Rightarrow> int \<Rightarrow> string" where
  "Exception_msg strerror file line msg is_errno err =
     (let text1 = ''['' @ file @ '':'' @ dec_text line @ ''] '' @ msg
      in if is_errno \<and> err \<noteq> 0
         then case strerror err of
                Some m \<Rightarrow> text1 @ '' ('' @ (if err < 0 then ''-'' else []) @ dec_text (nat \<bar>err\<bar>) @ '' -- '' @ m @ '')''
              | None \<Rightarrow> text1
         else text1)"

section \<open>Callback\<close>

record ('a, 'b) Callback =
  cb_name :: string
  cb_func :: "('a \<Rightarrow> 'b) option"

definition Callback_default :: "('a, 'b) Callback" where
  "Callback_default = \<lparr>cb_name = [], cb_func = None\<rparr>"

definition Callback_new :: "string \<Rightarrow> ('a \<Rightarrow> 'b) option \<Rightarrow> ('a, 'b) Callback" where
  "Callback_new name func = \<lparr>cb_name = name, cb_func = func\<rparr>"

definition Callback_call :: "('a, 'b) Callback \<Rightarrow> 'a \<Rightarrow> 'b res" where
  "Callback_call cb x = (case cb_func cb of None \<Rightarrow> Inl (StdError ''bad_function_call'') | Some f \<Rightarrow> Inr (f x))"

definition Callback_set :: "('a, 'b) Callback \<Rightarrow> bool" where
  "Callback_set cb \<longleftrightarrow> cb_func cb \<noteq> None"

section \<open>Thread\<close>

text \<open>
  \<open>t_joinable\<close>: a thread was started and not joined. Assigning to a joinable \<^verbatim>\<open>std::thread\<close> ends the
  process. The body's result is what it throws; exceptions stay inside the thread.
\<close>

record Thread =
  t_name :: string
  t_joinable :: bool

definition Thread_setName :: "string \<Rightarrow> Thread \<Rightarrow> Thread" where
  "Thread_setName name t = t\<lparr>t_name := name\<rparr>"

definition Thread_start :: "(unit, Thread) st" where
  "Thread_start t = (if t_joinable t then (Inl Abort, t) else (Inr (), t\<lparr>t_joinable := True\<rparr>))"

definition Thread_body :: "unit res \<Rightarrow> unit res" where
  "Thread_body r = (case r of Inl e \<Rightarrow> if catchable e then Inr () else Inl e | Inr _ \<Rightarrow> Inr ())"

definition Thread_join :: "Thread \<Rightarrow> Thread" where
  "Thread_join t = (if t_joinable t then t\<lparr>t_joinable := False\<rparr> else t)"

section \<open>Signal\<close>

text \<open>\<open>g_stop_events\<close> is the eventfd's counter; the handlers are named by what they do.\<close>

datatype handler = Common | Crash_handler | Default_handler

record Signal =
  g_stop :: bool
  g_stop_fd :: int
  g_stop_events :: nat
  g_handlers :: "(int \<times> handler) list"

definition SIGINT :: int where "SIGINT = 2"
definition SIGSEGV :: int where "SIGSEGV = 11"
definition SIGTERM :: int where "SIGTERM = 15"

definition Signal_new :: "int option \<Rightarrow> int \<Rightarrow> Signal" where
  "Signal_new stop_fd new_eventfd =
     \<lparr>g_stop = False, g_stop_fd = (case stop_fd of None \<Rightarrow> new_eventfd | Some fd \<Rightarrow> fd), g_stop_events = 0, g_handlers = []\<rparr>"

text \<open>The one object, made at the first call; \<open>new_eventfd\<close> is what \<^verbatim>\<open>eventfd\<close> then gives.\<close>

definition Signal_instance :: "int \<Rightarrow> Signal option \<Rightarrow> Signal" where
  "Signal_instance new_eventfd inst = (case inst of None \<Rightarrow> Signal_new None new_eventfd | Some s \<Rightarrow> s)"

text \<open>The object always has a descriptor, so the assertion of \<^verbatim>\<open>dupStopFd\<close> holds; \<open>dup_fd\<close> is \<^verbatim>\<open>dup\<close>.\<close>

definition dupStopFd :: "(int \<Rightarrow> int) \<Rightarrow> Signal \<Rightarrow> int" where
  "dupStopFd dup_fd s = dup_fd (g_stop_fd s)"

definition registerSignal :: "int \<Rightarrow> handler \<Rightarrow> Signal \<Rightarrow> Signal" where
  "registerSignal sig cb s = s\<lparr>g_handlers := al_upd sig cb (g_handlers s)\<rparr>"

definition shouldStop :: "Signal \<Rightarrow> bool" where
  "shouldStop s = g_stop s"

definition triggerStop :: "build \<Rightarrow> (unit, Signal) st" where
  "triggerStop b =
     st_bind (st_get g_stop) (\<lambda>stopped.
     if stopped then st_ret ()
     else
       st_bind (st_assert b (\<lambda>s. g_stop_fd s \<noteq> FD_INVALID)) (\<lambda>_.
       st_mod (\<lambda>s. s\<lparr>g_stop := True,
         g_stop_events := (if g_stop_fd s \<noteq> FD_INVALID then g_stop_events s + 1 else g_stop_events s)\<rparr>)))"

text \<open>What is written to stderr, with the state the handler leaves.\<close>

definition signal_name :: "int \<Rightarrow> string" where
  "signal_name sig =
     (if sig = SIGINT then ''SIGINT'' else if sig = SIGTERM then ''SIGTERM''
      else if sig = SIGSEGV then ''SIGSEGV'' else ''UNKNOWN'')"

definition commonSignalHandler :: "build \<Rightarrow> int \<Rightarrow> (string, Signal) st" where
  "commonSignalHandler b sig =
     st_bind (triggerStop b) (\<lambda>_. st_ret (CHR 0x09 # ''Caught signal: '' @ signal_name sig @ [CHR 0x0A]))"

definition crashSignalHandler :: "build \<Rightarrow> int \<Rightarrow> (string, Signal) st" where
  "crashSignalHandler b sig =
     st_bind (commonSignalHandler b sig) (\<lambda>out.
     st_bind (st_mod (registerSignal sig Default_handler)) (\<lambda>_. st_ret out))"

lemma stop_is_signalled_once:
  "triggerStop b s = (Inr (), s') \<Longrightarrow> g_stop s' \<and> triggerStop b s' = (Inr (), s')"
  by (auto simp: triggerStop_def st_simps hb_assert_def split: if_splits build.splits)

section \<open>Cmdline\<close>

text \<open>What the option parser found: the four options, or its own error with the exit code it asks for, or
  some other exception.\<close>

datatype cli_result = Cli_options string bool string string | Cli_parse_error int | Cli_throws exc

definition CONFIGS_DEFAULT :: "string \<Rightarrow> string" where
  "CONFIGS_DEFAULT proj = proj @ ''.yaml''"

record CmdlineConfig =
  cc_help :: bool
  cc_config :: Configs
  cc_gen_empty :: bool
  cc_log :: string
  cc_loglevel :: Level

definition CmdlineConfig_default :: "string \<Rightarrow> CmdlineConfig" where
  "CmdlineConfig_default proj =
     \<lparr>cc_help = False, cc_config = Configs_default, cc_gen_empty = False, cc_log = LOGFILE_DEFAULT proj,
      cc_loglevel = LOGLEVEL_DEFAULT\<rparr>"

text \<open>\<open>load\<close> is \<^verbatim>\<open>Configs::loadFromConfig\<close> of a path.\<close>

definition Cmdline_parse :: "string \<Rightarrow> (string \<Rightarrow> Configs res) \<Rightarrow> cli_result \<Rightarrow> (CmdlineConfig \<times> bool) res" where
  "Cmdline_parse proj load cli =
     (let failed = (\<lambda>e. if catchable e then Inr (CmdlineConfig_default proj, False) else Inl e)
      in case cli of
           Cli_options config_path gen_empty loglevel_str logfile_str \<Rightarrow>
             (case load (if config_path = [] then CONFIGS_DEFAULT proj else config_path) of
                Inl e \<Rightarrow> failed e
              | Inr c \<Rightarrow>
                  Inr (\<lparr>cc_help = False, cc_config = c, cc_gen_empty = gen_empty,
                        cc_log = (if logfile_str \<noteq> [] then logfile_str else LOGFILE_DEFAULT proj),
                        cc_loglevel = (case stringEnum Level_enum loglevel_str of Some l \<Rightarrow> l | None \<Rightarrow> LOGLEVEL_DEFAULT)\<rparr>,
                       True))
         | Cli_parse_error ret \<Rightarrow>
             (if ret = 0 then Inr ((CmdlineConfig_default proj)\<lparr>cc_help := True\<rparr>, True)
              else Inr (CmdlineConfig_default proj, False))
         | Cli_throws e \<Rightarrow> failed e)"

section \<open>main\<close>

text \<open>The file \<^verbatim>\<open>--get-conf\<close> writes: the emitter's keys and values in the order they are streamed.\<close>

definition emptyConfig :: "'y yaml_ops \<Rightarrow> Configs \<Rightarrow> (string \<times> 'y) list" where
  "emptyConfig Y config =
     [(''prometheus'', y_obj Y [(''enabled'', y_of_bool Y (prometheus_enabled config)),
                                (''listen'', y_of_string Y (prometheus_listen config))]),
      (''debug_server'', y_obj Y [(''enabled'', y_of_bool Y (dbgserv_enabled config)),
                                  (''listen'', y_of_string Y (dbgserv_addr config)),
                                  (''listen'', y_of_u16 Y (dbgserv_port config))])]
     @ (if ebpfs config \<noteq> [] then [(''ebpf'', y_obj Y (map (\<lambda>(k, c). (k, ConfigEbpf_encode Y c)) (ebpfs config)))] else [])"

text \<open>The generated section has no \<^verbatim>\<open>address\<close> and no \<^verbatim>\<open>port\<close>; what the reader of it sets, it ignores.\<close>

lemma generated_debug_section_is_not_read:
  assumes "yaml_lib Y"
  shows "debug_server_decode Y (y_obj Y [(''enabled'', y_of_bool Y e), (''listen'', y_of_string Y a), (''listen'', y_of_u16 Y p)]) c =
    Inr (setDebugServerEnabled e c)"
  using yaml_lib.yaml_eval [OF assms] by (simp add: debug_server_decode_def y_field_def)

text \<open>
  The calls on the components, in program order. Of those that give a bool, \<open>must\<close> says that false
  makes \<^verbatim>\<open>main\<close> throw; the first throw leads to the handler, which returns a failure.
\<close>

datatype subject = The_daemon | The_monitor | The_debug_server

datatype call =
    RegisterSignal int handler | SetupLog string Level | InitManager | InitChains | SetIoContext | SetInotify | SetChains
  | Attach subject | SetMonitorQueue | MonitorRun string | DebugAttachDaemon | DebugStart string u16
  | KlogNew | StartWatching string | SetStatusQueue | DaemonRun | WaitForStop
  | DebugDetachDaemon | DebugStop | DestroyManager | DaemonStop | MonitorStop | KlogUnpin

definition signal_calls :: "call list" where
  "signal_calls =
     [RegisterSignal SIGINT Common, RegisterSignal SIGTERM Common, RegisterSignal SIGSEGV Crash_handler]"

definition must :: "call \<Rightarrow> bool" where
  "must c \<longleftrightarrow> c \<in> {InitChains, SetIoContext, SetInotify, SetChains}"

definition main_calls :: "string \<Rightarrow> CmdlineConfig \<Rightarrow> call list" where
  "main_calls proj cc =
     [SetupLog (cc_log cc) (cc_loglevel cc), InitManager, InitChains, SetIoContext, SetInotify, SetChains,
      Attach The_daemon, Attach The_monitor, SetMonitorQueue]
     @ (if prometheus_enabled (cc_config cc) then [MonitorRun (prometheus_listen (cc_config cc))] else [])
     @ [Attach The_debug_server, DebugAttachDaemon]
     @ (if dbgserv_enabled (cc_config cc)
        then [DebugStart (dbgserv_addr (cc_config cc)) (dbgserv_port (cc_config cc))] else [])
     @ [KlogNew, StartWatching (CONFIGS_DEFAULT proj), SetStatusQueue, DaemonRun, WaitForStop,
        DebugDetachDaemon, DebugStop, DestroyManager, DaemonStop, MonitorStop, KlogUnpin]"

text \<open>\<open>exec\<close> performs one call; \<open>generate\<close> writes the empty configuration.\<close>

definition run_call :: "(call \<Rightarrow> (bool, 'w) st) \<Rightarrow> call \<Rightarrow> (unit, 'w) st" where
  "run_call exec c =
     st_bind (exec c) (\<lambda>ok. if must c \<and> \<not> ok then st_throw (Except ''Failed to set up'') else st_ret ())"

text \<open>
  Leaving a \<^verbatim>\<open>try\<close> block, at its end or by an exception, destroys its local objects; a destructor that throws
  ends the process. What is no exception leaves nothing to destroy.
\<close>

definition st_unwind :: "(unit, 'w) st \<Rightarrow> ('a, 'w) st \<Rightarrow> ('a, 'w) st" where
  "st_unwind destructors m s =
     (case m s of
        (r, s1) \<Rightarrow>
          if (case r of Inl e \<Rightarrow> catchable e | Inr _ \<Rightarrow> True)
          then (case destructors s1 of
                  (Inl e, s2) \<Rightarrow> (Inl (if catchable e then Abort else e), s2)
                | (Inr _, s2) \<Rightarrow> (r, s2))
          else (r, s1))"

text \<open>\<open>unwind\<close> is the destructors of all the locals; those that were not made yet have nothing to do.\<close>

definition main :: "string \<Rightarrow> (call \<Rightarrow> (bool, 'w) st) \<Rightarrow> (unit, 'w) st \<Rightarrow> (unit, 'w) st \<Rightarrow>
    (CmdlineConfig \<times> bool) res \<Rightarrow> (int, 'w) st" where
  "main proj exec generate unwind parsed =
     st_catch
       (st_unwind unwind
         (st_bind (st_each (run_call exec) signal_calls) (\<lambda>_.
          st_bind (st_res parsed) (\<lambda>(cmd_config, should_continue).
          if \<not> should_continue then st_ret 1
          else if cc_help cmd_config then st_ret 0
          else if cc_gen_empty cmd_config then st_bind generate (\<lambda>_. st_ret 0)
          else st_bind (st_each (run_call exec) (main_calls proj cmd_config)) (\<lambda>_. st_ret 0)))))
       (\<lambda>e. st_ret 1)"

text \<open>Whatever file \<^verbatim>\<open>-c\<close> names, the one that is watched is the default one.\<close>

lemma chosen_config_is_not_watched: "StartWatching p \<in> set (main_calls proj cc) \<longleftrightarrow> p = CONFIGS_DEFAULT proj"
  by (auto simp: main_calls_def)

end
