(* ===== verification/System.thy ===== *)
theory System
  imports Daemon Monitor Debug_Server Config_Watcher App
begin

text \<open>
  The components together: the configuration file, the watcher that reads it, and the three
  subscribers \<^verbatim>\<open>main\<close> attaches to it in this order, the daemon over its loader, the Prometheus subscriber
  and the debug server. The watcher's world is the state of all of them.
\<close>

section \<open>The assembled program\<close>

text \<open>\<open>app_file\<close> is the watched file: absent or empty, or what parsing it gives.\<close>

record ('l, 'j, 'm, 'q, 'd, 'y) app =
  app_file :: "'y res option"
  app_daemon :: "('l, 'j) Daemon"
  app_monitor :: "('m, 'q) MonitorSubscriber"
  app_debug :: "'d DebugServer"

definition app_update :: "daemon_env \<Rightarrow> ('l, 'j) loader_if \<Rightarrow> build \<Rightarrow> 'm factory_ops \<Rightarrow> 'd asio_ops \<Rightarrow> nat \<Rightarrow> Configs \<Rightarrow>
    ('l, 'j, 'm, 'q, 'd, 'y, 'z) app_scheme \<Rightarrow> unit res \<times> ('l, 'j, 'm, 'q, 'd, 'y, 'z) app_scheme" where
  "app_update D L b F A i config w =
     (if i = 0 then (case Daemon_update D L config (app_daemon w) of (r, d) \<Rightarrow> (r, w\<lparr>app_daemon := d\<rparr>))
      else if i = 1 then (case ms_update b F config (app_monitor w) of (r, m) \<Rightarrow> (r, w\<lparr>app_monitor := m\<rparr>))
      else (case ds_update b A config (app_debug w) of (r, g) \<Rightarrow> (r, w\<lparr>app_debug := g\<rparr>)))"

text \<open>\<^verbatim>\<open>main\<close> holds all three subscribers, and the inotify manager, for as long as the watcher runs.\<close>

definition app_ops :: "daemon_env \<Rightarrow> ('l, 'j) loader_if \<Rightarrow> build \<Rightarrow> 'm factory_ops \<Rightarrow> 'd asio_ops \<Rightarrow> 'y yaml_ops \<Rightarrow>
    ('l, 'j, 'm, 'q, 'd, 'y, 'z) app_scheme watch_ops" where
  "app_ops D L b F A Y =
     \<lparr>w_load = (\<lambda>w path. loadFromConfig Y (app_file w)), w_update = app_update D L b F A,
      w_alive = (\<lambda>w i. True), w_inotify = (\<lambda>w. True), w_watch = (\<lambda>path w. (Inr True, w)),
      w_goodbye = (\<lambda>path w. (Inr True, w))\<rparr>"

text \<open>The debug server's report of the daemon: whether it runs, its queue empty and full, its loader.\<close>

definition Daemon_debug_status :: "('l \<Rightarrow> 'r) \<Rightarrow> ('l, 'j) Daemon \<Rightarrow> bool \<times> (bool \<times> bool) option \<times> 'r option" where
  "Daemon_debug_status report s =
     (running s, map_option (\<lambda>q. (queue_empty q, queue_full q)) (status_queue s), map_option report (d_loader s))"

definition attach_all :: "('l, 'j, 'm, 'q, 'd, 'y, 'z) app_scheme ConfigWatcher \<Rightarrow> bool" where
  "attach_all s \<longleftrightarrow> subscribers s = [Some 0, Some 1, Some 2]"

section \<open>One change of the file\<close>

lemma app_update_all:
  assumes "Daemon_update D L c (app_daemon w) = (Inr (), d)" and "ms_update b F c (app_monitor w) = (Inr (), m)"
    and "ds_update b A c (app_debug w) = (Inr (), g)"
  shows "update_all (app_ops D L b F A Y) c [0, 1, 2] w = (Inr (), w\<lparr>app_daemon := d, app_monitor := m, app_debug := g\<rparr>)"
  using assms by (simp add: app_ops_def app_update_def)

lemma app_load:
  assumes "yaml_lib Y" and "om_ok (ebpfs c)" and "ebpfs c \<noteq> []" and "app_file w = Some (Inr (Configs_encode Y c))"
  shows "w_load (app_ops D L b F A Y) w path = Inr c"
  using yaml_lib.configs_roundtrip [OF assms(1,2), of Configs_default] assms(3,4)
  by (simp add: app_ops_def loadFromConfig_def)

lemma event_loads:
  "sublist name (config_path s) \<Longrightarrow> on_config_event W name s = loadConfig W s"
  by (simp add: on_config_event_def st_simps)

lemma app_event:
  assumes load: "w_load (app_ops D L b F A Y) (cw_world s) (config_path s) = Inr c"
    and subs: "attach_all s" and name: "sublist name (config_path s)" and new: "c \<noteq> last_config s"
    and all: "update_all (app_ops D L b F A Y) c [0, 1, 2] (cw_world s) = (Inr (), w')"
  shows "on_config_event (app_ops D L b F A Y) name s = (Inr (), s\<lparr>last_config := c, cw_world := w'\<rparr>)"
proof -
  have "active (app_ops D L b F A Y) s = [0, 1, 2]"
    using subs by (simp add: active_def attach_all_def expired_def app_ops_def)
  then show ?thesis
    using new by (simp add: event_loads [OF name] loadConfig_run load all del: update_all.simps One_nat_def)
qed


text \<open>The demo components, and a file that asks for one service and Prometheus.\<close>

definition demo_wanted :: Configs where
  "demo_wanted = setPrometheusEnabled True demo_config"

definition demo_app :: "((nat, unit) Loader, unit, string, unit, nat \<times> nat list, yaml) app ConfigWatcher" where
  "demo_app =
     \<lparr>cw_world = \<lparr>app_file = Some (Inr (Configs_encode ref_yaml demo_wanted)), app_daemon = demo_daemon,
        app_monitor = demo_subscriber [], app_debug = DebugServer_new (0, [])\<rparr>,
      config_path = ''hebpf.yaml'', last_config = Configs_default, subscribers = [Some 0, Some 1, Some 2]\<rparr>"

lemma demo_app_sel:
  "app_file (cw_world demo_app) = Some (Inr (Configs_encode ref_yaml demo_wanted))"
  "app_daemon (cw_world demo_app) = demo_daemon" "app_monitor (cw_world demo_app) = demo_subscriber []"
  "app_debug (cw_world demo_app) = DebugServer_new (0, [])" "config_path demo_app = ''hebpf.yaml''"
  "last_config demo_app = Configs_default" "attach_all demo_app"
  by (simp_all add: demo_app_def attach_all_def)

lemma demo_wanted_sel:
  "ebpfs demo_wanted = ebpfs demo_config" "prometheus_enabled demo_wanted" "prometheus_listen demo_wanted = ''0.0.0.0:8080''"
  "demo_wanted \<noteq> Configs_default" "ebpfs demo_wanted \<noteq> []" "\<not> dbgserv_enabled demo_wanted"
  by (simp_all add: demo_wanted_def demo_config_def configs_setters Configs_default_def)


end
