(* ===== verification/Service_Names.thy ===== *)
theory Service_Names
  imports Prog_Map Acl_Service Lb_Service Examples
begin

text \<open>
  The service libraries of \<^verbatim>\<open>src/services/\<close>: what each factory makes, the name each service gives itself,
  the file the build makes of it, and the identifiers of \<^verbatim>\<open>ebpf_id.map\<close>. The chain of programs meets them
  twice: the daemon orders a chain by the names of library files, the loader inserts a program under the
  name its service gives. Both go through \<^verbatim>\<open>getCanonicalName\<close>, and must come to the same identifier.
\<close>

section \<open>The services\<close>

datatype service = Acl | AclXdp | LbXdp | Scheduler | SchedulerXdp | ExampleHello | ExampleUsermode

definition SERVICE_NAME_ACL :: string where "SERVICE_NAME_ACL = ''acl''"
definition SERVICE_NAME_LB :: string where "SERVICE_NAME_LB = ''lb''"
definition SERVICE_NAME_SCHEDULER :: string where "SERVICE_NAME_SCHEDULER = ''scheduler''"

definition Acl_getName :: string where "Acl_getName = SERVICE_NAME_ACL"
definition AclXdp_getName :: string where "AclXdp_getName = SERVICE_NAME_ACL"
definition LbXdp_getName :: string where "LbXdp_getName = SERVICE_NAME_LB"
definition Scheduler_getName :: string where "Scheduler_getName = SERVICE_NAME_SCHEDULER"
definition SchedulerXdp_getName :: string where "SchedulerXdp_getName = SERVICE_NAME_SCHEDULER"

lemmas service_names = SERVICE_NAME_ACL_def SERVICE_NAME_LB_def SERVICE_NAME_SCHEDULER_def
  SERVICE_NAME_HELLO_def SERVICE_NAME_USERMODE_def Acl_getName_def AclXdp_getName_def LbXdp_getName_def
  Scheduler_getName_def SchedulerXdp_getName_def hello_getName_def usermode_getName_def

fun getName :: "service \<Rightarrow> string" where
  "getName Acl = Acl_getName"
| "getName AclXdp = AclXdp_getName"
| "getName LbXdp = LbXdp_getName"
| "getName Scheduler = Scheduler_getName"
| "getName SchedulerXdp = SchedulerXdp_getName"
| "getName ExampleHello = hello_getName"
| "getName ExampleUsermode = usermode_getName"

text \<open>The exported factories: a service without a skeleton yet.\<close>

definition Acl_create_service :: "'w \<Rightarrow> ('w, 's) AclBase" where
  "Acl_create_service w = AclBase_new w None"

definition AclXdp_create_service :: "'w \<Rightarrow> ('w, 's) AclBase" where
  "AclXdp_create_service w = AclBase_new w None"

definition LbXdp_create_service :: "'w \<Rightarrow> ('w, 's) LbBase" where
  "LbXdp_create_service w = LbBase_new w None"

definition Scheduler_create_service :: "'w \<Rightarrow> ('w, 's) EbpfWithNetHook" where
  "Scheduler_create_service w = EbpfWithNetHook_new w None"

definition SchedulerXdp_create_service :: "'w \<Rightarrow> ('w, 's) EbpfWithNetHook" where
  "SchedulerXdp_create_service w = EbpfWithNetHook_new w None"

section \<open>What the build makes of them\<close>

text \<open>
  \<^verbatim>\<open>ebpf_compile\<close> (\<^verbatim>\<open>src/services/CMakeLists.txt\<close>) names a shared library after the project and the source
  file; the linker puts \<^verbatim>\<open>lib\<close> before and \<^verbatim>\<open>.so\<close> behind it.
\<close>

fun source_file :: "service \<Rightarrow> string" where
  "source_file Acl = ''acl''"
| "source_file AclXdp = ''acl_xdp''"
| "source_file LbXdp = ''lb_xdp''"
| "source_file Scheduler = ''scheduler''"
| "source_file SchedulerXdp = ''scheduler_xdp''"
| "source_file ExampleHello = ''example_hello''"
| "source_file ExampleUsermode = ''example_usermode''"

definition library_file :: "string \<Rightarrow> service \<Rightarrow> string" where
  "library_file proj k = ''lib'' @ proj @ ''_'' @ source_file k @ ''.so''"

text \<open>\<^verbatim>\<open>ebpf_id.map\<close>, of which \<^verbatim>\<open>cmake/EbpfIdMap.cmake\<close> generates \<^verbatim>\<open>getDefaultProgMap()\<close>.\<close>

definition ebpf_id_map :: "(string \<times> ProgInfo) list" where
  "ebpf_id_map =
     [(''HELLO'', \<lparr>pi_id = 0, pi_hook = HookType.KProbe\<rparr>),
      (''USERMODE'', \<lparr>pi_id = 1, pi_hook = HookType.KProbe\<rparr>),
      (''ACL_TC'', \<lparr>pi_id = 2, pi_hook = TC\<rparr>),
      (''ACL_XDP_GENERIC'', \<lparr>pi_id = 3, pi_hook = HookType.XDP_GENERIC\<rparr>),
      (''SCHEDULER_TC'', \<lparr>pi_id = 4, pi_hook = TC\<rparr>),
      (''SCHEDULER_XDP_GENERIC'', \<lparr>pi_id = 5, pi_hook = HookType.XDP_GENERIC\<rparr>),
      (''LB_TC'', \<lparr>pi_id = 6, pi_hook = TC\<rparr>),
      (''LB_XDP_GENERIC'', \<lparr>pi_id = 7, pi_hook = HookType.XDP_GENERIC\<rparr>)]"

section \<open>From a file to a name\<close>

definition is_dir :: "string \<Rightarrow> bool" where
  "is_dir dir \<longleftrightarrow> dir = [] \<or> last dir = CHR ''/''"

lemma path_filename_dir:
  assumes "is_dir dir" and "CHR ''/'' \<notin> set f"
  shows "path_filename (dir @ f) = f"
proof -
  have "takeWhile (\<lambda>c. c \<noteq> CHR ''/'') (rev f @ rev dir) = rev f"
    using assms by (cases dir rule: rev_cases)
      (auto simp: is_dir_def takeWhile_append takeWhile_eq_all_conv)
  then show ?thesis by (simp add: path_filename_def)
qed

text \<open>The part of a library's name that counts ends at its first underscore.\<close>

lemma canonical_of_file:
  assumes f: "path_filename path = (''lib'' @ proj @ ''_'' @ m) @ ''.so''" and "path \<noteq> []"
    and "h \<noteq> HookType.UNKNOWN"
  shows "getCanonicalName b proj h LIBRARY path =
    Inr (map toupper (takeWhile (\<lambda>c. c \<noteq> CHR ''_'') m) @ ''_'' @ enumName HookType_enum h)"
proof -
  have so: "ends_with (x @ ''.so'') ''.so''" "take (length (x @ ''.so'') - 3) (x @ ''.so'') = x" for x
    by (simp_all add: ends_with_def)
  have pre: "starts_with (''lib'' @ proj @ ''_'' @ m) (''lib'' @ proj @ ''_'')"
    "drop (length (''lib'' @ proj @ ''_'')) (''lib'' @ proj @ ''_'' @ m) = m"
    by (simp_all add: starts_with_def)
  show ?thesis
    using assms(2,3)
    by (simp only: getCanonicalName_def Let_def f so [of "''lib'' @ proj @ ''_'' @ m"] hb_assert_true simp_thms
        if_True if_False pre UnofficialName.case)
qed

lemma library_canonical:
  assumes "is_dir dir" and "CHR ''/'' \<notin> set proj" and "h \<noteq> HookType.UNKNOWN"
  shows "getCanonicalName b proj h LIBRARY (dir @ library_file proj k) =
    Inr (map toupper (takeWhile (\<lambda>c. c \<noteq> CHR ''_'') (source_file k)) @ ''_'' @ enumName HookType_enum h)"
proof (rule canonical_of_file)
  have "CHR ''/'' \<notin> set (source_file k)" by (cases k) simp_all
  with assms(1,2) show "path_filename (dir @ library_file proj k) = (''lib'' @ proj @ ''_'' @ source_file k) @ ''.so''"
    by (subst path_filename_dir) (simp_all add: library_file_def)
qed (use assms in \<open>simp_all add: library_file_def\<close>)

lemma program_canonical:
  assumes "h \<noteq> HookType.UNKNOWN"
  shows "getCanonicalName b proj h PROGRAM (getName k) =
    Inr (map toupper (getName k) @ ''_'' @ enumName HookType_enum h)"
proof -
  have "getName k \<noteq> []" by (cases k) (simp_all add: service_names)
  with assms show ?thesis by (simp add: getCanonicalName_def Let_def)
qed

definition packet_service :: "service \<Rightarrow> bool" where
  "packet_service k \<longleftrightarrow> k \<noteq> ExampleHello \<and> k \<noteq> ExampleUsermode"

lemma name_of_source:
  "packet_service k \<Longrightarrow> takeWhile (\<lambda>c. c \<noteq> CHR ''_'') (source_file k) = getName k"
  by (cases k) (simp_all add: packet_service_def service_names)

text \<open>The identifier of a service under a hook type, if it has one.\<close>

fun service_id :: "service \<Rightarrow> HookType \<Rightarrow> int option" where
  "service_id k TC = (case k of Acl \<Rightarrow> Some 2 | AclXdp \<Rightarrow> Some 2 | Scheduler \<Rightarrow> Some 4 | SchedulerXdp \<Rightarrow> Some 4
     | LbXdp \<Rightarrow> Some 6 | _ \<Rightarrow> None)"
| "service_id k HookType.XDP_GENERIC = (case k of Acl \<Rightarrow> Some 3 | AclXdp \<Rightarrow> Some 3 | Scheduler \<Rightarrow> Some 5
     | SchedulerXdp \<Rightarrow> Some 5 | LbXdp \<Rightarrow> Some 7 | _ \<Rightarrow> None)"
| "service_id k _ = None"

lemma upper_names:
  "packet_service k \<Longrightarrow> map toupper (getName k) =
    (case k of Acl \<Rightarrow> ''ACL'' | AclXdp \<Rightarrow> ''ACL'' | LbXdp \<Rightarrow> ''LB'' | _ \<Rightarrow> ''SCHEDULER'')"
  by (cases k) (simp_all add: packet_service_def service_names toupper_def char_code_def char_of_def bit_iff_odd)

lemma registered:
  "packet_service k \<Longrightarrow>
   map_of ebpf_id_map (map toupper (getName k) @ ''_'' @ enumName HookType_enum h) =
     map_option (\<lambda>i. \<lparr>pi_id = i, pi_hook = h\<rparr>) (service_id k h)"
  unfolding upper_names
  by (cases k; cases h)
     (simp_all add: packet_service_def ebpf_id_map_def enumName_def HookType_enum_def)

section \<open>The two names of a service\<close>

text \<open>
  Claim C29: for every packet service and every hook type the name the daemon derives from the library file,
  in whatever directory, is the name the loader derives from what the service calls itself, and it stands in
  \<^verbatim>\<open>ebpf_id.map\<close> with the hook type asked for exactly when that is TC or generic XDP.
\<close>

theorem library_and_program_names_meet:
  assumes "is_dir dir" and "CHR ''/'' \<notin> set proj" and "h \<noteq> HookType.UNKNOWN" and "packet_service k"
  shows "\<exists>n. getCanonicalName b proj h LIBRARY (dir @ library_file proj k) = Inr n \<and>
    getCanonicalName b proj h PROGRAM (getName k) = Inr n \<and>
    map_of ebpf_id_map n = map_option (\<lambda>i. \<lparr>pi_id = i, pi_hook = h\<rparr>) (service_id k h) \<and>
    (service_id k h = None \<longleftrightarrow> h \<noteq> TC \<and> h \<noteq> HookType.XDP_GENERIC)"
proof -
  have "service_id k h = None \<longleftrightarrow> h \<noteq> TC \<and> h \<noteq> HookType.XDP_GENERIC"
    using assms(4) by (cases h; cases k) (simp_all add: packet_service_def)
  with assms show ?thesis
    by (simp add: library_canonical program_canonical name_of_source registered [simplified])
qed

theorem library_and_program_names_meet_witness:
  "\<exists>n. getCanonicalName Debug ''hebpf'' TC LIBRARY ''build/src/services/acl/libhebpf_acl.so'' = Inr n \<and>
    getCanonicalName Debug ''hebpf'' TC PROGRAM ''acl'' = Inr n \<and>
    map_of ebpf_id_map n = Some \<lparr>pi_id = 2, pi_hook = TC\<rparr>"
  using library_and_program_names_meet [of "''build/src/services/acl/''" "''hebpf''" TC Acl Debug]
  by (simp add: is_dir_def packet_service_def library_file_def service_names)

lemma example_upper:
  "\<not> packet_service k \<Longrightarrow>
    map toupper (getName k) = (if k = ExampleHello then ''EXAMPLE_HELLO'' else ''EXAMPLE_USERMODE'') \<and>
    map toupper (takeWhile (\<lambda>c. c \<noteq> CHR ''_'') (source_file k)) = ''EXAMPLE''"
  by (cases k) (simp_all add: packet_service_def service_names toupper_def char_code_def char_of_def bit_iff_odd)

text \<open>
  Claim C2: the names of the example services never meet, and neither is one of \<^verbatim>\<open>ebpf_id.map\<close>: the file gives
  EXAMPLE for both, each service its own full name, and the map lists them without the prefix.
\<close>

theorem example_names_differ:
  assumes "is_dir dir" and "CHR ''/'' \<notin> set proj" and "h \<noteq> HookType.UNKNOWN" and "\<not> packet_service k"
  shows "\<exists>n m. getCanonicalName b proj h LIBRARY (dir @ library_file proj k) = Inr n \<and>
    getCanonicalName b proj h PROGRAM (getName k) = Inr m \<and> n \<noteq> m \<and>
    map_of ebpf_id_map n = None \<and> map_of ebpf_id_map m = None"
proof -
  note names = library_canonical [OF assms(1-3), of b k] program_canonical [OF assms(3), of b proj k]
    example_upper [OF assms(4)]
  have other: "map_of ebpf_id_map (''EXAMPLE'' @ x) = None" for x
    by (simp add: ebpf_id_map_def)
  obtain x where x: "map toupper (getName k) = ''EXAMPLE'' @ ''_'' @ x" "x \<noteq> []"
    using names(3) by (cases "k = ExampleHello") auto
  have "''EXAMPLE'' @ ''_'' @ e \<noteq> (''EXAMPLE'' @ ''_'' @ x) @ ''_'' @ e" for e :: string
  proof
    assume "''EXAMPLE'' @ ''_'' @ e = (''EXAMPLE'' @ ''_'' @ x) @ ''_'' @ e"
    then have "length (''EXAMPLE'' @ ''_'' @ e) = length ((''EXAMPLE'' @ ''_'' @ x) @ ''_'' @ e)" by (rule arg_cong)
    then show False by simp
  qed
  then show ?thesis
    unfolding names(1,2) conjunct2 [OF names(3)] x
    using other [of "''_'' @ enumName HookType_enum h"] other [of "''_'' @ x @ ''_'' @ enumName HookType_enum h"]
    by (intro exI conjI) (rule refl | assumption | simp)+
qed

theorem example_names_differ_witness:
  "\<exists>n m. getCanonicalName Debug ''hebpf'' HookType.KProbe LIBRARY ''libhebpf_example_hello.so'' = Inr n \<and>
    getCanonicalName Debug ''hebpf'' HookType.KProbe PROGRAM ''example_hello'' = Inr m \<and> n \<noteq> m \<and>
    map_of ebpf_id_map n = None \<and> map_of ebpf_id_map m = None"
  using example_names_differ [of "[]" "''hebpf''" HookType.KProbe ExampleHello Debug]
  by (simp add: is_dir_def packet_service_def library_file_def service_names)

end
