(* ===== verification/Chain_Install.thy ===== *)
theory Chain_Install
  imports Scheduler Service_Names
begin

text \<open>
  From a configured chain to the packet: the daemon writes the order of the libraries of an interface into the
  hash (\<^verbatim>\<open>updateChain\<close>), the loader puts the program of each service it loads into the program array
  (\<^verbatim>\<open>loader.cc\<close>, \<^verbatim>\<open>insertProg\<close>), and the kernel programs follow both maps by tail calls.
\<close>

section \<open>The two maps in one kernel\<close>

text \<open>
  \<open>prog_at\<close> is the program the kernel finds at an index of the array, \<open>prog_of\<close> the one behind a file
  descriptor: writing a descriptor puts its program at the index, and the two maps do not touch each other.
\<close>

locale chain_kernel = bpf_hash_cap ops hfd keys cap
  for ops :: "('w, u64, u32) map_ops" and hfd :: int and keys :: "'w \<Rightarrow> u64 list" and cap :: nat +
  fixes arr :: "'w parray" and afd :: int
    and prog_at :: "'w \<Rightarrow> u32 \<Rightarrow> 'p option" and prog_of :: "u32 \<Rightarrow> 'p"
  assumes arr_room: "i < of_int MAX_CHAIN_PROGS \<Longrightarrow> fst (m_update arr w afd i v)"
    and arr_update: "m_update arr w afd i v = (True, w') \<Longrightarrow>
      prog_at w' j = (if j = i then Some (prog_of v) else prog_at w j)"
    and arr_frame: "m_update arr w afd i v = (True, w') \<Longrightarrow> m_lookup ops w' hfd k = m_lookup ops w hfd k"
    and hash_update_frame: "prog_at (snd (m_update ops w hfd k u)) = prog_at w"
    and hash_delete_frame: "prog_at (m_delete ops w hfd k) = prog_at w"
begin

lemma drain_progs: "drain_from ops hfd w k = Some w' \<Longrightarrow> prog_at w' = prog_at w"
proof -
  have "drain_from o' f w k = Some w' \<Longrightarrow> o' = ops \<and> f = hfd \<longrightarrow> prog_at w' = prog_at w" for o' f
    by (erule drain_from.raw_induct [rotated]) (auto simp: hash_delete_frame split: option.splits)
  then show "drain_from ops hfd w k = Some w' \<Longrightarrow> prog_at w' = prog_at w" by blast
qed

lemma chain_insert_progs: "prog_at (snd (chain_insert ops hfd ht reg nic names i w)) = prog_at w"
proof (induction names arbitrary: i w)
  case (Cons n ns)
  have step: "prog_at w' = prog_at w" if "m_update ops w hfd k u = (ok, w')" for k u ok w'
    using hash_update_frame [of w k u] that by simp
  show ?case
    using Cons.IH by (auto split: option.split prod.split bool.split dest!: step)
qed simp

lemma chain_nics_progs:
  "prog_at (pm_kernel (snd (chain_nics b proj ops hfd ht g s))) = prog_at (pm_kernel s)"
proof (induction g arbitrary: s)
  case (Cons nn g)
  obtain nic names where nn: "nn = (nic, names)" by fastforce
  show ?case
  proof (cases "getCanonicalName b proj ht LIBRARY (if ht = TC then SCHEDULER_TC_LIB else SCHEDULER_XDP_LIB)")
    case (Inl e)
    then show ?thesis by (simp add: nn Let_def Cons.IH)
  next
    case (Inr sched)
    obtain ok w1 where step: "chain_insert ops hfd ht (prog_registry s) nic (sched # names)
        (getStartIndex ht nic s) (pm_kernel s) = (ok, w1)" by fastforce
    then have "prog_at w1 = prog_at (pm_kernel s)"
      using chain_insert_progs by (metis snd_conv)
    with step Inr show ?thesis
      by (cases ok) (simp_all add: nn Let_def Cons.IH del: chain_insert.simps)
  qed
qed simp

lemma updateChain_progs:
  assumes "map_option id_hash_fd (map_of (hook_maps s) ht) = Some hfd"
  shows "prog_at (pm_kernel (snd (updateChain b proj ops it ht names s))) = prog_at (pm_kernel s)"
proof (cases "map_of (hook_maps s) ht")
  case (Some maps)
  with assms have "id_hash_fd maps = hfd" by simp
  note [simp] = this
  from Some show ?thesis
    by (simp add: updateChain_def chain_nics_progs drain_progs split: option.split)
qed (simp add: updateChain_def)

text \<open>Inserting a program whose name is registered and whose key is in the hash.\<close>

lemma insert_known:
  assumes "initialized s" and "map_of (hook_maps s) ht = Some maps"
    and "id_hash_fd maps = hfd" and "prog_array_fd maps = afd"
    and "map_of (prog_registry s) n = Some \<lparr>pi_id = i, pi_hook = ht\<rparr>"
    and "m_lookup ops (pm_kernel s) hfd (CHAIN_KEY nic i) = Some j" and "j < of_int MAX_CHAIN_PROGS"
    and "0 \<le> fd"
  shows "\<exists>w'. insertProg b ops arr ht n fd nic s = (Inr True, s\<lparr>pm_kernel := w'\<rparr>) \<and>
    (\<forall>k. m_lookup ops w' hfd k = m_lookup ops (pm_kernel s) hfd k) \<and>
    (\<forall>k. prog_at w' k = (if k = j then Some (prog_of (of_int fd)) else prog_at (pm_kernel s) k))"
proof -
  obtain w' where w': "m_update arr (pm_kernel s) afd j (of_int fd) = (True, w')"
    using arr_room [OF assms(7), of "pm_kernel s" "of_int fd"] by (cases "m_update arr (pm_kernel s) afd j (of_int fd)") auto
  have "insertProg b ops arr ht n fd nic s = (Inr True, s\<lparr>pm_kernel := w'\<rparr>)"
    using assms w' by (simp add: insertProg_def st_simps lookupProgInfo_def)
  with arr_update [OF w'] arr_frame [OF w'] show ?thesis by blast
qed

end

section \<open>Loading the services of a chain\<close>

text \<open>
  What \<^verbatim>\<open>Loader::loadService\<close> does with a started service, for several services one after the other:
  \<open>fd\<close> is the descriptor of each one's main program.
\<close>

definition load_prog :: "build \<Rightarrow> string \<Rightarrow> 'w idhash \<Rightarrow> 'w parray \<Rightarrow> HookType \<Rightarrow> int \<Rightarrow> (service \<Rightarrow> int) \<Rightarrow>
    service \<Rightarrow> (bool, 'w PinnedProgMap) st" where
  "load_prog b proj M A ht nic fd k s =
     (case getCanonicalName b proj ht PROGRAM (getName k) of
        Inl e \<Rightarrow> (Inl e, s)
      | Inr n \<Rightarrow> if fd k \<ge> 0 then insertProg b M A ht n (fd k) nic s else (Inr True, s))"

definition load_progs :: "build \<Rightarrow> string \<Rightarrow> 'w idhash \<Rightarrow> 'w parray \<Rightarrow> HookType \<Rightarrow> int \<Rightarrow> (service \<Rightarrow> int) \<Rightarrow>
    service list \<Rightarrow> 'w PinnedProgMap \<Rightarrow> 'w PinnedProgMap" where
  "load_progs b proj M A ht nic fd ks s = fold (\<lambda>k s. snd (load_prog b proj M A ht nic fd k s)) ks s"

text \<open>The identifier a service is registered under.\<close>

definition sid :: "HookType \<Rightarrow> service \<Rightarrow> int" where
  "sid ht k = the (service_id k ht)"

definition chain_hook :: "HookType \<Rightarrow> bool" where
  "chain_hook ht \<longleftrightarrow> ht = TC \<or> ht = HookType.XDP_GENERIC"

lemma registered_sid:
  "chain_hook ht \<Longrightarrow> packet_service k \<Longrightarrow>
   map_of ebpf_id_map (map toupper (getName k) @ ''_'' @ enumName HookType_enum ht) = Some \<lparr>pi_id = sid ht k, pi_hook = ht\<rparr>"
  using registered [of k ht] by (cases k; auto simp: chain_hook_def sid_def packet_service_def)

context chain_kernel
begin

lemma load_known:
  assumes "initialized s" and "map_of (hook_maps s) ht = Some maps"
    and "id_hash_fd maps = hfd" and "prog_array_fd maps = afd"
    and "prog_registry s = ebpf_id_map" and "chain_hook ht" and "packet_service k"
    and "m_lookup ops (pm_kernel s) hfd (CHAIN_KEY nic (sid ht k)) = Some j" and "j < of_int MAX_CHAIN_PROGS"
    and "0 \<le> fd k"
  shows "\<exists>w'. snd (load_prog b proj ops arr ht nic fd k s) = s\<lparr>pm_kernel := w'\<rparr> \<and>
    (\<forall>k. m_lookup ops w' hfd k = m_lookup ops (pm_kernel s) hfd k) \<and>
    (\<forall>i. prog_at w' i = (if i = j then Some (prog_of (of_int (fd k))) else prog_at (pm_kernel s) i))"
proof -
  have "ht \<noteq> HookType.UNKNOWN" using assms(6) by (auto simp: chain_hook_def)
  moreover have "map_of (prog_registry s) (map toupper (getName k) @ ''_'' @ enumName HookType_enum ht) =
      Some \<lparr>pi_id = sid ht k, pi_hook = ht\<rparr>"
    unfolding assms(5) by (rule registered_sid [OF assms(6,7)])
  ultimately show ?thesis
    using insert_known [OF assms(1-4) _ assms(8-10), of _ b] assms(10)
    by (fastforce simp: load_prog_def program_canonical)
qed

text \<open>Whatever the order of the loads: each program ends up at its own index, and nothing else changes.\<close>

lemma load_all:
  assumes "initialized s" and "map_of (hook_maps s) ht = Some maps"
    and "id_hash_fd maps = hfd" and "prog_array_fd maps = afd"
    and "prog_registry s = ebpf_id_map" and "chain_hook ht"
    and "\<forall>k \<in> set ks. packet_service k \<and> 0 \<le> fd k \<and> pos k < of_int MAX_CHAIN_PROGS \<and>
      m_lookup ops (pm_kernel s) hfd (CHAIN_KEY nic (sid ht k)) = Some (pos k)"
    and "inj_on pos (set ks)"
  shows "\<exists>w'. load_progs b proj ops arr ht nic fd ks s = s\<lparr>pm_kernel := w'\<rparr> \<and>
    (\<forall>k. m_lookup ops w' hfd k = m_lookup ops (pm_kernel s) hfd k) \<and>
    (\<forall>k \<in> set ks. prog_at w' (pos k) = Some (prog_of (of_int (fd k)))) \<and>
    (\<forall>i. i \<notin> pos ` set ks \<longrightarrow> prog_at w' i = prog_at (pm_kernel s) i)"
  using assms(1,2,5,7,8)
proof (induction ks arbitrary: s)
  case Nil
  then show ?case by (intro exI [of _ "pm_kernel s"]) (simp add: load_progs_def)
next
  case (Cons k ks)
  obtain w1 where w1: "snd (load_prog b proj ops arr ht nic fd k s) = s\<lparr>pm_kernel := w1\<rparr>"
    "\<forall>i. m_lookup ops w1 hfd i = m_lookup ops (pm_kernel s) hfd i"
    "\<forall>i. prog_at w1 i = (if i = pos k then Some (prog_of (of_int (fd k))) else prog_at (pm_kernel s) i)"
    using load_known [OF Cons.prems(1,2) assms(3,4) Cons.prems(3) assms(6), of k nic "pos k" fd b proj] Cons.prems(4)
    by auto
  have "\<exists>w'. load_progs b proj ops arr ht nic fd ks (s\<lparr>pm_kernel := w1\<rparr>) = s\<lparr>pm_kernel := w1\<rparr>\<lparr>pm_kernel := w'\<rparr> \<and>
    (\<forall>k. m_lookup ops w' hfd k = m_lookup ops (pm_kernel (s\<lparr>pm_kernel := w1\<rparr>)) hfd k) \<and>
    (\<forall>k \<in> set ks. prog_at w' (pos k) = Some (prog_of (of_int (fd k)))) \<and>
    (\<forall>i. i \<notin> pos ` set ks \<longrightarrow> prog_at w' i = prog_at (pm_kernel (s\<lparr>pm_kernel := w1\<rparr>)) i)"
    by (rule Cons.IH) (use Cons.prems w1(2) in auto)
  then obtain w' where w': "load_progs b proj ops arr ht nic fd ks (s\<lparr>pm_kernel := w1\<rparr>) = s\<lparr>pm_kernel := w'\<rparr>"
    "\<forall>k. m_lookup ops w' hfd k = m_lookup ops w1 hfd k"
    "\<forall>k \<in> set ks. prog_at w' (pos k) = Some (prog_of (of_int (fd k)))"
    "\<forall>i. i \<notin> pos ` set ks \<longrightarrow> prog_at w' i = prog_at w1 i"
    by auto
  have "prog_at w' (pos k) = Some (prog_of (of_int (fd k)))"
  proof (cases "pos k \<in> pos ` set ks")
    case True
    then have "k \<in> set ks" using Cons.prems(5) by (auto simp: inj_on_def)
    with w'(3) show ?thesis by blast
  qed (use w'(4) w1(3) in simp)
  with w' w1 show ?case
    by (intro exI [of _ w']) (auto simp: load_progs_def)
qed

end

section \<open>The names of a configured chain\<close>

definition lib_name :: "build \<Rightarrow> string \<Rightarrow> HookType \<Rightarrow> string \<Rightarrow> string" where
  "lib_name b proj ht path = (case getCanonicalName b proj ht LIBRARY path of Inr n \<Rightarrow> n | Inl _ \<Rightarrow> [])"

definition scheduler_of :: "HookType \<Rightarrow> service" where
  "scheduler_of ht = (if ht = TC then Scheduler else SchedulerXdp)"

lemma lib_name_service:
  assumes "chain_hook ht" and "is_dir dir" and "packet_service k"
  shows "lib_name b ''hebpf'' ht (dir @ library_file ''hebpf'' k) = map toupper (getName k) @ ''_'' @ enumName HookType_enum ht"
  using library_canonical [OF assms(2), of "''hebpf''" ht b k] assms(1)
  by (auto simp: lib_name_def chain_hook_def name_of_source [OF assms(3)])

lemma sched_name_service:
  assumes "chain_hook ht"
  shows "sched_name b ''hebpf'' ht = map toupper (getName (scheduler_of ht)) @ ''_'' @ enumName HookType_enum ht"
proof -
  have lib: "(if ht = TC then SCHEDULER_TC_LIB else SCHEDULER_XDP_LIB) =
      ''build/src/services/scheduler/'' @ library_file ''hebpf'' (scheduler_of ht)"
    by (simp add: SCHEDULER_TC_LIB_def SCHEDULER_XDP_LIB_def library_file_def scheduler_of_def)
  have "is_dir ''build/src/services/scheduler/''" "packet_service (scheduler_of ht)"
    by (simp_all add: is_dir_def packet_service_def scheduler_of_def)
  then show ?thesis
    unfolding sched_name_def lib using lib_name_service [OF assms, unfolded lib_name_def] by blast
qed

lemma chain_ids_services:
  assumes "chain_hook ht" and "prog_registry s = ebpf_id_map"
    and "\<forall>(dir, k) \<in> set cfg. is_dir dir \<and> packet_service k"
  shows "chain_ids_of b ''hebpf'' ht s (map (\<lambda>(dir, k). lib_name b ''hebpf'' ht (dir @ library_file ''hebpf'' k)) cfg) =
    map (sid ht) (scheduler_of ht # map snd cfg)"
proof -
  have one: "chain_ids ebpf_id_map ht (n # ns) = sid ht k # chain_ids ebpf_id_map ht ns"
    if "n = map toupper (getName k) @ ''_'' @ enumName HookType_enum ht" "packet_service k" for n ns k
    using registered_sid [OF assms(1) that(2)] by (simp add: chain_ids_Cons that(1))
  have "chain_ids ebpf_id_map ht (map (\<lambda>(dir, k). lib_name b ''hebpf'' ht (dir @ library_file ''hebpf'' k)) cfg) =
      map (sid ht) (map snd cfg)"
    using assms(3)
  proof (induction cfg)
    case (Cons c cfg)
    obtain dir k where c: "c = (dir, k)" by fastforce
    with Cons show ?case
      by (simp add: one [OF lib_name_service [OF assms(1)]])
  qed (simp add: chain_ids_def List.map_filter_def)
  moreover have "packet_service (scheduler_of ht)"
    by (simp add: packet_service_def scheduler_of_def)
  ultimately show ?thesis
    by (simp add: chain_ids_of_def assms(2) one [OF sched_name_service [OF assms(1)]])
qed

text \<open>A hook type has three identifiers, so a chain has at most three programs.\<close>

lemma sid_range: "chain_hook ht \<Longrightarrow> packet_service k \<Longrightarrow> sid ht k \<in> (if ht = TC then {2, 4, 6} else {3, 5, 7})"
  by (cases k) (auto simp: chain_hook_def sid_def packet_service_def)

lemma chain_length:
  assumes "chain_hook ht" and "\<forall>k \<in> set ks. packet_service k" and "distinct (map (sid ht) ks)"
  shows "length ks \<le> 3"
proof -
  have "set (map (sid ht) ks) \<subseteq> (if ht = TC then {2, 4, 6} else {3, 5, 7})"
    using sid_range [OF assms(1)] assms(2) by (simp only: set_map image_subset_iff) blast
  then have "card (set (map (sid ht) ks)) \<le> card (if ht = TC then {2, 4, 6 :: int} else {3, 5, 7})"
    by (intro card_mono) auto
  then show ?thesis
    using distinct_card [OF assms(3)] by (simp split: if_splits)
qed

lemma of_int_small: "(of_int a :: u32) = of_int c \<longleftrightarrow> a = c" if "0 \<le> a" "a < 2 ^ 32" "0 \<le> c" "c < 2 ^ 32"
proof
  assume "(of_int a :: u32) = of_int c"
  then have "uint (of_int a :: u32) = uint (of_int c :: u32)" by simp
  then show "a = c" using that by (simp add: unsigned_of_int take_bit_int_eq_self)
qed simp

lemma of_int_room: "0 \<le> a \<Longrightarrow> a < MAX_CHAIN_PROGS \<Longrightarrow> (of_int a :: u32) < of_int MAX_CHAIN_PROGS"
  by (simp add: word_less_alt chain_sizes unsigned_of_int take_bit_int_eq_self)

text \<open>The table of an update, for all programs of the first region at once.\<close>

lemma first_region_table:
  assumes "bpf_hash_cap M fd keys cap" and "chain_ready fd keys cap b proj it ht names s"
    and "(nic, nms) \<in> set (group_by_nic names)" and "getStartIndex ht nic s < MAX_PER_NIC_PROGS"
  obtains w' where "updateChain b proj M it ht names s = (Inr True, s\<lparr>pm_kernel := w'\<rparr>)"
    and "\<And>k. k < length (chain_ids_of b proj ht s nms) \<Longrightarrow>
      m_lookup M w' fd (CHAIN_KEY nic (chain_ids_of b proj ht s nms ! k)) = Some (of_int (getStartIndex ht nic s + int k))"
proof -
  obtain w' where w': "updateChain b proj M it ht names s = (Inr True, s\<lparr>pm_kernel := w'\<rparr>)"
    using ready_table [OF assms(1,2)] by blast
  moreover have "m_lookup M w' fd (CHAIN_KEY nic (chain_ids_of b proj ht s nms ! k)) = Some (of_int (getStartIndex ht nic s + int k))"
    if "k < length (chain_ids_of b proj ht s nms)" for k
    using first_region_lookup [OF assms that] w' by (auto dest!: arg_cong [where f = pm_kernel])
  ultimately show thesis by (rule that)
qed

lemma chain_ready_nics:
  "chain_ready fd keys cap b proj it ht names s \<Longrightarrow>
   \<forall>nn \<in> set (group_by_nic names). 0 \<le> getStartIndex ht (fst nn) s \<and> distinct (chain_ids_of b proj ht s (snd nn))"
  by (simp add: chain_ready_def)

context chain_kernel
begin

text \<open>
  The programs of the chain stand in both maps: \<open>ks\<close> is the chain with its scheduler, \<open>loads\<close> the order in
  which the services are loaded.
\<close>

lemma installed:
  assumes "initialized s" and "map_of (hook_maps s) ht = Some maps" and "id_hash_fd maps = hfd" and "prog_array_fd maps = afd"
    and "prog_registry s = ebpf_id_map" and "chain_hook ht" and "\<forall>k \<in> set ks. packet_service k \<and> 0 \<le> fd k"
    and "distinct (map (sid ht) ks)" and "0 \<le> start" "start < MAX_PER_NIC_PROGS"
    and look: "\<And>i. i < length ks \<Longrightarrow> m_lookup ops (pm_kernel s) hfd (CHAIN_KEY nic (sid ht (ks ! i))) = Some (of_int (start + int i))"
    and "\<And>i. prog_at (pm_kernel s) i = None" and "set loads = set ks"
  shows "\<exists>w'. load_progs b ''hebpf'' ops arr ht nic fd loads s = s\<lparr>pm_kernel := w'\<rparr> \<and>
    (\<forall>k. m_lookup ops w' hfd k = m_lookup ops (pm_kernel s) hfd k) \<and>
    (\<forall>i < length ks. prog_at w' (of_int (start + int i)) = Some (prog_of (of_int (fd (ks ! i))))) \<and>
    prog_at w' (of_int (start + int (length ks))) = None"
proof -
  define pos where "pos k = the (m_lookup ops (pm_kernel s) hfd (CHAIN_KEY nic (sid ht k)))" for k
  have len: "length ks \<le> 3" using assms(6-8) by (intro chain_length) auto
  have pos: "pos (ks ! i) = of_int (start + int i)" if "i < length ks" for i
    using look [OF that] by (simp add: pos_def)
  have small: "0 \<le> start + int i" "start + int i < MAX_CHAIN_PROGS" "start + int i < 2 ^ 32" if "i \<le> length ks" for i
    using assms(9,10) len that by (simp_all add: chain_sizes)
  have ex: "\<exists>i < length ks. k = ks ! i" if "k \<in> set ks" for k
    using that by (auto simp: in_set_conv_nth)
  have inj: "inj_on pos (set ks)"
    using small by (auto intro!: inj_onI dest!: ex simp: pos of_int_small simp del: of_int_add)
  have each: "\<forall>k \<in> set loads. packet_service k \<and> 0 \<le> fd k \<and> pos k < of_int MAX_CHAIN_PROGS \<and>
      m_lookup ops (pm_kernel s) hfd (CHAIN_KEY nic (sid ht k)) = Some (pos k)"
    using assms(7,13) look small by (auto dest!: ex simp: pos of_int_room simp del: of_int_add)
  obtain w' where w': "load_progs b ''hebpf'' ops arr ht nic fd loads s = s\<lparr>pm_kernel := w'\<rparr>"
    "\<forall>k. m_lookup ops w' hfd k = m_lookup ops (pm_kernel s) hfd k"
    "\<forall>k \<in> set loads. prog_at w' (pos k) = Some (prog_of (of_int (fd k)))"
    "\<forall>i. i \<notin> pos ` set loads \<longrightarrow> prog_at w' i = prog_at (pm_kernel s) i"
    using load_all [OF assms(1-6) each inj [folded assms(13)]] by blast
  have "of_int (start + int (length ks)) \<notin> pos ` set ks"
    using small by (auto dest!: ex simp: pos of_int_small simp del: of_int_add)
  with w'(4) assms(12,13) have behind: "prog_at w' (of_int (start + int (length ks))) = None" by simp
  have "prog_at w' (of_int (start + int i)) = Some (prog_of (of_int (fd (ks ! i))))" if "i < length ks" for i
    using w'(3) assms(13) that pos [OF that] by (metis nth_mem)
  with w'(1,2) behind show ?thesis by blast
qed

end

section \<open>From the configuration to the packet\<close>

text \<open>The installed chain runs in the configured order.\<close>

lemma configured_chain:
  assumes "chain_kernel M hfd keys cap A afd prog_at prog_of"
    and "chain_ready hfd keys cap b ''hebpf'' it ht names s"
    and "map_option prog_array_fd (map_of (hook_maps s) ht) = Some afd"
    and "prog_registry s = ebpf_id_map" and "chain_hook ht"
    and "(nic, map (\<lambda>(dir, k). lib_name b ''hebpf'' ht (dir @ library_file ''hebpf'' k)) cfg) \<in> set (group_by_nic names)"
    and "\<forall>(dir, k) \<in> set cfg. is_dir dir \<and> packet_service k"
    and "getStartIndex ht nic s < MAX_PER_NIC_PROGS" and "\<forall>i. prog_at (pm_kernel s) i = None"
    and "set loads = set (scheduler_of ht # map snd cfg)"
    and "\<forall>k \<in> set loads. 0 \<le> fd k \<and> bp_id (prog_of (of_int (fd k))) = sid ht k"
    and "s' = load_progs b ''hebpf'' M A ht nic fd loads (snd (updateChain b ''hebpf'' M it ht names s))"
  shows "run_chain \<lparr>cv_idhash = m_lookup M (pm_kernel s') hfd, cv_parray = prog_at (pm_kernel s')\<rparr> nic MAX_TAIL_CALL_CNT
      (prog_of (of_int (fd (scheduler_of ht)))) pkt =
    run_seq (prog_of (of_int (fd (scheduler_of ht)))) (map (\<lambda>(_, k). prog_of (of_int (fd k))) cfg) pkt"
proof -
  let ?nms = "map (\<lambda>(dir, k). lib_name b ''hebpf'' ht (dir @ library_file ''hebpf'' k)) cfg"
  let ?ks = "scheduler_of ht # map snd cfg" and ?start = "getStartIndex ht nic s"
  have ids: "chain_ids_of b ''hebpf'' ht s ?nms = map (sid ht) ?ks"
    by (rule chain_ids_services) (use assms in auto)
  have hash: "bpf_hash_cap M hfd keys cap" using assms(1) by (simp add: chain_kernel_def)
  obtain w where w: "updateChain b ''hebpf'' M it ht names s = (Inr True, s\<lparr>pm_kernel := w\<rparr>)"
    "\<And>k. k < length ?ks \<Longrightarrow> m_lookup M w hfd (CHAIN_KEY nic (sid ht (?ks ! k))) = Some (of_int (?start + int k))"
    using first_region_table [OF hash assms(2,6,8)] unfolding ids length_map by (metis nth_map)
  obtain maps where maps: "map_of (hook_maps s) ht = Some maps" "id_hash_fd maps = hfd" "prog_array_fd maps = afd"
    using assms(2,3) by (auto simp: chain_ready_def)
  have "prog_at w = prog_at (pm_kernel s)"
    using chain_kernel.updateChain_progs [OF assms(1), of s ht b "''hebpf''" it names] maps w(1) by simp
  with assms(9) have fresh: "prog_at (pm_kernel (s\<lparr>pm_kernel := w\<rparr>)) i = None" for i by simp
  have services: "\<forall>k \<in> set ?ks. packet_service k \<and> 0 \<le> fd k"
    using assms(7,10,11) by (auto simp: packet_service_def scheduler_of_def)
  have ready: "distinct (map (sid ht) ?ks)" "0 \<le> ?start" "initialized s"
    using bspec [OF chain_ready_nics [OF assms(2)] assms(6)] assms(2)
    unfolding fst_conv snd_conv ids by (simp_all add: chain_ready_def)
  obtain w' where w': "load_progs b ''hebpf'' M A ht nic fd loads (s\<lparr>pm_kernel := w\<rparr>) = s\<lparr>pm_kernel := w'\<rparr>"
    "\<forall>k. m_lookup M w' hfd k = m_lookup M w hfd k"
    "\<forall>i < length ?ks. prog_at w' (of_int (?start + int i)) = Some (prog_of (of_int (fd (?ks ! i))))"
    "prog_at w' (of_int (?start + int (length ?ks))) = None"
    using chain_kernel.installed [OF assms(1) _ _ maps(2,3) _ assms(5) services ready(1,2) assms(8), of "s\<lparr>pm_kernel := w\<rparr>" nic loads b]
      w(2) fresh assms(4,10) ready(3) maps(1) by auto
  have len: "length ?ks \<le> 3"
    using services by (intro chain_length [OF assms(5) _ ready(1)]) blast
  have "chain_holds \<lparr>cv_idhash = m_lookup M w' hfd, cv_parray = prog_at w'\<rparr> nic ?start
      (map (\<lambda>k. prog_of (of_int (fd k))) ?ks)"
    unfolding chain_holds_def length_map
  proof (intro conjI allI impI)
    fix i assume i: "i < length ?ks"
    then have "?ks ! i \<in> set loads" unfolding assms(10) by (rule nth_mem)
    with assms(11) have "bp_id (prog_of (of_int (fd (?ks ! i)))) = sid ht (?ks ! i)" by blast
    with i w(2) [OF i] w'(2) show "cv_idhash \<lparr>cv_idhash = m_lookup M w' hfd, cv_parray = prog_at w'\<rparr>
        (CHAIN_KEY nic (bp_id (map (\<lambda>k. prog_of (of_int (fd k))) ?ks ! i))) = Some (of_int (?start + int i))"
      by (simp only: nth_map chain_view.simps)
    show "cv_parray \<lparr>cv_idhash = m_lookup M w' hfd, cv_parray = prog_at w'\<rparr> (of_int (?start + int i)) =
        Some (map (\<lambda>k. prog_of (of_int (fd k))) ?ks ! i)"
      using w'(3) i by (simp only: nth_map chain_view.simps)
  qed (use ready(2) assms(8) len w'(4) in \<open>simp_all add: chain_sizes\<close>)
  moreover have "pm_kernel s' = w'" by (simp add: assms(12) w(1) w'(1))
  ultimately have holds: "chain_holds \<lparr>cv_idhash = m_lookup M (pm_kernel s') hfd, cv_parray = prog_at (pm_kernel s')\<rparr> nic ?start
      (prog_of (of_int (fd (scheduler_of ht))) # map (\<lambda>(_, k). prog_of (of_int (fd k))) cfg)"
    by (simp add: case_prod_unfold comp_def)
  show ?thesis
    by (rule run_chain_seq [OF holds, of "[]"]) (use len in \<open>simp_all add: MAX_TAIL_CALL_CNT_def\<close>)
qed

section \<open>A reference kernel with both maps\<close>

definition ref_parray :: "(u64, u32) ref_world parray" where
  "ref_parray =
     \<lparr>m_lookup = (\<lambda>w fd i. map_of (w fd) (ucast i)),
      m_update = (\<lambda>w fd i v. if i < of_int MAX_CHAIN_PROGS then (True, w(fd := al_upd (ucast i) v (w fd))) else (False, w)),
      m_delete = (\<lambda>w fd i. w(fd := al_del (ucast i) (w fd))),
      m_next = (\<lambda>w fd k. None)\<rparr>"

lemma ucast_u64_inj: "(ucast i :: u64) = ucast j \<longleftrightarrow> i = j" for i j :: u32
proof
  assume "(ucast i :: u64) = ucast j"
  then have "uint (ucast i :: u64) = uint (ucast j :: u64)" by simp
  then have "uint i = uint j"
    using uint_lt2p [of i] uint_lt2p [of j] by (simp add: unsigned_ucast_eq take_bit_int_eq_self)
  then show "i = j" by (simp only: word_uint_eq_iff)
qed simp

interpretation ref_chain_kernel: chain_kernel "ref_ops cap" 3 "ref_keys 3" cap ref_parray 4
  "\<lambda>w i. map_option pr (map_of (w 4) (ucast i))" pr for cap :: nat and pr :: "u32 \<Rightarrow> 'p"
  by unfold_locales (auto simp: ref_parray_def ucast_u64_inj al_simps split: if_splits)

definition demo_chain_pm :: "(u64, u32) ref_world PinnedProgMap" where
  "demo_chain_pm = (PinnedProgMap_new (\<lambda>_. []))
     \<lparr>initialized := True,
      hook_maps := [(TC, \<lparr>prog_array_fd = 4, id_hash_fd = 3, pin_path_prog_array = [], pin_path_id_to_index = []\<rparr>)],
      regions := (\<lambda>_. [(1, 0)]), prog_registry := ebpf_id_map\<rparr>"

definition demo_chain_prog :: "u32 \<Rightarrow> (frame, tc_act) bpf_prog" where
  "demo_chain_prog v = (if v = 10 then demo_prog 4 (Chain_then TC_ACT_OK) else demo_prog 2 (Return TC_ACT_SHOT))"

lemma demo_chain_sel:
  "map_option prog_array_fd (map_of (hook_maps demo_chain_pm) TC) = Some 4"
  "prog_registry demo_chain_pm = ebpf_id_map"
  "getStartIndex TC 1 demo_chain_pm < MAX_PER_NIC_PROGS"
  "\<forall>i. map_option f (map_of (pm_kernel demo_chain_pm 4) (ucast (i :: u32))) = None"
  by (simp_all add: demo_chain_pm_def PinnedProgMap_new_def getStartIndex_def chain_sizes)

lemma demo_chain_name:
  "lib_name b ''hebpf'' TC (''build/src/services/acl/'' @ library_file ''hebpf'' Acl) = ''ACL_TC''"
  using lib_name_service [of TC "''build/src/services/acl/''" Acl b] upper_names [of Acl]
  by (simp add: chain_hook_def is_dir_def packet_service_def enumName_def HookType_enum_def)

lemma demo_chain_ready:
  "chain_ready 3 (ref_keys 3) 32 b ''hebpf'' id TC [(''ACL_TC'', 1)] demo_chain_pm"
proof -
  have g: "group_by_nic [(''ACL_TC'', 1)] = [(1, [''ACL_TC''])]"
    by (simp add: group_by_nic_def)
  have "chain_ids_of b ''hebpf'' TC demo_chain_pm [''ACL_TC''] = [4, 2]"
    using chain_ids_services [of TC demo_chain_pm "[(''build/src/services/acl/'', Acl)]" b] demo_chain_name [of b]
    by (simp add: chain_hook_def demo_chain_pm_def is_dir_def packet_service_def sid_def scheduler_of_def del: append.simps)
  then show ?thesis
    by (simp add: chain_ready_def g nic_entries_def chain_ids_of_def)
       (simp add: demo_chain_pm_def PinnedProgMap_new_def getStartIndex_def ref_keys_def)
qed

end
