(* ===== verification/Packet_Path.thy ===== *)
theory Packet_Path
  imports Chain_Install Acl_Datapath
begin

text \<open>
  The two packet services in one chain, from their configuration files to what becomes of a frame. The
  reference is a function of the configured rules alone; the program is the chain of the scheduler, the XDP
  filter and the balancer over the maps that the services, the daemon and the loader have filled.
\<close>

section \<open>What the configurations ask for\<close>

text \<open>The backend of a frame: the rule for its destination, and in it the one its source address selects.\<close>

definition lb_rule_for :: "(string \<Rightarrow> u32 option) \<Rightarrow> LbRulesElem list \<Rightarrow> u32 \<Rightarrow> u16 \<Rightarrow> LbRulesElem option" where
  "lb_rule_for addr4 rules da dp =
     find (\<lambda>r. vip_key_of addr4 r = \<lparr>vk_vip = da, vk_vport = dp, vk_padding = 0\<rparr>) rules"

definition wanted_backend :: "(string \<Rightarrow> u32 option) \<Rightarrow> LbRulesElem list \<Rightarrow> frame \<Rightarrow> backend_info option" where
  "wanted_backend addr4 rules p =
     (case lb_flow p of
        None \<Rightarrow> None
      | Some (sa, da, dp) \<Rightarrow>
          (case lb_rule_for addr4 rules da dp of
             None \<Rightarrow> None
           | Some r \<Rightarrow>
               if used_backends r = [] then None
               else Some (pool_entry (used_backends r ! (unat sa mod length (used_backends r))))))"

text \<open>The frame for a backend: its address as destination, the balancer's own as source.\<close>

definition redirect :: "mac_addr \<Rightarrow> backend_info \<Rightarrow> frame \<Rightarrow> frame" where
  "redirect own be p = mac_list (bi_mac be) @ mac_list own @ drop 12 p"

definition denied :: "AclRulesElem list \<Rightarrow> frame \<Rightarrow> bool" where
  "denied rules p \<longleftrightarrow> h_proto p = Some (htons ETH_P_IP) \<and> acl_denies (acl_table rules) p"

text \<open>Denied frames are dropped, frames to a virtual service are sent to their backend, others are passed on.\<close>

definition fate :: "AclRulesElem list \<Rightarrow> (string \<Rightarrow> u32 option) \<Rightarrow> LbRulesElem list \<Rightarrow> mac_addr \<Rightarrow> frame \<Rightarrow>
    xdp_act \<times> frame" where
  "fate acl addr4 lbr own p =
     (if denied acl p then (XDP_DROP, p)
      else case wanted_backend addr4 lbr p of
             None \<Rightarrow> (XDP_PASS, p)
           | Some be \<Rightarrow> (XDP_TX, redirect own be p))"

section \<open>The programs\<close>

text \<open>The two programs as members of a chain; both always end in a verdict, so \<open>the\<close> never meets \<open>None\<close>.\<close>

definition acl_xdp_prog :: "(ipv4_tuple \<Rightarrow> u32 option) \<Rightarrow> (frame, xdp_act) bpf_prog" where
  "acl_xdp_prog lookup = \<lparr>bp_id = sid HookType.XDP_GENERIC AclXdp, bp_run = (\<lambda>p. (the (hebpf_acl_xdp_generic lookup p), p))\<rparr>"

definition lb_xdp_prog :: "lb_maps \<Rightarrow> (frame, xdp_act) bpf_prog" where
  "lb_xdp_prog m = \<lparr>bp_id = sid HookType.XDP_GENERIC LbXdp, bp_run = (\<lambda>p. the (hebpf_lb_xdp_gen m p))\<rparr>"

definition scheduler_xdp_prog :: "(frame, xdp_act) bpf_prog" where
  "scheduler_xdp_prog = hebpf_scheduler_xdp_gen (sid HookType.XDP_GENERIC SchedulerXdp)"

text \<open>A frame the balancer takes for a flow is one the filter classifies.\<close>

lemma flow_classified:
  assumes "lb_flow p = Some f"
  shows "acl_classify p \<noteq> None" "h_proto p = Some (htons ETH_P_IP)" "ETH_HLEN \<le> length p"
  using assms by (auto simp: lb_flow_def acl_classify_def Let_def header_sizes split: if_splits)

lemma backend_flow: "lb_backend m p = Some be \<Longrightarrow> \<exists>f. lb_flow p = Some f"
  by (auto simp: lb_backend_def bind_eq_Some_conv)

text \<open>One program of the chain, and the rest when it hands on.\<close>

lemma run_seq_scheduler: "run_seq scheduler_xdp_prog (q # rest) p = run_seq q rest p"
proof -
  have "bp_run scheduler_xdp_prog p = (Chain_then XDP_PASS, p)"
    by (simp add: scheduler_xdp_prog_def hebpf_scheduler_xdp_gen_def)
  then show ?thesis by (simp add: run_seq.simps [of scheduler_xdp_prog])
qed

lemma run_seq_acl:
  "run_seq (acl_xdp_prog lookup) rest p =
     (if h_proto p = Some (htons ETH_P_IP) \<and> acl_denies lookup p then (XDP_DROP, p)
      else if ETH_HLEN \<le> length p \<and> h_proto p = Some (htons ETH_P_IP) \<and> acl_classify p \<noteq> None
      then (case rest of [] \<Rightarrow> (XDP_PASS, p) | next # rest' \<Rightarrow> run_seq next rest' p)
      else (XDP_PASS, p))"
proof -
  have "bp_run (acl_xdp_prog lookup) p = (the (hebpf_acl_xdp_generic lookup p), p)"
    by (simp add: acl_xdp_prog_def)
  moreover have "length p < ETH_HLEN \<Longrightarrow> acl_classify p = None"
    by (intro classify_short) simp
  ultimately show ?thesis
    by (auto simp: run_seq.simps [of "acl_xdp_prog lookup"] xdp_refines acl_denies_def not_le split: option.splits)
qed

lemma run_seq_lb:
  "lb_backend m p = Some be \<Longrightarrow> run_seq (lb_xdp_prog m) rest p =
     (case rest of [] \<Rightarrow> (XDP_TX, lb_rewrite m be p) | next # rest' \<Rightarrow> run_seq next rest' (lb_rewrite m be p))"
  "lb_backend m p = None \<Longrightarrow> run_seq (lb_xdp_prog m) [] p = (XDP_PASS, p)"
proof -
  have run: "bp_run (lb_xdp_prog m) p = the (hebpf_lb_xdp_gen m p)"
    by (simp add: lb_xdp_prog_def)
  show "lb_backend m p = Some be \<Longrightarrow> run_seq (lb_xdp_prog m) rest p =
     (case rest of [] \<Rightarrow> (XDP_TX, lb_rewrite m be p) | next # rest' \<Rightarrow> run_seq next rest' (lb_rewrite m be p))"
    using run by (simp add: run_seq.simps [of "lb_xdp_prog m"] lb_xdp_backend)
  show "lb_backend m p = None \<Longrightarrow> run_seq (lb_xdp_prog m) [] p = (XDP_PASS, p)"
    using run lb_xdp_no_backend [of m p] by (auto simp: run_seq.simps [of "lb_xdp_prog m"])
qed

lemma filter_then_balance:
  "run_seq scheduler_xdp_prog [acl_xdp_prog lookup, lb_xdp_prog m] p =
     (if h_proto p = Some (htons ETH_P_IP) \<and> acl_denies lookup p then (XDP_DROP, p)
      else case lb_backend m p of None \<Rightarrow> (XDP_PASS, p) | Some be \<Rightarrow> (XDP_TX, lb_rewrite m be p))"
proof (cases "lb_backend m p")
  case None
  then show ?thesis by (simp add: run_seq_scheduler run_seq_acl run_seq_lb)
next
  case (Some be)
  then obtain f where "lb_flow p = Some f" using backend_flow by blast
  with Some flow_classified [of p f] show ?thesis
    by (simp add: run_seq_scheduler run_seq_acl run_seq_lb)
qed

text \<open>Nothing the filter reads is among the twelve bytes the balancer rewrites.\<close>

lemma rd_behind:
  assumes "drop 12 q = drop 12 p" and "length q = length p" and "12 \<le> i"
  shows "rd8 q i = rd8 p i" "rd16 q i = rd16 p i" "rd32 q i = rd32 p i"
proof -
  have "q ! j = p ! j" if "12 \<le> j" "j < length p" for j
    using assms(1,2) that nth_drop [of 12 q "j - 12"] nth_drop [of 12 p "j - 12"] by simp
  with assms(2,3) show "rd8 q i = rd8 p i" "rd16 q i = rd16 p i" "rd32 q i = rd32 p i"
    by (simp_all add: rd8_def rd16_def rd32_def)
qed

lemma denies_rewritten:
  assumes "lb_backend m p = Some be"
  shows "h_proto (lb_rewrite m be p) = h_proto p" "acl_denies lookup (lb_rewrite m be p) = acl_denies lookup p"
proof -
  obtain f where f: "lb_flow p = Some f" using backend_flow [OF assms] by blast
  let ?q = "lb_rewrite m be p"
  have len: "12 \<le> length p" using flow_classified(3) [OF f] by (simp add: header_sizes)
  then have same: "drop 12 ?q = drop 12 p" "length ?q = length p"
    by (auto simp: lb_rewrite_def split: option.split)
  note rd = rd_behind [OF same]
  have fields: "h_proto ?q = h_proto p" "ip_ihl ?q = ip_ihl p" "ip_protocol ?q = ip_protocol p" "ip_saddr ?q = ip_saddr p"
    "ip_daddr ?q = ip_daddr p"
    "12 \<le> l4 \<Longrightarrow> l4_source ?q l4 = l4_source p l4" "12 \<le> l4 \<Longrightarrow> l4_dest ?q l4 = l4_dest p l4" for l4
    by (simp_all add: header_fields rd)
  then show "h_proto ?q = h_proto p" by simp
  have "acl_classify ?q = acl_classify p"
    using fields by (simp add: acl_classify_def same(2) Let_def header_sizes)
  then show "acl_denies lookup ?q = acl_denies lookup p" by (simp add: acl_denies_def)
qed

text \<open>The other way round the filter's verdict replaces the balancer's.\<close>

lemma balance_then_filter:
  assumes "lb_backend m p = Some be"
  shows "run_seq scheduler_xdp_prog [lb_xdp_prog m, acl_xdp_prog lookup] p =
    (if h_proto p = Some (htons ETH_P_IP) \<and> acl_denies lookup p then XDP_DROP else XDP_PASS, lb_rewrite m be p)"
  using run_seq_lb(1) [OF assms, of "[acl_xdp_prog lookup]"] denies_rewritten [OF assms]
  by (simp add: run_seq_scheduler run_seq_acl)

section \<open>The maps after the balancer's update\<close>

text \<open>Maps that hold the tables of a configuration select the wanted backend.\<close>

lemma table_selects:
  assumes vips: "\<And>x. vip_backends m x = map_of (rev (lb_table addr4 rules 0)) x"
    and pool: "\<And>y. unat y < length (pool_of rules) \<Longrightarrow> backend_pool m y = Some (pool_of rules ! unat y)"
    and "distinct (map (vip_key_of addr4) rules)" and "length (pool_of rules) \<le> TOTAL_BACKENDS"
  shows "lb_select m sa da dp =
    (case lb_rule_for addr4 rules da dp of
       None \<Rightarrow> None
     | Some r \<Rightarrow> if used_backends r = [] then None
                 else Some (pool_entry (used_backends r ! (unat sa mod length (used_backends r)))))"
proof (cases "lb_rule_for addr4 rules da dp")
  case None
  let ?k = "\<lparr>vk_vip = da, vk_vport = dp, vk_padding = 0\<rparr>"
  have "?k \<notin> set (map fst (lb_table addr4 rules 0))"
    using None by (auto simp: lb_table_keys lb_rule_for_def find_None_iff)
  then have "vip_backends m ?k = None"
    unfolding vips map_of_eq_None_iff by simp
  with None show ?thesis by (simp add: lb_select_def)
next
  case (Some r)
  let ?k = "\<lparr>vk_vip = da, vk_vport = dp, vk_padding = 0\<rparr>" and ?n = "length (used_backends r)"
  obtain xs ys where rules: "rules = xs @ r # ys" and k: "vip_key_of addr4 r = ?k"
    using Some unfolding lb_rule_for_def find_Some_iff by (metis id_take_nth_drop)
  let ?px = "length (pool_of xs)" and ?i = "unat sa mod length (used_backends r)"
  have grp: "vip_backends m ?k = Some (group_of ?px ?n)"
    using lb_table_group [of addr4 xs r ys] assms(3) by (simp add: vips rules k)
  have split: "pool_of rules = pool_of xs @ map pool_entry (used_backends r) @ pool_of ys"
    by (simp add: rules pool_of_def)
  have n: "?n \<le> MAX_BACKENDS_PER_VIP" "?px + ?n \<le> TOTAL_BACKENDS"
    using assms(4) split by (simp_all add: used_backends_def)
  show ?thesis
  proof (cases "used_backends r = []")
    case True
    with grp Some show ?thesis by (simp add: lb_select_def group_of_def)
  next
    case False
    then have i: "?i < ?n" by simp
    then have "?px + ?i < 2 ^ 32" using n(2) by (simp add: TOTAL_BACKENDS_def)
    then have "unat (of_nat (?px + ?i) :: u32) = ?px + ?i"
      by (simp add: unat_of_nat del: of_nat_add)
    then have "backend_pool m (of_nat (?px + ?i)) = Some (pool_entry (used_backends r ! ?i))"
      using pool [of "of_nat (?px + ?i)"] i split by (simp add: nth_append)
    with group_select [OF grp _ n, of sa] False Some show ?thesis by simp
  qed
qed

text \<open>The map of the balancer's own address: a store succeeds, and the other two maps do not touch it.\<close>

locale lb_kernel_mac = lb_kernel M vfd pfd keys cap lfd
  for M :: "'w lb_kernel_ops" and vfd pfd :: int and keys :: "'w \<Rightarrow> vip_key list" and cap :: nat and lfd :: int +
  assumes lomac_stored: "m_lookup (k_lomac M) (snd (m_update (k_lomac M) w lfd 0 mac)) lfd 0 = Some mac"
    and lomac_of_vip: "m_lookup (k_lomac M) (snd (m_update (k_vip M) w vfd k g)) lfd 0 = m_lookup (k_lomac M) w lfd 0"
    and lomac_of_pool: "m_lookup (k_lomac M) (snd (m_update (k_pool M) w pfd i e)) lfd 0 = m_lookup (k_lomac M) w lfd 0"
begin

lemma fill_lomac:
  "m_lookup (k_lomac M) (fst (snd (lb_fill (k_pool M) pfd bes i pn w arr))) lfd 0 = m_lookup (k_lomac M) w lfd 0"
proof (induction bes arbitrary: i pn w arr)
  case (Cons be bes)
  have step: "m_lookup (k_lomac M) w' lfd 0 = m_lookup (k_lomac M) w lfd 0"
    if "m_update (k_pool M) w pfd j e = (ok, w')" for j e ok w'
    using lomac_of_pool [of w j e] that by simp
  show ?case
    using Cons.IH by (auto simp: Let_def dest: step split: prod.split bool.split)
qed simp

lemma install_lomac:
  "m_lookup (k_lomac M) (kernel (lb_install addr4 M vfd pfd rules n pn s)) lfd 0 = m_lookup (k_lomac M) (kernel s) lfd 0"
proof (induction rules arbitrary: n pn s)
  case (Cons rule rules)
  have fill: "m_lookup (k_lomac M) w lfd 0 = m_lookup (k_lomac M) (kernel s) lfd 0"
    if "lb_fill (k_pool M) pfd bes i pn (kernel s) arr = (pn', w, arr')" for bes i arr pn' w arr'
    using fill_lomac [of bes i pn "kernel s" arr] that by simp
  have step: "m_lookup (k_lomac M) w' lfd 0 = m_lookup (k_lomac M) w lfd 0"
    if "m_update (k_vip M) w vfd k g = (ok, w')" for w k g ok w'
    using lomac_of_vip [of w k g] that by simp
  show ?case
    using Cons.IH by (auto simp: Let_def dest!: fill step split: option.split prod.split bool.split)
qed simp

lemma update_view:
  assumes sk: "skel s = Some sk" "sk_map_fd K sk ''vip_backends'' = vfd" "0 \<le> vfd"
      "sk_map_fd K sk ''backend_pool'' = pfd" "0 \<le> pfd" "sk_map_fd K sk ''lb_lomac'' = lfd" "0 \<le> lfd"
    and js: "LbRules_from_json J config LbRules_new = Inr a"
    and ok: "\<forall>r \<in> set (lb_rules a). lb_valid addr4 r" "length (pool_of (lb_rules a)) \<le> TOTAL_BACKENDS"
      "length (lb_rules a) \<le> min cap LB_MAX_RULES_SIZE" "distinct (map (vip_key_of addr4) (lb_rules a))"
    and mac: "mac_bytes (lb_local_mac a) = Some bytes"
    and s': "s' = snd (lb_onConfigUpdate b J K M addr4 junk ht i config s)"
  shows "lb_backend (lb_view M vfd pfd lfd (kernel s')) p = wanted_backend addr4 (lb_rules a) p \<and>
    lb_rewrite (lb_view M vfd pfd lfd (kernel s')) be p = redirect (mac_of bytes) be p"
proof -
  let ?m = "lb_view M vfd pfd lfd (kernel s')"
  obtain s1 where "lb_onConfigUpdate b J K M addr4 junk ht i config s = (Inr (), s1)"
    "\<forall>x. m_lookup (k_vip M) (kernel s1) vfd x = map_of (rev (lb_table addr4 (lb_rules a) 0)) x"
    "\<forall>y. unat y < length (pool_of (lb_rules a)) \<longrightarrow>
        m_lookup (k_pool M) (kernel s1) pfd y = Some (pool_of (lb_rules a) ! unat y)"
    using update_installs [OF sk js ok(1-3), of b junk ht i] by blast
  then have sel: "lb_select ?m sa da dp =
    (case lb_rule_for addr4 (lb_rules a) da dp of
       None \<Rightarrow> None
     | Some r \<Rightarrow> if used_backends r = [] then None
                 else Some (pool_entry (used_backends r ! (unat sa mod length (used_backends r)))))" for sa da dp
    by (intro table_selects [OF _ _ ok(4,2)]) (simp_all add: lb_view_def s')
  have len: "length (mac_list junk) = 6" by simp
  have "lb_lomac ?m 0 = Some (mac_of bytes)"
    using sscanf_mac_ok [OF len mac]
    by (simp add: lb_view_def s' update_run [OF sk js] install_lomac lb_emptied_def lomac_stored)
  then show ?thesis
    by (auto simp: lb_backend_def wanted_backend_def sel lb_rewrite_def redirect_def split: option.split)
qed

end

interpretation reflb_mac: lb_kernel_mac ref_lb vfd pfd "\<lambda>w. ref_keys vfd (lw_vip w)" MAXSIZE_LB_HASH lfd
  for vfd pfd lfd :: int
  by unfold_locales (auto simp: ref_lb_def split: prod.split)

section \<open>From the configuration files to the frame\<close>

text \<open>
  The service objects before their update: skeletons loaded, map descriptors valid, the rules fit; for the
  balancer also: no mistake in the rules, no destination twice, its own address readable.
\<close>

definition acl_ready :: "('w, 's) skel_ops \<Rightarrow> int \<Rightarrow> nat \<Rightarrow> AclRulesElem list \<Rightarrow> ('w, 's) AclBase \<Rightarrow> bool" where
  "acl_ready K fd cap rules s \<longleftrightarrow>
     (\<exists>sk. skel s = Some sk \<and> sk_map_fd K sk ''hebpf_krules_acl'' = fd) \<and> 0 \<le> fd \<and>
     length (installable rules) \<le> min cap MAX_RULES_SIZE"

definition lb_ready :: "('w, 's) skel_ops \<Rightarrow> int \<Rightarrow> int \<Rightarrow> int \<Rightarrow> nat \<Rightarrow> (string \<Rightarrow> u32 option) \<Rightarrow> LbRules \<Rightarrow>
    ('w, 's) LbBase \<Rightarrow> bool" where
  "lb_ready K vfd pfd lfd cap addr4 a s \<longleftrightarrow>
     (\<exists>sk. skel s = Some sk \<and> sk_map_fd K sk ''vip_backends'' = vfd \<and> sk_map_fd K sk ''backend_pool'' = pfd \<and>
           sk_map_fd K sk ''lb_lomac'' = lfd) \<and> 0 \<le> vfd \<and> 0 \<le> pfd \<and> 0 \<le> lfd \<and>
     (\<forall>r \<in> set (lb_rules a). lb_valid addr4 r) \<and> length (pool_of (lb_rules a)) \<le> TOTAL_BACKENDS \<and>
     length (lb_rules a) \<le> min cap LB_MAX_RULES_SIZE \<and> distinct (map (vip_key_of addr4) (lb_rules a)) \<and>
     mac_bytes (lb_local_mac a) \<noteq> None"

text \<open>The chain manager before the update of the chain of interface \<open>nic\<close>, which lists the services \<open>cfg\<close>.\<close>

definition xdp_chain_ready :: "int \<Rightarrow> int \<Rightarrow> ('w \<Rightarrow> u64 list) \<Rightarrow> nat \<Rightarrow> build \<Rightarrow>
    ((int \<times> string list) list \<Rightarrow> (int \<times> string list) list) \<Rightarrow> (string \<times> int) list \<Rightarrow> int \<Rightarrow> (string \<times> service) list \<Rightarrow>
    'w PinnedProgMap \<Rightarrow> bool" where
  "xdp_chain_ready hfd afd keys cap b it names nic cfg s \<longleftrightarrow>
     chain_ready hfd keys cap b ''hebpf'' it HookType.XDP_GENERIC names s \<and>
     map_option prog_array_fd (map_of (hook_maps s) HookType.XDP_GENERIC) = Some afd \<and>
     prog_registry s = ebpf_id_map \<and> getStartIndex HookType.XDP_GENERIC nic s < MAX_PER_NIC_PROGS \<and>
     (\<forall>(dir, k) \<in> set cfg. is_dir dir \<and> packet_service k) \<and>
     (nic, map (\<lambda>(dir, k). lib_name b ''hebpf'' HookType.XDP_GENERIC (dir @ library_file ''hebpf'' k)) cfg)
       \<in> set (group_by_nic names)"

text \<open>What is behind the descriptor of each loaded service.\<close>

definition xdp_prog_of :: "(ipv4_tuple \<Rightarrow> u32 option) \<Rightarrow> lb_maps \<Rightarrow> service \<Rightarrow> (frame, xdp_act) bpf_prog" where
  "xdp_prog_of lookup m k =
     (if k = AclXdp then acl_xdp_prog lookup else if k = LbXdp then lb_xdp_prog m else scheduler_xdp_prog)"

lemma xdp_chain_runs:
  assumes "chain_kernel M hfd keys cap A afd prog_at prog_of"
    and "xdp_chain_ready hfd afd keys cap b it names nic cfg s" and "\<forall>i. prog_at (pm_kernel s) i = None"
    and "set (map snd cfg) \<subseteq> {AclXdp, LbXdp}" and "set loads = set (SchedulerXdp # map snd cfg)"
    and "\<forall>k \<in> set loads. 0 \<le> fd k \<and> prog_of (of_int (fd k)) = xdp_prog_of lookup m k"
    and "s' = load_progs b ''hebpf'' M A HookType.XDP_GENERIC nic fd loads
           (snd (updateChain b ''hebpf'' M it HookType.XDP_GENERIC names s))"
  shows "run_chain \<lparr>cv_idhash = m_lookup M (pm_kernel s') hfd, cv_parray = prog_at (pm_kernel s')\<rparr> nic MAX_TAIL_CALL_CNT
      scheduler_xdp_prog pkt = run_seq scheduler_xdp_prog (map (xdp_prog_of lookup m) (map snd cfg)) pkt"
proof -
  let ?V = "\<lparr>cv_idhash = m_lookup M (pm_kernel s') hfd, cv_parray = prog_at (pm_kernel s')\<rparr>"
  have sched: "scheduler_of HookType.XDP_GENERIC = SchedulerXdp" by (simp add: scheduler_of_def)
  have progs: "prog_of (of_int (fd k)) = xdp_prog_of lookup m k" if "k \<in> set (SchedulerXdp # map snd cfg)" for k
    using assms(5,6) that by blast
  have ids: "\<forall>k \<in> set loads. 0 \<le> fd k \<and> bp_id (prog_of (of_int (fd k))) = sid HookType.XDP_GENERIC k"
    using assms(4-6)
    by (auto simp: xdp_prog_of_def acl_xdp_prog_def lb_xdp_prog_def scheduler_xdp_prog_def hebpf_scheduler_xdp_gen_def)
  have "run_chain ?V nic MAX_TAIL_CALL_CNT (prog_of (of_int (fd (scheduler_of HookType.XDP_GENERIC)))) pkt =
    run_seq (prog_of (of_int (fd (scheduler_of HookType.XDP_GENERIC)))) (map (\<lambda>(_, k). prog_of (of_int (fd k))) cfg) pkt"
    by (rule configured_chain [OF assms(1) _ _ _ _ _ _ _ assms(3) _ ids assms(7)])
       (use assms(2,5) in \<open>simp_all add: xdp_chain_ready_def chain_hook_def sched\<close>)
  moreover have "map (\<lambda>(_, k). prog_of (of_int (fd k))) cfg = map (xdp_prog_of lookup m) (map snd cfg)"
    using progs by (auto simp: image_iff split_beta)
  ultimately show ?thesis
    using progs [of SchedulerXdp] by (simp add: sched xdp_prog_of_def)
qed

text \<open>What the two services' updates leave for their programs.\<close>

lemma acl_view:
  assumes "bpf_hash_cap M fd keys cap" and "json_lib J" and "acl_ready K fd cap rules s"
    and "s' = snd (acl_onConfigUpdate b J K M ht i (AclRules_to_json J \<lparr>acl_rules = rules\<rparr>) s)"
  shows "m_lookup M (kernel s') fd = acl_table rules"
proof -
  obtain sk where "skel s = Some sk" "sk_map_fd K sk ''hebpf_krules_acl'' = fd" "0 \<le> fd"
    "length (installable rules) \<le> min cap MAX_RULES_SIZE"
    using assms(3) by (auto simp: acl_ready_def)
  with acl_map.onConfigUpdate_table [OF acl_map.intro [OF assms(1)] _ _ _ json_lib.acl_ruleset_roundtrip [OF assms(2)],
      of s sk K "\<lparr>acl_rules = rules\<rparr>" b ht i]
  show ?thesis by (auto simp: assms(4))
qed

lemma lb_views:
  assumes "lb_kernel_mac M vfd pfd keys cap lfd" and "json_lib J" and "lb_ready K vfd pfd lfd cap addr4 a s"
    and "s' = snd (lb_onConfigUpdate b J K M addr4 junk ht i (LbRules_to_json J a) s)"
  shows "lb_backend (lb_view M vfd pfd lfd (kernel s')) p = wanted_backend addr4 (lb_rules a) p"
    and "lb_rewrite (lb_view M vfd pfd lfd (kernel s')) be p = redirect (mac_of (the (mac_bytes (lb_local_mac a)))) be p"
proof -
  obtain sk bytes where "skel s = Some sk" "sk_map_fd K sk ''vip_backends'' = vfd" "0 \<le> vfd"
      "sk_map_fd K sk ''backend_pool'' = pfd" "0 \<le> pfd" "sk_map_fd K sk ''lb_lomac'' = lfd" "0 \<le> lfd"
    and "mac_bytes (lb_local_mac a) = Some bytes"
    using assms(3) by (auto simp: lb_ready_def)
  with lb_kernel_mac.update_view [OF assms(1) _ _ _ _ _ _ _ json_lib.lb_ruleset_roundtrip [OF assms(2)] _ _ _ _ _ assms(4), where bytes = bytes and p = p and be = be]
    assms(3)
  show "lb_backend (lb_view M vfd pfd lfd (kernel s')) p = wanted_backend addr4 (lb_rules a) p"
    "lb_rewrite (lb_view M vfd pfd lfd (kernel s')) be p = redirect (mac_of (the (mac_bytes (lb_local_mac a)))) be p"
    by (auto simp: lb_ready_def)
qed



section \<open>A small installation\<close>

definition demo_xdp_pm :: "(u64, u32) ref_world PinnedProgMap" where
  "demo_xdp_pm = (PinnedProgMap_new (\<lambda>_. []))
     \<lparr>initialized := True,
      hook_maps := [(HookType.XDP_GENERIC, \<lparr>prog_array_fd = 4, id_hash_fd = 3, pin_path_prog_array = [], pin_path_id_to_index = []\<rparr>)],
      regions := (\<lambda>_. [(1, 0)]), prog_registry := ebpf_id_map\<rparr>"

definition demo_dir :: string where "demo_dir = ''build/src/services/''"

definition demo_fd :: "service \<Rightarrow> int" where
  "demo_fd k = (if k = AclXdp then 11 else if k = LbXdp then 12 else 10)"

definition demo_behind :: "(ipv4_tuple \<Rightarrow> u32 option) \<Rightarrow> lb_maps \<Rightarrow> u32 \<Rightarrow> (frame, xdp_act) bpf_prog" where
  "demo_behind lookup m v = xdp_prog_of lookup m (if v = 11 then AclXdp else if v = 12 then LbXdp else SchedulerXdp)"

definition demo_lbr :: LbRules where
  "demo_lbr = \<lparr>lb_local_mac = ''02:00:00:00:00:02'', lb_rules = [demo_lb_rule ''02:00:00:00:00:02'']\<rparr>"

lemma demo_xdp_names:
  "lib_name b ''hebpf'' HookType.XDP_GENERIC (demo_dir @ library_file ''hebpf'' AclXdp) = ''ACL_XDP_GENERIC''"
  "lib_name b ''hebpf'' HookType.XDP_GENERIC (demo_dir @ library_file ''hebpf'' LbXdp) = ''LB_XDP_GENERIC''"
  using lib_name_service [of HookType.XDP_GENERIC demo_dir _ b] upper_names [of AclXdp] upper_names [of LbXdp]
  by (simp_all add: chain_hook_def is_dir_def demo_dir_def packet_service_def enumName_def HookType_enum_def)

lemma demo_xdp_chain:
  assumes "cfg = [(demo_dir, AclXdp), (demo_dir, LbXdp)] \<or> cfg = [(demo_dir, LbXdp), (demo_dir, AclXdp)]"
    and "nms = map (\<lambda>(dir, k). lib_name b ''hebpf'' HookType.XDP_GENERIC (dir @ library_file ''hebpf'' k)) cfg"
  shows "xdp_chain_ready 3 4 (ref_keys 3) 32 b id (map (\<lambda>n. (n, 1)) nms) 1 cfg demo_xdp_pm"
proof -
  let ?names = "map (\<lambda>n. (n, 1)) nms"
  have nms: "nms = [''ACL_XDP_GENERIC'', ''LB_XDP_GENERIC''] \<or> nms = [''LB_XDP_GENERIC'', ''ACL_XDP_GENERIC'']"
    using assms demo_xdp_names [of b] by auto
  have g: "group_by_nic ?names = [(1, nms)]"
    using nms by (auto simp: group_by_nic_def)
  have cfg: "\<forall>(dir, k) \<in> set cfg. is_dir dir \<and> packet_service k"
    using assms(1) by (auto simp: is_dir_def demo_dir_def packet_service_def)
  have "chain_ids_of b ''hebpf'' HookType.XDP_GENERIC demo_xdp_pm nms = map (sid HookType.XDP_GENERIC) (SchedulerXdp # map snd cfg)"
    using chain_ids_services [OF _ _ cfg, of HookType.XDP_GENERIC demo_xdp_pm b]
    by (simp add: assms(2) chain_hook_def demo_xdp_pm_def scheduler_of_def)
  then have ids: "chain_ids_of b ''hebpf'' HookType.XDP_GENERIC demo_xdp_pm nms = 5 # map (sid HookType.XDP_GENERIC) (map snd cfg)"
    by (simp add: sid_def)
  have sids: "map (sid HookType.XDP_GENERIC) (map snd cfg) = [3, 7] \<or> map (sid HookType.XDP_GENERIC) (map snd cfg) = [7, 3]"
    using assms(1) by (auto simp: sid_def)
  have sel: "initialized demo_xdp_pm" "prog_registry demo_xdp_pm = ebpf_id_map" "pm_kernel demo_xdp_pm = (\<lambda>_. [])"
    "map_of (hook_maps demo_xdp_pm) HookType.XDP_GENERIC =
      Some \<lparr>prog_array_fd = 4, id_hash_fd = 3, pin_path_prog_array = [], pin_path_id_to_index = []\<rparr>"
    "getStartIndex HookType.XDP_GENERIC 1 demo_xdp_pm = 0"
    by (simp_all add: demo_xdp_pm_def PinnedProgMap_new_def getStartIndex_def)
  have "chain_ready 3 (ref_keys 3) 32 b ''hebpf'' id HookType.XDP_GENERIC ?names demo_xdp_pm"
    using ids sids by (auto simp: chain_ready_def g nic_entries_def sel chain_ids_of_def ref_keys_def)
  with cfg sel g assms(2) show ?thesis
    by (simp add: xdp_chain_ready_def chain_sizes)
qed

lemma demo_services:
  "acl_ready (demo_skel 5) 5 10 [demo_rule DROP] demo_acl"
  "lb_ready demo_lb_skel 5 5 5 MAXSIZE_LB_HASH demo_addr4 demo_lbr demo_lb"
  "\<forall>k \<in> {SchedulerXdp, AclXdp, LbXdp}. 0 \<le> demo_fd k \<and> demo_behind lookup m (of_int (demo_fd k)) = xdp_prog_of lookup m k"
  "\<forall>i. map_option f (map_of (pm_kernel demo_xdp_pm 4) (ucast (i :: u32))) = None"
  by (auto simp: acl_ready_def lb_ready_def demo_acl_sel demo_lb_sel demo_entry MAX_RULES_SIZE_def demo_lbr_def demo_lb_valid
      demo_macs pool_of_def TOTAL_BACKENDS_def MAXSIZE_LB_HASH_def LB_MAX_RULES_SIZE_def demo_fd_def demo_behind_def demo_xdp_pm_def
      PinnedProgMap_new_def)

definition demo_filter :: "(int \<Rightarrow> (ipv4_tuple \<times> u32) list, unit) AclBase" where
  "demo_filter = snd (acl_onConfigUpdate Debug ref_json (demo_skel 5) (ref_ops 10) HookType.XDP_GENERIC 1
     (AclRules_to_json ref_json \<lparr>acl_rules = [demo_rule DROP]\<rparr>) demo_acl)"

definition demo_balancer :: "(lb_world, unit) LbBase" where
  "demo_balancer = snd (lb_onConfigUpdate Debug ref_json demo_lb_skel ref_lb demo_addr4 (Mac 1 2 3 4 5 6) HookType.XDP_GENERIC 1
     (LbRules_to_json ref_json demo_lbr) demo_lb)"

definition demo_prog_behind :: "u32 \<Rightarrow> (frame, xdp_act) bpf_prog" where
  "demo_prog_behind = demo_behind (m_lookup (ref_ops 10) (kernel demo_filter) 5) (lb_view ref_lb 5 5 5 (kernel demo_balancer))"

definition demo_xdp_after :: "string list \<Rightarrow> (u64, u32) ref_world PinnedProgMap" where
  "demo_xdp_after names = load_progs Debug ''hebpf'' (ref_ops 32) ref_parray HookType.XDP_GENERIC 1 demo_fd [LbXdp, SchedulerXdp, AclXdp]
     (snd (updateChain Debug ''hebpf'' (ref_ops 32) id HookType.XDP_GENERIC (map (\<lambda>n. (n, 1)) names) demo_xdp_pm))"

definition demo_xdp_view :: "string list \<Rightarrow> (frame, xdp_act) bpf_prog chain_view" where
  "demo_xdp_view names =
     \<lparr>cv_idhash = m_lookup (ref_ops 32) (pm_kernel (demo_xdp_after names)) 3,
      cv_parray = (\<lambda>i. map_option demo_prog_behind (map_of (pm_kernel (demo_xdp_after names) 4) (ucast i)))\<rparr>"

lemma demo_loads:
  "set [LbXdp, SchedulerXdp, AclXdp] = {SchedulerXdp, AclXdp, LbXdp}"
  "\<forall>k \<in> set [LbXdp, SchedulerXdp, AclXdp]. 0 \<le> demo_fd k \<and> demo_prog_behind (of_int (demo_fd k)) =
     xdp_prog_of (m_lookup (ref_ops 10) (kernel demo_filter) 5) (lb_view ref_lb 5 5 5 (kernel demo_balancer)) k"
  using demo_services(3) [of "m_lookup (ref_ops 10) (kernel demo_filter) 5" "lb_view ref_lb 5 5 5 (kernel demo_balancer)"]
  by (auto simp: demo_prog_behind_def)

lemma demo_xdp_ready:
  "xdp_chain_ready 3 4 (ref_keys 3) 32 Debug id (map (\<lambda>n. (n, 1)) [''ACL_XDP_GENERIC'', ''LB_XDP_GENERIC'']) 1
     [(demo_dir, AclXdp), (demo_dir, LbXdp)] demo_xdp_pm"
  "xdp_chain_ready 3 4 (ref_keys 3) 32 Debug id (map (\<lambda>n. (n, 1)) [''LB_XDP_GENERIC'', ''ACL_XDP_GENERIC'']) 1
     [(demo_dir, LbXdp), (demo_dir, AclXdp)] demo_xdp_pm"
  by (rule demo_xdp_chain; simp add: demo_xdp_names)+

lemma demo_backend: "wanted_backend demo_addr4 (lb_rules demo_lbr) demo_packet =
    Some (pool_entry \<lparr>be_mac = ''02:00:00:00:00:01''\<rparr>)"
proof -
  have "used_backends (demo_lb_rule ''02:00:00:00:00:02'') ! (unat (0x0100000A :: u32) mod 2) = \<lparr>be_mac = ''02:00:00:00:00:01''\<rparr>"
    by (simp add: demo_lb_valid)
  then show ?thesis
    by (simp add: wanted_backend_def demo_packet_flow lb_rule_for_def demo_lbr_def demo_lb_valid flip: numeral_2_eq_2)
qed



end
