(* ===== verification/Loader_Chain.thy ===== *)
theory Loader_Chain
  imports Loader Chain_Install
begin

text \<open>
  The chain of an interface as the daemon builds it, through the loader: the update of the chain and one
  \<^verbatim>\<open>loadService\<close> per library of \<^verbatim>\<open>src/services\<close>, from the library's path to the packet.
\<close>

section \<open>What a call keeps true\<close>

definition st_inv :: "('s \<Rightarrow> bool) \<Rightarrow> ('a, 's) st \<Rightarrow> bool" where
  "st_inv Q m \<longleftrightarrow> (\<forall>s. Q s \<longrightarrow> Q (snd (m s)))"

named_theorems invs \<open>calls that keep a predicate of the state\<close>

lemma st_invD: "st_inv Q m \<Longrightarrow> m s = (r, s') \<Longrightarrow> Q s \<Longrightarrow> Q s'"
  by (metis st_inv_def snd_conv)

lemma inv_basic [invs]:
  "st_inv Q (st_ret x)" "st_inv Q (st_throw e)" "st_inv Q (st_get g)" "st_inv Q (st_assert b P)"
  by (simp_all add: st_inv_def st_simps)

lemma inv_bind [invs]: "st_inv Q m \<Longrightarrow> (\<And>x. st_inv Q (f x)) \<Longrightarrow> st_inv Q (st_bind m f)"
  by (auto simp: st_inv_def st_bind_def split: prod.split sum.split)

lemma inv_if [invs]: "st_inv Q m \<Longrightarrow> st_inv Q m' \<Longrightarrow> st_inv Q (if b then m else m')"
  by simp

lemma inv_option [invs]:
  "st_inv Q m \<Longrightarrow> (\<And>x. st_inv Q (f x)) \<Longrightarrow> st_inv Q (case z of None \<Rightarrow> m | Some x \<Rightarrow> f x)"
  by (cases z) simp_all

lemma inv_ext [invs]:
  "(\<And>s. Q s \<Longrightarrow> Q (s\<lparr>ld_world := snd (g (ld_world s))\<rparr>)) \<Longrightarrow> st_inv Q (ext g)"
  "(\<And>s. Q s \<Longrightarrow> Q (s\<lparr>ld_world := snd (g' (ld_world s))\<rparr>)) \<Longrightarrow> st_inv Q (ext_res g')"
  "(\<And>s. Q s \<Longrightarrow> Q (s\<lparr>ld_world := g'' (ld_world s)\<rparr>)) \<Longrightarrow> st_inv Q (ext_mod g'')"
  by (simp_all add: st_inv_def ext_def ext_res_def ext_mod_def st_simps Let_def split_beta)

section \<open>The libraries behind the loader\<close>

text \<open>The loads of one interface, each a library with its configuration file; \<open>True\<close> if all of them succeed.\<close>

fun load_libs :: "('w, 'k, 'j) loader_env \<Rightarrow> HookType \<Rightarrow> int \<Rightarrow> (string \<times> string) list \<Rightarrow> ('w, 'k) Loader \<Rightarrow>
    bool \<times> ('w, 'k) Loader" where
  "load_libs E ht nic [] s = (True, s)"
| "load_libs E ht nic ((p, cf) # libs) s =
     (case loadService E p ht nic cf s of
        (Inl e, s') \<Rightarrow> (False, s')
      | (Inr False, s') \<Rightarrow> (False, s')
      | (Inr True, s') \<Rightarrow> load_libs E ht nic libs s')"

text \<open>
  What the loader meets behind \<^verbatim>\<open>dlopen\<close>: the handle of a library makes instances of its class, an instance
  that was started runs as long as nobody stops it, gives the name of its class, and has the main program
  \<open>pfd\<close>. Configuring any service and watching files does not end it.
\<close>

locale packet_libs =
  fixes D :: "('w, 'j) dl_ops" and cls :: "string \<Rightarrow> service" and lib_of :: "'w \<Rightarrow> nat \<Rightarrow> string"
    and made runs :: "'w \<Rightarrow> nat \<Rightarrow> service \<Rightarrow> bool" and pfd :: "service \<Rightarrow> int"
  assumes opened: "d_open D w p = (Some h, w') \<Longrightarrow> lib_of w' h = p"
    and created: "d_create D w h = (Some i, w') \<Longrightarrow> made w' i (cls (lib_of w h))"
    and started: "made w i k \<Longrightarrow> i_start D w i io = (Inr True, w') \<Longrightarrow> runs w' i k"
    and configured: "runs w i k \<Longrightarrow> runs (snd (i_config D w i' ht n j)) i k"
    and watched: "runs w i k \<Longrightarrow> runs (snd (d_watch D w c x)) i k"
    and unwatched: "runs w i k \<Longrightarrow> runs (d_goodbye D w c) i k"
    and named: "runs w i k \<Longrightarrow> i_name D w i = getName k"
    and main_prog: "runs w i k \<Longrightarrow> i_prog_fd D w i = pfd k"
begin

lemma open_runs:
  assumes "le_dl E = D" and "open_service E p s = (Inr (h, i), s')"
  shows "runs (ld_world s') i (cls p) \<and> chain_mgr s' = chain_mgr s \<and> services s' = services s"
proof -
  obtain w1 w2 w3 where "d_open D (ld_world s) p = (Some h, w1)" "d_create D w1 h = (Some i, w2)"
    "i_start D w2 i (ld_io_ctx s) = (Inr True, w3)" "s' = s\<lparr>ld_world := w3\<rparr>"
    using assms
    by (auto simp: open_service_def st_bind_Inr_iff ext_def ext_res_def st_cleanup_def st_simps
        split: option.splits if_splits prod.splits sum.splits)
  with opened created started show ?thesis by fastforce
qed

text \<open>The new service stays in the table and runs while its configuration file is taken.\<close>

definition loaded_as :: "string \<Rightarrow> nat \<Rightarrow> service \<Rightarrow> 'k PinnedProgMap option \<Rightarrow> ('w, 'k) Loader \<Rightarrow> bool" where
  "loaded_as p i k c s \<longleftrightarrow> chain_mgr s = c \<and> getService p s = Some i \<and> runs (ld_world s) i k"

lemma set_config_inv [invs]: "st_inv (loaded_as p i k c) (set_config q cf)"
  by (auto simp: st_inv_def loaded_as_def set_config_def getService_def al_simps split: option.splits)

lemma loaded_as_ext [invs]:
  assumes "le_dl E = D"
  shows "st_inv (loaded_as p i k c) (ext_res (\<lambda>w. i_config (le_dl E) w i' ht n j))"
    "st_inv (loaded_as p i k c) (ext (\<lambda>w. d_watch (le_dl E) w cf x))"
    "st_inv (loaded_as p i k c) (ext_mod (\<lambda>w. d_goodbye (le_dl E) w cf))"
  by (rule inv_ext; simp add: assms loaded_as_def getService_def configured watched unwatched)+

lemma unregister_inv: "le_dl E = D \<Longrightarrow> st_inv (loaded_as p i k c) (unregisterServiceConfig E q cf)"
  unfolding unregisterServiceConfig_def by (intro invs)

lemma load_configs_inv: "le_dl E = D \<Longrightarrow> st_inv (loaded_as p i k c) (loadServiceConfigs E q ht n cf)"
  unfolding loadServiceConfigs_def by (intro invs unregister_inv)

lemma register_inv: "le_dl E = D \<Longrightarrow> st_inv (loaded_as p i k c) (registerServiceConfig E q ht n cf)"
  unfolding registerServiceConfig_def by (intro invs load_configs_inv)

lemma insert_loads:
  assumes "le_dl E = D" and "loaded_as p i k (Some m) s"
    and "insert_into_chain E p (getName k) ht nic s = (Inr True, s')"
  shows "chain_mgr s' = Some (snd (load_prog (le_build E) (le_proj E) (le_idhash E) (le_parray E) ht nic pfd k m))"
  using assms main_prog
  by (auto simp: insert_into_chain_def loaded_as_def load_prog_def Let_def split: sum.splits if_splits prod.splits)

text \<open>A load that succeeds puts the main program of the library's service into the chain.\<close>

lemma load_service_chain:
  assumes "le_dl E = D" and "chain_mgr s = Some m" and "loadService E p ht nic cf s = (Inr True, s')"
  shows "chain_mgr s' = Some (snd (load_prog (le_build E) (le_proj E) (le_idhash E) (le_parray E) ht nic pfd (cls (real_path p)) m))"
proof -
  let ?k = "cls (real_path p)"
  define takes where "takes i = (if real_path p = SCHEDULER_XDP_LIB \<or> real_path p = SCHEDULER_TC_LIB
      then ext_res (\<lambda>w. i_config (le_dl E) w i ht nic (le_null E))
      else registerServiceConfig E (real_path p) ht nic cf)" for i
  have takes_inv: "st_inv (loaded_as p i k c) (takes i')" for i k c i'
    unfolding takes_def by (intro invs register_inv assms(1))
  obtain h i s1 s2 where opens: "open_service E (real_path p) s = (Inr (h, i), s1)"
    and config: "takes i (s1\<lparr>services := al_upd p \<lparr>sh_handle = Some h, sh_instance = Some i,
        sh_name = i_name D (ld_world s1) i, sh_path = p, sh_config = [], sh_hook = ht, sh_ifindex = nic\<rparr> (services s1)\<rparr>) =
      (Inr (), s2)"
    and inserts: "insert_into_chain E p (i_name D (ld_world s1) i) ht nic s2 = (Inr True, s')"
    using assms(3) unfolding loadService_def takes_def [symmetric]
    by (auto simp: st_bind_Inr_iff st_ret_def st_get_def st_mod_def st_assert_def assms(1) split: if_splits)
  note new = open_runs [OF assms(1) opens]
  have "loaded_as p i ?k (Some m) s2"
    by (rule st_invD [OF takes_inv config]) (use new assms(2) in \<open>simp add: loaded_as_def getService_def al_simps\<close>)
  moreover have "i_name D (ld_world s1) i = getName ?k" using new named by blast
  ultimately show ?thesis using insert_loads [OF assms(1)] inserts by simp
qed

text \<open>One library after the other.\<close>

lemma load_libs_chain:
  assumes "le_dl E = D" and "chain_mgr s = Some m" and "load_libs E ht nic libs s = (True, s')"
  shows "chain_mgr s' = Some (load_progs (le_build E) (le_proj E) (le_idhash E) (le_parray E) ht nic pfd
    (map (\<lambda>(p, cf). cls (real_path p)) libs) m)"
  using assms(2,3)
proof (induction libs arbitrary: s m)
  case Nil
  then show ?case by (simp add: load_progs_def)
next
  case (Cons lib libs)
  obtain p cf where lib: "lib = (p, cf)" by fastforce
  with Cons.prems(2) obtain s1 where "loadService E p ht nic cf s = (Inr True, s1)" "load_libs E ht nic libs s1 = (True, s')"
    by (auto split: prod.splits sum.splits bool.splits)
  with Cons.IH [OF load_service_chain [OF assms(1) Cons.prems(1)]] show ?case
    by (simp add: lib load_progs_def)
qed

end

section \<open>From the loads to the packet\<close>

definition scheduler_lib :: "HookType \<Rightarrow> string" where
  "scheduler_lib ht = (if ht = TC then SCHEDULER_TC_LIB else SCHEDULER_XDP_LIB)"

definition service_lib :: "string \<times> service \<Rightarrow> string" where
  "service_lib dk = fst dk @ library_file ''hebpf'' (snd dk)"

lemma scheduler_lib_file: "scheduler_lib ht = service_lib (''build/src/services/scheduler/'', scheduler_of ht)"
  by (simp add: scheduler_lib_def service_lib_def SCHEDULER_TC_LIB_def SCHEDULER_XDP_LIB_def library_file_def scheduler_of_def)

text \<open>The libraries on disk are the ones the build makes: each exports the factory of its own source.\<close>

definition built_libs :: "(string \<Rightarrow> service) \<Rightarrow> bool" where
  "built_libs cls \<longleftrightarrow> (\<forall>dir k. is_dir dir \<and> packet_service k \<longrightarrow> cls (service_lib (dir, k)) = k)"

lemma built_classes:
  assumes "built_libs cls" and "\<forall>(dir, k) \<in> set cfg. is_dir dir \<and> packet_service k"
    and "(\<lambda>(p, cf). real_path p) ` set libs = insert (scheduler_lib ht) (service_lib ` set cfg)"
  shows "set (map (\<lambda>(p, cf). cls (real_path p)) libs) = set (scheduler_of ht # map snd cfg)"
proof -
  have "(\<lambda>(p, cf). cls (real_path p)) ` set libs = cls ` insert (scheduler_lib ht) (service_lib ` set cfg)"
    unfolding assms(3) [symmetric] image_image by (rule image_cong) auto
  moreover have "cls (scheduler_lib ht) = scheduler_of ht"
    using assms(1) by (simp add: scheduler_lib_file built_libs_def is_dir_def packet_service_def scheduler_of_def)
  moreover have "cls ` service_lib ` set cfg = snd ` set cfg"
    using assms(1,2) unfolding image_image by (intro image_cong) (auto simp: built_libs_def)
  ultimately show ?thesis by simp
qed


section \<open>A reference of the libraries\<close>

text \<open>
  Handles and instances are numbered in one row; a library exports the service whose file it is, and nothing
  but the files of \<^verbatim>\<open>src/services\<close> can be opened.
\<close>

record libs_world =
  lw_next :: nat
  lw_handles :: "(nat \<times> string) list"
  lw_instances :: "(nat \<times> service) list"

definition service_of :: "string \<Rightarrow> service option" where
  "service_of path = find (\<lambda>k. path_filename path = library_file ''hebpf'' k) [Acl, AclXdp, LbXdp, Scheduler, SchedulerXdp]"

definition ref_libs :: "(service \<Rightarrow> int) \<Rightarrow> (libs_world, unit) dl_ops" where
  "ref_libs pfd =
     \<lparr>d_open = (\<lambda>w p. if service_of p = None then (None, w)
        else (Some (lw_next w), w\<lparr>lw_next := Suc (lw_next w), lw_handles := (lw_next w, p) # lw_handles w\<rparr>)),
      d_sym = (\<lambda>w h. True),
      d_create = (\<lambda>w h. case map_of (lw_handles w) h of None \<Rightarrow> (None, w)
        | Some p \<Rightarrow> (Some (lw_next w),
            w\<lparr>lw_next := Suc (lw_next w), lw_instances := (lw_next w, the (service_of p)) # lw_instances w\<rparr>)),
      d_close = (\<lambda>w h. w\<lparr>lw_handles := al_del h (lw_handles w)\<rparr>),
      i_start = (\<lambda>w i io. (Inr True, w)), i_stop = (\<lambda>w i. (Inr (), w)),
      i_destroy = (\<lambda>w i. w\<lparr>lw_instances := al_del i (lw_instances w)\<rparr>),
      i_name = (\<lambda>w i. getName (the (map_of (lw_instances w) i))),
      i_prog_fd = (\<lambda>w i. pfd (the (map_of (lw_instances w) i))),
      i_config = (\<lambda>w i h n j. (Inr (), w)), i_status = (\<lambda>w i. ()),
      d_read_json = (\<lambda>w p. ()), d_watch = (\<lambda>w p c. (True, w)), d_goodbye = (\<lambda>w p. w)\<rparr>"

definition ref_runs :: "libs_world \<Rightarrow> nat \<Rightarrow> service \<Rightarrow> bool" where
  "ref_runs w i k \<longleftrightarrow> map_of (lw_instances w) i = Some k"

interpretation reflibs: packet_libs "ref_libs pfd" "\<lambda>p. the (service_of p)" "\<lambda>w h. the (map_of (lw_handles w) h)"
  ref_runs ref_runs pfd for pfd
  by unfold_locales (auto simp: ref_libs_def ref_runs_def split: if_splits option.splits)

lemma library_file_eq: "library_file proj j = library_file proj k \<longleftrightarrow> j = k"
  by (cases j; cases k) (simp_all add: library_file_def)

lemma ref_built: "built_libs (\<lambda>p. the (service_of p))"
proof -
  have "path_filename (service_lib (dir, k)) = library_file ''hebpf'' k" if "is_dir dir" for dir k
    unfolding service_lib_def fst_conv snd_conv using that
    by (intro path_filename_dir) (cases k; simp add: library_file_def)+
  then have "the (service_of (service_lib (dir, k))) = k" if "is_dir dir" "packet_service k" for dir k
    using that by (cases k) (simp_all add: service_of_def library_file_eq packet_service_def)
  then show ?thesis by (simp add: built_libs_def)
qed

definition demo_chain_fd :: "service \<Rightarrow> int" where
  "demo_chain_fd k = (if k = Scheduler then 10 else 11)"

definition demo_chain_env :: "(libs_world, (u64, u32) ref_world, unit) loader_env" where
  "demo_chain_env =
     \<lparr>le_build = Debug, le_proj = ''hebpf'', le_dl = ref_libs demo_chain_fd, le_null = (),
      le_idhash = ref_ops 32, le_parray = ref_parray, le_it = id\<rparr>"

definition demo_chain_loader :: "(libs_world, (u64, u32) ref_world) Loader" where
  "demo_chain_loader =
     \<lparr>ld_world = \<lparr>lw_next = 1, lw_handles = [], lw_instances = []\<rparr>, services = [], ld_io_ctx = None,
      inotify_mgr = True, chain_mgr = Some demo_chain_pm\<rparr>"

definition demo_libs :: "(string \<times> string) list" where
  "demo_libs = [(''build/src/services/acl/libhebpf_acl.so'', ''acl.json''),
                (''build/src/services/scheduler/libhebpf_scheduler.so;tc_1'', [])]"

definition demo_loads :: "bool \<times> (libs_world, (u64, u32) ref_world) Loader" where
  "demo_loads = load_libs demo_chain_env TC 1 demo_libs (snd (updateProgChain demo_chain_env TC [(''ACL_TC'', 1)] demo_chain_loader))"

lemma demo_loads_succeed: "fst demo_loads"
  by code_simp


end
