(* ===== verification/Packet_Log.thy ===== *)
theory Packet_Log
  imports Enums Klog Acl_Datapath Lb_Datapath
begin

text \<open>
  What the packet programs log: the calls of the macro \<^verbatim>\<open>KLOG\<close> in \<^verbatim>\<open>acl.bpf.c\<close>, \<^verbatim>\<open>acl_xdp.bpf.c\<close> and \<^verbatim>\<open>lb_xdp.bpf.c\<close>,
  and the line the user side makes of each. A call is its level, its format and its arguments; a program
  logs at most once per packet, just before its verdict.
\<close>

section \<open>The calls\<close>

type_synonym klog_call = "u16 \<times> string \<times> u64 list"

text \<open>The levels of \<^verbatim>\<open>klog.bpf.h\<close> are written down beside \<^verbatim>\<open>log::Level\<close> and must agree with it.\<close>

definition klog_levels :: "(Level \<times> nat) list" where
  "klog_levels = [(trace, 0), (debug, 1), (info, 2), (warn, 3), (error, 4), (critical, 5), (off, 6)]"

definition KLOG_LEVEL_DEBUG :: u16 where "KLOG_LEVEL_DEBUG = 1"

lemma klog_levels_agree:
  "l \<noteq> MAXSIZE \<Longrightarrow> map_of klog_levels l = Some (level_num l) \<and> klog_level_name (of_nat (level_num l)) = enumName Level_enum l"
  by (cases l) (simp_all add: klog_levels_def klog_level_name_def enumName_def Level_enum_def)

definition acl_klog :: "(ipv4_tuple \<Rightarrow> u32 option) \<Rightarrow> ipv4_tuple \<Rightarrow> u16 \<Rightarrow> klog_call" where
  "acl_klog lookup tup origin_src_port =
     (if acl_action lookup tup origin_src_port = Some ACL_ACTION_DENY
      then (KLOG_LEVEL_DEBUG, ''Hebpf packet drop [%P] %A:%u'',
            [ucast (tup_protocol tup), ucast (tup_saddr tup), ucast (htons origin_src_port)])
      else (KLOG_LEVEL_DEBUG, ''Hebpf packet [%P]: %A:%u -> %A:%u'',
            [ucast (tup_protocol tup), ucast (tup_saddr tup), ucast (htons origin_src_port),
             ucast (tup_daddr tup), ucast (htons (tup_dport tup))]))"

text \<open>The two filters log alike; \<open>Some None\<close> is a packet about which nothing is logged.\<close>

definition acl_tc_log :: "(ipv4_tuple \<Rightarrow> u32 option) \<Rightarrow> u16 \<Rightarrow> frame \<Rightarrow> klog_call option option" where
  "acl_tc_log lookup skb_protocol p =
     (if skb_protocol \<noteq> htons ETH_P_IP then Some None
      else if ETH_HLEN > length p then Some None
      else if ETH_HLEN + IP_HLEN > length p then Some None
      else
        Option.bind (ip_saddr p) (\<lambda>saddr.
        Option.bind (ip_daddr p) (\<lambda>daddr.
        Option.bind (ip_protocol p) (\<lambda>proto.
        Option.bind (ip_ihl p) (\<lambda>ihl.
        Option.bind (acl_ports p proto (ETH_HLEN + ihl * 4)) (\<lambda>ports.
          case ports of
            None \<Rightarrow> Some None
          | Some (src, dst) \<Rightarrow>
              Some (Some (acl_klog lookup
                \<lparr>tup_saddr = saddr, tup_daddr = daddr, tup_sport = ANY_PORT,
                 tup_dport = dst, tup_protocol = proto, tup_padding = 0\<rparr> src))))))))"

definition acl_xdp_log :: "(ipv4_tuple \<Rightarrow> u32 option) \<Rightarrow> frame \<Rightarrow> klog_call option option" where
  "acl_xdp_log lookup p =
     (if ETH_HLEN > length p then Some None
      else Option.bind (h_proto p) (\<lambda>eth_proto. acl_tc_log lookup eth_proto p))"

text \<open>The balancer logs the service and the backend's address, as it is in the map.\<close>

definition lb_klog :: "u32 \<Rightarrow> u16 \<Rightarrow> mac_addr \<Rightarrow> klog_call" where
  "lb_klog daddr dport mac =
     (KLOG_LEVEL_DEBUG, ''LB DSR: VIP %A:%u -> backend MAC %x:%x:%x:%x:%x:%x'',
      [ucast daddr, ucast (htons dport)] @ map ucast (mac_list mac))"

definition lb_xdp_log :: "lb_maps \<Rightarrow> frame \<Rightarrow> klog_call option" where
  "lb_xdp_log m p =
     (case lb_flow p of
        None \<Rightarrow> None
      | Some (sa, da, dp) \<Rightarrow> map_option (\<lambda>be. lb_klog da dp (bi_mac be)) (lb_backend m p))"

section \<open>What they come to\<close>

lemma acl_tc_log_eq:
  "acl_tc_log lookup (htons ETH_P_IP) p = Some (map_option (\<lambda>(tup, src). acl_klog lookup tup src) (acl_classify p))"
proof (cases "ETH_HLEN + IP_HLEN \<le> length p")
  case False
  then show ?thesis by (simp add: acl_tc_log_def classify_short)
next
  case True
  then obtain sa da proto ihl where f: "ip_saddr p = Some sa" "ip_daddr p = Some da"
    "ip_protocol p = Some proto" "ip_ihl p = Some ihl"
    by (auto elim: ip_header_read)
  obtain r where r: "acl_ports p proto (ETH_HLEN + ihl * 4) = Some r"
    using acl_ports_total by fastforce
  show ?thesis
    using True classify_ports [OF True f] by (cases r) (auto simp: acl_tc_log_def f r)
qed

text \<open>A token is at most twenty characters long, so a short format fits into the buffer.\<close>

lemma tokens_length: "klog_tokens args fmt i = Some ts \<Longrightarrow> length (concat ts) \<le> 20 * length fmt"
proof (induction "length fmt" arbitrary: fmt i ts rule: less_induct)
  case less
  show ?case
  proof (cases fmt)
    case (Cons c fmt1)
    have rest: "length (concat ts') \<le> 20 * length fmt'"
      if "klog_tokens args fmt' i' = Some ts'" "length fmt' \<le> length fmt1" for fmt' i' ts'
      using less.hyps [OF _ that(1)] that(2) Cons by simp
    from less.prems [unfolded Cons] show ?thesis
    proof (cases rule: klog_tokens_cases)
      case (arg spec fmt' ts')
      with rest [OF arg(7)] spec_text_len(2) [of spec "args ! i"] show ?thesis by (simp add: Cons)
    qed (use rest Cons in \<open>auto dest!: rest\<close>)
  qed (use less.prems in simp)
qed

definition endpoint :: "u32 \<Rightarrow> u16 \<Rightarrow> string" where
  "endpoint a p = inet_ntoa a @ '':'' @ dec_text (unat (htons p))"

lemma spec_texts:
  "spec_text (CHR ''A'') (ucast (a :: u32)) = inet_ntoa a"
  "spec_text (CHR ''u'') (ucast (n :: u16)) = dec_text (unat n)"
  using unsigned_less [of n, where ?'a = nat]
  by (simp_all add: spec_text_def unsigned_ucast_eq take_bit_nat_eq_self take_bit_word_eq_self)

section \<open>The lines\<close>

text \<open>What the user side prints of a call, if the sample got its memory.\<close>

definition printed :: "(nat \<Rightarrow> log_event option) \<Rightarrow> u32 \<Rightarrow> klog_call \<Rightarrow> string \<Rightarrow> bool" where
  "printed reserve threshold call line \<longleftrightarrow>
     (case call of (level, fmt, vs) \<Rightarrow>
        (case KLOG reserve level fmt vs of
           None \<Rightarrow> True
         | Some (event, len) \<Rightarrow>
             logEvent threshold event len =
               Inr (0, if ucast level < threshold then None else Some (klog_level_name level, line))))"

lemma call_printed:
  assumes "\<forall>n m. reserve n = Some m \<longrightarrow> length (le_args m) = MAX_ARGS_CNT"
    and "NUL \<notin> set fmt" "length fmt \<le> 51" "length vs \<le> MAX_ARGS_CNT"
    and "klog_tokens (vs @ replicate (MAX_ARGS_CNT - length vs) 0) fmt 0 = Some ts" and "concat ts = line"
  shows "printed reserve threshold (level, fmt, vs) line"
proof (cases "KLOG reserve level fmt vs")
  case (Some sent)
  obtain event len where sent: "sent = (event, len)" by fastforce
  have "length (concat ts) < BUF_SIZE"
    using tokens_length [OF assms(5)] assms(3) by (simp add: BUF_SIZE_def)
  with klog_delivers_lemma [OF assms(1) Some [unfolded sent] assms(2) _ assms(4,5)] assms(3,6) show ?thesis
    by (simp add: printed_def Some sent)
qed (simp add: printed_def)

definition protocol_text :: "u8 \<Rightarrow> string" where
  "protocol_text pr = (if pr = IPPROTO_TCP then ''TCP'' else ''UDP'')"

lemma spec_protocol: "pr = IPPROTO_TCP \<or> pr = IPPROTO_UDP \<Longrightarrow> spec_text (CHR ''P'') (ucast pr) = protocol_text pr"
  by (auto simp: spec_text_def protocol_text_def IPPROTO_TCP_def IPPROTO_UDP_def)

lemma classified_protocol: "acl_classify p = Some (tup, src) \<Longrightarrow> tup_protocol tup = IPPROTO_TCP \<or> tup_protocol tup = IPPROTO_UDP"
  by (auto simp: acl_classify_def Let_def split: if_splits)

definition acl_line :: "bool \<Rightarrow> ipv4_tuple \<Rightarrow> u16 \<Rightarrow> string" where
  "acl_line dropped tup src =
     (if dropped then ''Hebpf packet drop ['' @ protocol_text (tup_protocol tup) @ ''] '' @ endpoint (tup_saddr tup) src
      else ''Hebpf packet ['' @ protocol_text (tup_protocol tup) @ '']: '' @ endpoint (tup_saddr tup) src @ '' -> '' @
        endpoint (tup_daddr tup) (tup_dport tup))"

lemma acl_call_printed:
  assumes "\<forall>n m. reserve n = Some m \<longrightarrow> length (le_args m) = MAX_ARGS_CNT"
    and "tup_protocol tup = IPPROTO_TCP \<or> tup_protocol tup = IPPROTO_UDP"
  shows "printed reserve threshold (acl_klog lookup tup src) (acl_line (acl_action lookup tup src = Some ACL_ACTION_DENY) tup src)"
proof (cases "acl_action lookup tup src = Some ACL_ACTION_DENY")
  case True
  have "printed reserve threshold (KLOG_LEVEL_DEBUG, ''Hebpf packet drop [%P] %A:%u'',
      [ucast (tup_protocol tup), ucast (tup_saddr tup), ucast (htons src)]) (acl_line True tup src)"
    by (rule call_printed [OF assms(1)])
      (simp_all add: MAX_ARGS_CNT_def is_spec_def spec_texts spec_protocol [OF assms(2)] acl_line_def endpoint_def)+
  with True show ?thesis by (simp add: acl_klog_def)
next
  case False
  have "printed reserve threshold (KLOG_LEVEL_DEBUG, ''Hebpf packet [%P]: %A:%u -> %A:%u'',
      [ucast (tup_protocol tup), ucast (tup_saddr tup), ucast (htons src), ucast (tup_daddr tup), ucast (htons (tup_dport tup))])
      (acl_line False tup src)"
    by (rule call_printed [OF assms(1)])
      (simp_all add: MAX_ARGS_CNT_def is_spec_def spec_texts spec_protocol [OF assms(2)] acl_line_def endpoint_def)+
  with False show ?thesis by (simp add: acl_klog_def)
qed

lemma lb_call_printed:
  assumes "\<forall>n m. reserve n = Some m \<longrightarrow> length (le_args m) = MAX_ARGS_CNT"
  shows "printed reserve threshold (lb_klog da dp (Mac a b c d e f))
    (''LB DSR: VIP '' @ endpoint da dp @ '' -> backend MAC '' @
     concat (map (\<lambda>x. hex_text ''0123456789abcdef'' (ucast x) @ '':'') [a, b, c, d, e]) @ hex_text ''0123456789abcdef'' (ucast f))"
proof -
  have "spec_text (CHR ''x'') v = hex_text ''0123456789abcdef'' v" for v
    by (simp add: spec_text_def)
  then show ?thesis
    unfolding lb_klog_def
    by (intro call_printed [OF assms]) (simp_all add: MAX_ARGS_CNT_def is_spec_def spec_texts endpoint_def)+
qed

text \<open>
  Claim C14. The log tells what the filter did. A packet that the TC filter classifies is logged with one line, by which the
  user side, at level debug or below, says whether it was dropped, its protocol and its two ends; a packet
  it does not classify is not logged. When the sample gets no memory, nothing is printed.
\<close>

theorem verdict_is_logged:
  assumes "\<forall>n m. reserve n = Some m \<longrightarrow> length (le_args m) = MAX_ARGS_CNT"
    and "hebpf_acl_tc_ingress lookup (htons ETH_P_IP) p = Some verdict"
  shows "case acl_classify p of
      None \<Rightarrow> acl_tc_log lookup (htons ETH_P_IP) p = Some None
    | Some (tup, src) \<Rightarrow>
        (\<exists>call. acl_tc_log lookup (htons ETH_P_IP) p = Some (Some call) \<and>
          printed reserve threshold call (acl_line (verdict = Return TC_ACT_SHOT) tup src))"
proof (cases "acl_classify p")
  case None
  then show ?thesis by (simp add: acl_tc_log_eq)
next
  case (Some c)
  obtain tup src where c: "c = (tup, src)" by fastforce
  have "verdict = Return TC_ACT_SHOT \<longleftrightarrow> acl_action lookup tup src = Some ACL_ACTION_DENY"
    using assms(2) Some c by (auto simp: tc_refines acl_denies_def split: if_splits)
  with acl_call_printed [OF assms(1) classified_protocol [OF Some [unfolded c]], of threshold lookup src] Some c show ?thesis
    by (simp add: acl_tc_log_eq)
qed

theorem verdict_is_logged_witness:
  "\<exists>call. acl_tc_log (\<lambda>t. Some ACL_ACTION_DENY) (htons ETH_P_IP) (demo_frame IPPROTO_TCP 16) = Some (Some call) \<and>
     printed junk_reserve 0 call ''Hebpf packet drop [TCP] 10.0.0.1:1234''"
proof -
  let ?p = "demo_frame IPPROTO_TCP 16"
  let ?tup = "\<lparr>tup_saddr = 0x0100000A, tup_daddr = 0x0200000A, tup_sport = ANY_PORT, tup_dport = 0x5000,
    tup_protocol = IPPROTO_TCP, tup_padding = 0\<rparr>"
  have reserve: "\<forall>n m. junk_reserve n = Some m \<longrightarrow> length (le_args m) = MAX_ARGS_CNT"
    by (auto simp: junk_reserve_def MAX_ARGS_CNT_def)
  have tup: "acl_classify ?p = Some (?tup, 0xD204)"
    by (simp add: acl_classify_def demo_fields demo_consts header_sizes Let_def)
  then have verdict: "hebpf_acl_tc_ingress (\<lambda>t. Some ACL_ACTION_DENY) (htons ETH_P_IP) ?p = Some (Return TC_ACT_SHOT)"
    by (simp add: tc_refines acl_denies_def acl_action_def)
  have line: "acl_line True ?tup 0xD204 = ''Hebpf packet drop [TCP] 10.0.0.1:1234''" by code_simp
  from verdict_is_logged [OF reserve verdict, of 0] show ?thesis by (simp add: tup line)
qed

end
