(* ===== verification/Metrics_Path.thy ===== *)
theory Metrics_Path
  imports Daemon Examples
begin

text \<open>
  The way of a metric from a service to Prometheus: the daemon's producer thread, the queue, and the
  subscriber's consumer thread, as one step relation over the operations of Daemon, Status\_Queue and
  Monitor, while Prometheus is switched on.
\<close>

section \<open>Producer, queue and consumer\<close>

text \<open>
  \<open>consuming\<close>: the consumer thread is in its loop. \<open>accepted\<close> and \<open>taken\<close> record the statuses that went into
  the queue and those the consumer took out.
\<close>

record ('w, 'j) pipeline =
  pl_queue :: "'j Queue"
  pl_monitor :: "'w Monitor"
  consuming :: bool
  accepted :: "'j list"
  taken :: "'j list"

definition pipeline_new :: "nat \<Rightarrow> 'w Monitor \<Rightarrow> ('w, 'j) pipeline" where
  "pipeline_new capacity m =
     \<lparr>pl_queue = Queue_new capacity, pl_monitor = m, consuming = True, accepted = [], taken = []\<rparr>"

text \<open>
  The producer asks a service of the moment for its status, whatever the loader's state \<open>l\<close> and the entry
  \<open>pair\<close> then are. The consumer takes a status to its end, or stops in the middle of it when an exception
  leaves the loop, which \<^verbatim>\<open>consumeLoop\<close> catches outside of it.
\<close>

inductive pipe_step :: "('l, 'j) loader_if \<Rightarrow> ('j \<Rightarrow> bool) \<Rightarrow> 'j json_ops \<Rightarrow> ('j, 'd) num_ops \<Rightarrow> ('w, 'd) prom_ops \<Rightarrow>
    'd KernelData \<Rightarrow> ('w, 'j) pipeline \<Rightarrow> ('w, 'j) pipeline \<Rightarrow> bool"
  for L no_status J N P kd0 where
  produce: "produce_one L no_status l (Some (pl_queue s)) pair = Some (Some q) \<Longrightarrow>
    pipe_step L no_status J N P kd0 s
      (s\<lparr>pl_queue := q, accepted := accepted s @ drop (length (q_items (pl_queue s))) (q_items q)\<rparr>)"
| consume: "consuming s \<Longrightarrow> queue_pop (pl_queue s) = Some (Some status, q) \<Longrightarrow>
    consume_status J N P kd0 status (Some (pl_monitor s)) = (r, Some m) \<Longrightarrow>
    pipe_step L no_status J N P kd0 s
      (s\<lparr>pl_queue := q, pl_monitor := m, consuming := is_ok r, taken := taken s @ [status]\<rparr>)"

inductive_cases pipe_stepE: "pipe_step L no_status J N P kd0 s s'"

text \<open>A status all of whose metrics convert and have clean names and labels, and what such statuses add up to.\<close>

definition clean_status :: "'j json_ops \<Rightarrow> ('j, 'd) num_ops \<Rightarrow> 'd KernelData \<Rightarrow> 'j \<Rightarrow> bool" where
  "clean_status J N kd0 status =
     (case status_events J N kd0 status of
        Inl e \<Rightarrow> False | Inr es \<Rightarrow> list_all (\<lambda>(n, l, v). clean_metric n l) es)"

definition statuses_total :: "'j json_ops \<Rightarrow> ('j, 'd) num_ops \<Rightarrow> ('w, 'd) prom_ops \<Rightarrow> 'd KernelData \<Rightarrow> 'j list \<Rightarrow>
    string \<Rightarrow> (string \<times> string) list \<Rightarrow> nat" where
  "statuses_total J N P kd0 sts n l =
     sum_list (map (\<lambda>st. case status_events J N kd0 st of Inl e \<Rightarrow> 0 | Inr es \<Rightarrow> metric_total P es n l) sts)"

lemma produced:
  assumes "produce_one L no_status l (Some q) pair = Some (Some q')" and "length (q_items q) \<le> q_capacity q"
  shows "q_capacity q' = q_capacity q" "q_stopped q' = q_stopped q" "length (q_items q') \<le> q_capacity q"
    "q_items q' = q_items q @ drop (length (q_items q)) (q_items q')" "queue_full q \<Longrightarrow> q' = q"
  using assms by (auto simp: produce_one_def queue_defs split: option.splits if_splits)

lemma popped_status:
  assumes "queue_pop q = Some (Some status, q')"
  shows "q_items q = status # q_items q'" "q_capacity q' = q_capacity q" "\<not> q_stopped q"
  using assms by (auto simp: queue_pop_def queue_tryPop_def split: if_splits list.splits)

section \<open>While the consumer runs\<close>

text \<open>Nothing is lost between the two threads, and the counters show what was taken.\<close>

definition pipe_inv :: "nat \<Rightarrow> ('w, 'j) pipeline \<Rightarrow> bool" where
  "pipe_inv capacity s \<longleftrightarrow> q_capacity (pl_queue s) = capacity \<and> length (q_items (pl_queue s)) \<le> capacity \<and>
     accepted s = taken s @ q_items (pl_queue s)"

lemma pipe_inv_step: "pipe_step L no_status J N P kd0 s s' \<Longrightarrow> pipe_inv c s \<Longrightarrow> pipe_inv c s'"
  by (erule pipe_stepE) (auto simp: pipe_inv_def popped_status dest: produced)

lemma pipe_inv_reach:
  "(pipe_step L no_status J N P kd0)\<^sup>*\<^sup>* (pipeline_new c m) s \<Longrightarrow> pipe_inv c s"
proof (induction rule: rtranclp_induct)
  case base
  then show ?case by (simp add: pipe_inv_def pipeline_new_def Queue_new_def)
next
  case (step s s')
  then show ?case by (metis pipe_inv_step)
qed

definition counts :: "('w, 'd) prom_ops \<Rightarrow> ('w \<Rightarrow> string \<times> (string \<times> string) list \<Rightarrow> nat option) \<Rightarrow> ('w \<Rightarrow> nat \<Rightarrow> nat) \<Rightarrow>
    'j json_ops \<Rightarrow> ('j, 'd) num_ops \<Rightarrow> 'd KernelData \<Rightarrow> 'w Monitor \<Rightarrow> ('w, 'j) pipeline \<Rightarrow> bool" where
  "counts P reg val J N kd0 m0 s \<longleftrightarrow> mon_ok reg (pl_monitor s) \<and>
     (\<forall>n l. clean_metric n l \<longrightarrow>
        value_of reg val (pl_monitor s) n l = value_of reg val m0 n l + statuses_total J N P kd0 (taken s) n l)"

context prom_registry
begin

lemma status_taken:
  assumes "mon_ok reg m" and "clean_status J N kd0 status"
    and "consume_status J N P kd0 status (Some m) = (Inr (), Some m')"
  shows "mon_ok reg m'" and "clean_metric n l \<Longrightarrow>
    value_of reg val m' n l = value_of reg val m n l + statuses_total J N P kd0 [status] n l"
proof -
  obtain es where es: "status_events J N kd0 status = Inr es" "\<forall>(n, l, v) \<in> set es. clean_metric n l"
    using assms(2) by (auto simp: clean_status_def list_all_iff split: sum.splits)
  have run: "increments P es m = (Inr (), m')"
    using assms(3) by (simp add: consume_status_increments [OF es(1)] prod_eq_iff)
  show "clean_metric n l \<Longrightarrow>
    value_of reg val m' n l = value_of reg val m n l + statuses_total J N P kd0 [status] n l"
    using increments_total [OF assms(1) es(2) run] by (simp add: statuses_total_def es(1))
  show "mon_ok reg m'" by (rule increments_ok [OF assms(1) es(2) run])
qed

lemma counts_step:
  assumes "pipe_step L no_status J N P kd0 s s'" and "consuming s'" and "list_all (clean_status J N kd0) (taken s')"
  shows "consuming s \<and> list_all (clean_status J N kd0) (taken s) \<and> (counts P reg val J N kd0 m0 s \<longrightarrow> counts P reg val J N kd0 m0 s')"
  using assms(1)
proof (cases rule: pipe_step.cases)
  case (consume status q r m)
  then have "consume_status J N P kd0 status (Some (pl_monitor s)) = (Inr (), Some m)"
    using assms(2) by (cases r) auto
  with consume assms(3) status_taken [OF _ _ this] show ?thesis
    by (auto simp: counts_def statuses_total_def)
next
  case produce
  with assms(2,3) show ?thesis by (simp add: counts_def)
qed

lemma counts_reach:
  assumes "(pipe_step L no_status J N P kd0)\<^sup>*\<^sup>* (pipeline_new c m0) s" and "mon_ok reg m0"
  shows "consuming s \<Longrightarrow> list_all (clean_status J N kd0) (taken s) \<Longrightarrow> counts P reg val J N kd0 m0 s"
  using assms(1)
proof (induction rule: rtranclp_induct)
  case base
  then show ?case using assms(2) by (simp add: counts_def pipeline_new_def statuses_total_def)
next
  case (step s s')
  then show ?case using counts_step [OF step.hyps(2)] by blast
qed

end

section \<open>After a status that does not convert\<close>

lemma unconverted_elem_throws:
  "\<not> is_ok (event_of J N kd0 elem) \<Longrightarrow> consume_elem J N P kd0 elem (Some m) \<noteq> (Inr (), t)"
  by (cases "KernelData_from_json J N elem kd0") (auto simp: event_of_def consume_elem_def)

lemma consumed_elem: "consume_elem J N P kd0 elem (Some m) = (Inr (), t) \<Longrightarrow> \<exists>m'. t = Some m'"
  by (auto simp: consume_elem_def split: sum.splits prod.splits)

lemma consumed_elems_convert:
  "st_each (consume_elem J N P kd0) elems (Some m) = (Inr (), t) \<Longrightarrow> is_ok (res_map (event_of J N kd0) elems)"
proof (induction elems arbitrary: m)
  case (Cons elem elems)
  then obtain m' where one: "consume_elem J N P kd0 elem (Some m) = (Inr (), Some m')"
    and rest: "st_each (consume_elem J N P kd0) elems (Some m') = (Inr (), t)"
    by (auto simp: st_bind_Inr_iff dest: consumed_elem)
  from unconverted_elem_throws [of J N kd0 elem P m] one Cons.IH [OF rest] show ?case
    by (cases "event_of J N kd0 elem"; cases "res_map (event_of J N kd0) elems") auto
qed simp

lemma consumed_status_converts:
  assumes "consume_status J N P kd0 status (Some m) = (Inr (), t)"
  shows "is_ok (status_events J N kd0 status)"
  using assms consumed_elems_convert [of J N P kd0 _ m t]
  by (cases "Metrics_from_json J status \<lparr>met_service = [], met_metrics = []\<rparr>")
    (auto simp: consume_status_def status_events_def st_simps)

lemma dead_step:
  assumes "pipe_step L no_status J N P kd0 s s'" and "\<not> consuming s"
  shows "\<not> consuming s'" "taken s' = taken s" "pl_monitor s' = pl_monitor s"
    "pipe_inv c s \<Longrightarrow> queue_full (pl_queue s) \<Longrightarrow> s' = s"
  using assms by (auto elim!: pipe_stepE simp: pipe_inv_def dest: produced(5))

lemma dead_reach:
  "(pipe_step L no_status J N P kd0)\<^sup>*\<^sup>* s s' \<Longrightarrow> \<not> consuming s \<Longrightarrow>
   \<not> consuming s' \<and> taken s' = taken s \<and> pl_monitor s' = pl_monitor s \<and> (pipe_inv c s \<longrightarrow> pipe_inv c s')"
proof (induction rule: rtranclp_induct)
  case (step t s')
  then show ?case using dead_step [OF step.hyps(2)] pipe_inv_step [OF step.hyps(2)] by metis
qed simp

text \<open>
  Claim C31. One status that does not convert ends the metrics for good. Its exception leaves the consumer's loop:
  from then on no status is taken and no counter changes, the statuses only pile up until the queue is full
  and then nothing moves at all, and a new configuration with the same address does not start it again,
  since the subscriber still has its monitor.
\<close>

theorem bad_status_ends_metrics:
  assumes "(pipe_step L no_status J N P kd0)\<^sup>*\<^sup>* (pipeline_new capacity m0) s" and "pipe_step L no_status J N P kd0 s s1"
    and "taken s1 = taken s @ [status]" and "\<not> is_ok (status_events J N kd0 status)"
    and "(pipe_step L no_status J N P kd0)\<^sup>*\<^sup>* s1 s'"
    and "monitor ms \<noteq> None" and "prometheus_enabled config" and "prometheus_listen config = bind_address ms"
  shows "\<not> consuming s' \<and> taken s' = taken s1 \<and> pl_monitor s' = pl_monitor s1 \<and>
    accepted s' = taken s1 @ q_items (pl_queue s') \<and>
    (queue_full (pl_queue s') \<longrightarrow> (\<forall>s''. pipe_step L no_status J N P kd0 s' s'' \<longrightarrow> s'' = s')) \<and>
    ms_update b F config ms = (Inr (), ms)"
proof -
  have inv: "pipe_inv capacity s1"
    using pipe_inv_reach [OF assms(1)] pipe_inv_step [OF assms(2)] by blast
  have "\<not> consuming s1"
    using assms(2)
  proof cases
    case (consume status' q r m)
    then have "status' = status" using assms(3) by simp
    with consume assms(4) consumed_status_converts [of J N P kd0 status "pl_monitor s" "Some m"]
    show ?thesis by (cases r) auto
  qed (use assms(3) in simp)
  note dead = dead_reach [OF assms(5) this, of capacity]
  then have "pipe_inv capacity s'" "\<not> consuming s'" using inv by blast+
  moreover have "ms_update b F config ms = (Inr (), ms)"
    using assms(6-8) by (auto simp: ms_update_def st_simps)
  moreover have "queue_full (pl_queue s') \<longrightarrow> (\<forall>s''. pipe_step L no_status J N P kd0 s' s'' \<longrightarrow> s'' = s')"
    using dead_step(4) \<open>pipe_inv capacity s'\<close> \<open>\<not> consuming s'\<close> by blast
  ultimately show ?thesis
    using dead by (simp add: pipe_inv_def)
qed

section \<open>A small run\<close>

text \<open>A loader whose state is the status that its one service reports.\<close>

definition demo_publisher :: "(json, json) loader_if" where
  "demo_publisher =
     \<lparr>li_load = (\<lambda>_ _ _ _. st_ret True), li_unload = (\<lambda>_. st_ret True), li_register = (\<lambda>_ _ _ _. st_ret ()),
      li_unregister = (\<lambda>_ _. st_ret ()), li_allocate = (\<lambda>_ _. st_ret True), li_chain = (\<lambda>_ _. st_ret True),
      li_all = (\<lambda>_. []), li_get = (\<lambda>l _. Some l)\<rparr>"

definition json_empty :: "json \<Rightarrow> bool" where
  "json_empty j = (case j of JNull \<Rightarrow> True | JArr [] \<Rightarrow> True | JObj [] \<Rightarrow> True | _ \<Rightarrow> False)"

abbreviation demo_pipe_step :: "(registry, json) pipeline \<Rightarrow> (registry, json) pipeline \<Rightarrow> bool" where
  "demo_pipe_step \<equiv> pipe_step demo_publisher json_empty ref_json ref_num ref_prom demo_kd"

definition demo_pipe_with :: "json \<Rightarrow> (registry, json) pipeline" where
  "demo_pipe_with status =
     \<lparr>pl_queue = \<lparr>q_items = [status], q_capacity = 4, q_stopped = False\<rparr>, pl_monitor = demo_mon, consuming = True,
      accepted = [status], taken = []\<rparr>"

definition demo_pipe_after :: "json \<Rightarrow> (registry, json) pipeline" where
  "demo_pipe_after status =
     \<lparr>pl_queue = Queue_new 4, pl_monitor = the (snd (consume_status ref_json ref_num ref_prom demo_kd status (Some demo_mon))),
      consuming = is_ok (fst (consume_status ref_json ref_num ref_prom demo_kd status (Some demo_mon))),
      accepted = [status], taken = [status]\<rparr>"

lemma demo_produced:
  assumes "\<not> json_empty status"
  shows "demo_pipe_step (pipeline_new 4 demo_mon) (demo_pipe_with status)"
proof -
  let ?s = "pipeline_new 4 demo_mon" and ?q = "\<lparr>q_items = [status], q_capacity = 4, q_stopped = False\<rparr>"
  have "produce_one demo_publisher json_empty status (Some (pl_queue ?s)) ([], undefined) = Some (Some ?q)"
    using assms by (simp add: produce_one_def demo_publisher_def pipeline_new_def Queue_new_def queue_defs)
  from pipe_step.produce [OF this] show ?thesis
    by (simp add: demo_pipe_with_def pipeline_new_def Queue_new_def)
qed

lemma demo_consumed:
  assumes "snd (consume_status ref_json ref_num ref_prom demo_kd status (Some demo_mon)) \<noteq> None"
  shows "demo_pipe_step (demo_pipe_with status) (demo_pipe_after status)"
proof -
  let ?run = "consume_status ref_json ref_num ref_prom demo_kd status (Some demo_mon)"
  have "?run = (fst ?run, Some (the (snd ?run)))" using assms by (simp add: prod_eq_iff)
  then have "consume_status ref_json ref_num ref_prom demo_kd status (Some (pl_monitor (demo_pipe_with status))) =
      (fst ?run, Some (the (snd ?run)))"
    by (simp add: demo_pipe_with_def)
  from pipe_step.consume [OF _ _ this, of "Queue_new 4"] show ?thesis
    by (simp add: demo_pipe_with_def demo_pipe_after_def queue_defs Queue_new_def)
qed


text \<open>A value that is not a number.\<close>

definition bad_status :: json where
  "bad_status = JObj [(''metrics'', JArr [JObj [(''name'', JStr ''exec''), (''value'', JStr ''many'')]])]"

theorem bad_status_ends_metrics_witness:
  "\<not> consuming (demo_pipe_after bad_status) \<and>
   ms_update build.Release demo_factory (setPrometheusListen ''[::]:8080'' (prom_config True))
     (demo_subscriber []\<lparr>monitor := Some 1, bind_address := ''[::]:8080''\<rparr>) =
   (Inr (), demo_subscriber []\<lparr>monitor := Some 1, bind_address := ''[::]:8080''\<rparr>)"
proof -
  have bad: "snd (consume_status ref_json ref_num ref_prom demo_kd bad_status (Some demo_mon)) \<noteq> None"
    "\<not> json_empty bad_status" "\<not> is_ok (status_events ref_json ref_num demo_kd bad_status)"
    by code_simp+
  have first: "demo_pipe_step\<^sup>*\<^sup>* (pipeline_new 4 demo_mon) (demo_pipe_with bad_status)"
    using demo_produced [OF bad(2)] by blast
  have "taken (demo_pipe_after bad_status) = taken (demo_pipe_with bad_status) @ [bad_status]"
    by (simp add: demo_pipe_after_def demo_pipe_with_def)
  from bad_status_ends_metrics [OF first demo_consumed [OF bad(1)] this bad(3) rtranclp.rtrancl_refl,
      of "demo_subscriber []\<lparr>monitor := Some 1, bind_address := ''[::]:8080''\<rparr>"
         "setPrometheusListen ''[::]:8080'' (prom_config True)" build.Release demo_factory]
  show ?thesis by (simp add: prom_config_def configs_setters)
qed

end
