(* ===== verification/Cmdline_Options.thy ===== *)
theory Cmdline_Options
  imports App
begin

text \<open>
  The option table that \<^verbatim>\<open>Cmdline::setup\<close> (\<^verbatim>\<open>src/cmdline/cmdline.cc\<close>) hands to CLI11, and what \<^verbatim>\<open>Cmdline::parse\<close>
  makes of a command line. CLI11 is the function \<open>cli\<close> from a table and the arguments to a result; the texts
  of the help are left out.
\<close>

section \<open>The option table\<close>

datatype cli_var = Config_path | Gen_empty | Loglevel_str | Logfile_str

datatype cli_check = Unchecked | ExistingFile | IsMember "string list"

record cli_option =
  co_names :: "string list"
  co_var :: cli_var
  co_flag :: bool
  co_default :: string
  co_check :: cli_check

definition log_level_names :: "string list" where
  "log_level_names = butlast (enumNameList Level_enum)"

definition Cmdline_setup :: "string \<Rightarrow> cli_option list" where
  "Cmdline_setup proj =
     [\<lparr>co_names = [''-c'', ''--config''], co_var = Config_path, co_flag = False,
       co_default = CONFIGS_DEFAULT proj, co_check = ExistingFile\<rparr>,
      \<lparr>co_names = [''--get-conf''], co_var = Gen_empty, co_flag = True, co_default = [], co_check = Unchecked\<rparr>,
      \<lparr>co_names = [''--log-level''], co_var = Loglevel_str, co_flag = False,
       co_default = enumName Level_enum LOGLEVEL_DEFAULT, co_check = IsMember log_level_names\<rparr>,
      \<lparr>co_names = [''-l'', ''--log-file''], co_var = Logfile_str, co_flag = False,
       co_default = LOGFILE_DEFAULT proj, co_check = Unchecked\<rparr>]"

definition help_flags :: "string list" where "help_flags = [''-h'', ''--help'']"

text \<open>\<^verbatim>\<open>default_str\<close> is for the help only: a variable whose option is not given keeps its empty value.\<close>

definition Cmdline_run :: "string \<Rightarrow> (cli_option list \<Rightarrow> string list \<Rightarrow> cli_result) \<Rightarrow> (string \<Rightarrow> Configs res) \<Rightarrow>
    string list \<Rightarrow> (CmdlineConfig \<times> bool) res" where
  "Cmdline_run proj cli load argv = Cmdline_parse proj load (cli (Cmdline_setup proj) argv)"

text \<open>\<open>text_of\<close> is \<^verbatim>\<open>CLI::App::help\<close> of a table.\<close>

definition getHelp :: "(cli_option list \<Rightarrow> string) \<Rightarrow> string \<Rightarrow> string" where
  "getHelp text_of proj = text_of (Cmdline_setup proj)"

section \<open>What CLI11 promises\<close>

fun value_for :: "cli_result \<Rightarrow> cli_var \<Rightarrow> string" where
  "value_for (Cli_options c g lv lf) Config_path = c"
| "value_for (Cli_options c g lv lf) Loglevel_str = lv"
| "value_for (Cli_options c g lv lf) Logfile_str = lf"
| "value_for _ _ = []"

fun passes :: "(string \<Rightarrow> bool) \<Rightarrow> cli_check \<Rightarrow> string \<Rightarrow> bool" where
  "passes exists Unchecked v = True"
| "passes exists ExistingFile v = exists v"
| "passes exists (IsMember names) v = (v \<in> set names)"

text \<open>A value that was given has passed its check, otherwise the result is an error.\<close>

locale cli_lib =
  fixes cli :: "cli_option list \<Rightarrow> string list \<Rightarrow> cli_result" and exists :: "string \<Rightarrow> bool"
  assumes checked: "cli opts argv = Cli_options c g lv lf \<Longrightarrow> opt \<in> set opts \<Longrightarrow>
      value_for (Cli_options c g lv lf) (co_var opt) = [] \<or>
      passes exists (co_check opt) (value_for (Cli_options c g lv lf) (co_var opt))"
begin

lemma level_checked: "cli (Cmdline_setup proj) argv = Cli_options c g lv lf \<Longrightarrow> lv = [] \<or> lv \<in> set log_level_names"
  using checked [of "Cmdline_setup proj" argv c g lv lf "Cmdline_setup proj ! 2"] by (simp add: Cmdline_setup_def)

lemma config_checked: "cli (Cmdline_setup proj) argv = Cli_options c g lv lf \<Longrightarrow> c = [] \<or> exists c"
  using checked [of "Cmdline_setup proj" argv c g lv lf "Cmdline_setup proj ! 0"] by (simp add: Cmdline_setup_def)

end

text \<open>The names offered are those of the levels but for the counter at the end.\<close>

lemma level_names: "set log_level_names = enumName Level_enum ` (UNIV - {MAXSIZE})"
proof -
  have "log_level_names = map (enumName Level_enum) [trace, debug, info, warn, error, critical, off]"
    by (simp add: log_level_names_def enumNameList_def Level_enum_def enumName_def)
  moreover have "UNIV - {MAXSIZE} = set [trace, debug, info, warn, error, critical, off]"
    using Level.exhaust by auto
  ultimately show ?thesis by (metis set_map)
qed

text \<open>
  Claim C25. A command line that is accepted sets the log level it names, and the default one if it names none; a name
  is never replaced by the default, and the level is always a real one. A configuration file it names exists.
\<close>

theorem command_line_is_followed:
  assumes "cli_lib cli exists" and "Cmdline_run proj cli load argv = Inr (cc, True)" and "\<not> cc_help cc"
  shows "\<exists>c g lv lf. cli (Cmdline_setup proj) argv = Cli_options c g lv lf \<and> cc_gen_empty cc = g \<and>
    cc_loglevel cc \<noteq> MAXSIZE \<and> (if lv = [] then cc_loglevel cc = LOGLEVEL_DEFAULT else enumName Level_enum (cc_loglevel cc) = lv) \<and>
    (c = [] \<or> exists c) \<and> load (if c = [] then CONFIGS_DEFAULT proj else c) = Inr (cc_config cc)"
proof -
  obtain c g lv lf where cli: "cli (Cmdline_setup proj) argv = Cli_options c g lv lf"
    using assms(2,3) by (cases "cli (Cmdline_setup proj) argv")
      (auto simp: Cmdline_run_def Cmdline_parse_def Let_def split: if_splits)
  have load: "load (if c = [] then CONFIGS_DEFAULT proj else c) = Inr (cc_config cc)" "cc_gen_empty cc = g"
    and level: "cc_loglevel cc = (case stringEnum Level_enum lv of Some l \<Rightarrow> l | None \<Rightarrow> LOGLEVEL_DEFAULT)"
    using assms(2) by (auto simp: Cmdline_run_def Cmdline_parse_def Let_def cli split: sum.splits if_splits)
  have "cc_loglevel cc = LOGLEVEL_DEFAULT" if "lv = []"
    using level that by (simp add: stringEnum_def Level_enum_def)
  moreover have "enumName Level_enum (cc_loglevel cc) = lv \<and> cc_loglevel cc \<noteq> MAXSIZE" if lv: "lv \<noteq> []"
  proof -
    obtain l where "l \<noteq> MAXSIZE" "lv = enumName Level_enum l"
      using cli_lib.level_checked [OF assms(1) cli] lv by (auto simp only: level_names)
    with level show ?thesis by (simp add: level_enum.string_of_name)
  qed
  ultimately show ?thesis
    using cli load cli_lib.config_checked [OF assms(1) cli]
    by (intro exI [of _ c] exI [of _ g] exI [of _ lv] exI [of _ lf]) (auto simp: LOGLEVEL_DEFAULT_def)
qed

section \<open>A reference parser\<close>

text \<open>Long and short names with a separate value, and flags; the checks of the table.\<close>

definition find_option :: "cli_option list \<Rightarrow> string \<Rightarrow> cli_option option" where
  "find_option opts a = find (\<lambda>opt. a \<in> set (co_names opt)) opts"

fun set_var :: "cli_var \<Rightarrow> string \<Rightarrow> cli_result \<Rightarrow> cli_result" where
  "set_var Config_path v (Cli_options c g lv lf) = Cli_options v g lv lf"
| "set_var Gen_empty v (Cli_options c g lv lf) = Cli_options c True lv lf"
| "set_var Loglevel_str v (Cli_options c g lv lf) = Cli_options c g v lf"
| "set_var Logfile_str v (Cli_options c g lv lf) = Cli_options c g lv v"
| "set_var _ v r = r"

fun ref_parse :: "cli_option list \<Rightarrow> string list \<Rightarrow> cli_result \<Rightarrow> cli_result" where
  "ref_parse opts [] r = r"
| "ref_parse opts (a # as) r =
     (if a \<in> set help_flags then Cli_parse_error 0
      else case find_option opts a of
        None \<Rightarrow> Cli_parse_error 109
      | Some opt \<Rightarrow>
          if co_flag opt then ref_parse opts as (set_var (co_var opt) [] r)
          else case as of [] \<Rightarrow> Cli_parse_error 114 | v # as' \<Rightarrow> ref_parse opts as' (set_var (co_var opt) v r))"

definition ref_cli :: "(string \<Rightarrow> bool) \<Rightarrow> cli_option list \<Rightarrow> string list \<Rightarrow> cli_result" where
  "ref_cli exists opts argv =
     (let r = ref_parse opts argv (Cli_options [] False [] [])
      in if list_all (\<lambda>opt. value_for r (co_var opt) = [] \<or> passes exists (co_check opt) (value_for r (co_var opt))) opts
         then r else Cli_parse_error 105)"

interpretation refcli: cli_lib "ref_cli exists" exists for exists
  by unfold_locales (auto simp: ref_cli_def Let_def list_all_iff split: if_splits)

definition demo_argv :: "string list" where
  "demo_argv = [''--get-conf'', ''--log-level'', ''debug'', ''-c'', ''my.yaml'']"

theorem command_line_is_followed_witness:
  "\<exists>cc. Cmdline_run ''hebpf'' (ref_cli (\<lambda>f. f = ''my.yaml'')) (\<lambda>_. Inr Configs_default) demo_argv = Inr (cc, True) \<and>
     enumName Level_enum (cc_loglevel cc) = ''debug''"
proof -
  let ?run = "Cmdline_run ''hebpf'' (ref_cli (\<lambda>f. f = ''my.yaml'')) (\<lambda>_. Inr Configs_default) demo_argv"
  have "case ?run of Inr (cc, True) \<Rightarrow> \<not> cc_help cc | _ \<Rightarrow> False" by code_simp
  then obtain cc where run: "?run = Inr (cc, True)" "\<not> cc_help cc"
    by (auto split: sum.splits prod.splits bool.splits)
  have "ref_cli (\<lambda>f. f = ''my.yaml'') (Cmdline_setup ''hebpf'') demo_argv = Cli_options ''my.yaml'' True ''debug'' []"
    by code_simp
  with command_line_is_followed [OF refcli.cli_lib_axioms run] run show ?thesis by auto
qed

end
