(* ===== verification/Stack_Frame.thy ===== *)
theory Stack_Frame
  imports App Std_Lib
begin

text \<open>
  \<^verbatim>\<open>src/common/stack_frame.cc\<close>: the text of a stack trace that an exception carries. What glibc and the C++
  runtime give (\<^verbatim>\<open>backtrace\<close>, \<^verbatim>\<open>backtrace_symbols\<close>, \<^verbatim>\<open>__cxa_demangle\<close>) are arguments; the two \<^verbatim>\<open>sscanf\<close> formats are
  modelled on characters.
\<close>

definition SYMBOL_MAXSIZE :: nat where "SYMBOL_MAXSIZE = 128"

text \<open>\<open>cxa\<close> is \<^verbatim>\<open>__cxa_demangle\<close> of a C string, null for a name that is not mangled.\<close>

definition demangle :: "(string \<Rightarrow> string option) \<Rightarrow> string \<Rightarrow> string" where
  "demangle cxa symbol = (case cxa (c_str symbol) of None \<Rightarrow> [] | Some n \<Rightarrow> n)"

text \<open>
  \<^verbatim>\<open>"%*[^(](%127[^)+]"\<close>: a non-empty text before an opening bracket, then at most 127 characters up to a plus or
  a closing bracket, at least one; \<open>None\<close> when the call does not return 1.
\<close>

definition scan_mangled :: "string \<Rightarrow> string option" where
  "scan_mangled s =
     (let cs = c_str s; file = takeWhile (\<lambda>c. c \<noteq> CHR ''('') cs
      in if file = [] then None
         else case dropWhile (\<lambda>c. c \<noteq> CHR ''('') cs of
           [] \<Rightarrow> None
         | _ # rest \<Rightarrow>
             let name = take (SYMBOL_MAXSIZE - 1) (takeWhile (\<lambda>c. c \<noteq> CHR '')'' \<and> c \<noteq> CHR ''+'') rest)
             in if name = [] then None else Some name)"

text \<open>\<^verbatim>\<open>"%127s"\<close>: leading blanks skipped, then at most 127 characters up to a blank, at least one.\<close>

definition scan_word :: "string \<Rightarrow> string option" where
  "scan_word s =
     (let word = take (SYMBOL_MAXSIZE - 1) (takeWhile (\<lambda>c. \<not> is_space c) (dropWhile is_space (c_str s)))
      in if word = [] then None else Some word)"

definition demangleWrapper :: "(string \<Rightarrow> string option) \<Rightarrow> string \<Rightarrow> string" where
  "demangleWrapper cxa symbol =
     (let result = (case scan_mangled symbol of None \<Rightarrow> [] | Some temp \<Rightarrow> demangle cxa temp)
      in if result \<noteq> [] then result
         else case scan_word symbol of Some temp \<Rightarrow> temp | None \<Rightarrow> symbol)"

text \<open>The frames above the trace and the constructor of the exception, one line each with its number.\<close>

definition STACK_BASE :: nat where "STACK_BASE = 2"

fun frame_lines :: "(string \<Rightarrow> string option) \<Rightarrow> nat \<Rightarrow> string list \<Rightarrow> string" where
  "frame_lines cxa i [] = []"
| "frame_lines cxa i (s # ss) =
     ''['' @ dec_text i @ ''] '' @ demangleWrapper cxa s @ [CHR 0x0A] @ frame_lines cxa (i + 1) ss"

definition STACK_MAXSIZE :: nat where "STACK_MAXSIZE = 256"

text \<open>
  \<open>frames\<close> are the symbols of the whole stack, of which \<^verbatim>\<open>backtrace\<close> takes the innermost 256; \<open>alloc\<close> says whether
  \<^verbatim>\<open>backtrace_symbols\<close> gets its memory. The signal-safe variant writes them to stderr: the second part of
  the result.
\<close>

definition stackTrace :: "(string \<Rightarrow> string option) \<Rightarrow> string list \<Rightarrow> bool \<Rightarrow> bool \<Rightarrow> string \<times> string list" where
  "stackTrace cxa frames alloc async_signal_safe =
     (let ptrs = take STACK_MAXSIZE frames
      in if async_signal_safe then ([], ptrs)
         else (if alloc then frame_lines cxa STACK_BASE (drop STACK_BASE ptrs) else [], []))"

section \<open>The exception that carries it\<close>

record Exception =
  ex_msg :: string
  ex_err :: int
  ex_stack :: string

text \<open>The trace is taken first; \<open>err\<close> is \<^verbatim>\<open>errno\<close> after it.\<close>

definition Exception_new :: "(string \<Rightarrow> string option) \<Rightarrow> string list \<Rightarrow> bool \<Rightarrow> (int \<Rightarrow> string option) \<Rightarrow> string \<Rightarrow> nat \<Rightarrow>
    string \<Rightarrow> bool \<Rightarrow> int \<Rightarrow> Exception" where
  "Exception_new cxa frames alloc strerror file line msg is_errno err =
     \<lparr>ex_msg = Exception_msg strerror file line msg is_errno err, ex_err = err,
      ex_stack = fst (stackTrace cxa frames alloc False)\<rparr>"

definition Exception_what :: "Exception \<Rightarrow> string" where
  "Exception_what e = c_str (ex_msg e)"

definition Exception_stackFrame :: "Exception \<Rightarrow> string" where
  "Exception_stackFrame e = ex_stack e"

section \<open>What a frame is called\<close>

text \<open>A symbol as glibc writes it: the file, a bracket, the function and its offset.\<close>

lemma c_str_id: "NUL \<notin> set s \<Longrightarrow> c_str s = s"
  by (auto simp: c_str_def takeWhile_eq_all_conv)

lemma scan_mangled_symbol:
  assumes "NUL \<notin> set (file @ name @ rest)" and "file \<noteq> []" and "CHR ''('' \<notin> set file"
    and "name \<noteq> []" and "CHR '')'' \<notin> set name" and "CHR ''+'' \<notin> set name"
  shows "scan_mangled (file @ ''('' @ name @ ''+'' @ rest) = Some (take (SYMBOL_MAXSIZE - 1) name)"
proof -
  have "c_str (file @ ''('' @ name @ ''+'' @ rest) = file @ ''('' @ name @ ''+'' @ rest"
    using assms(1) by (intro c_str_id) (simp add: NUL_def)
  moreover have "takeWhile (\<lambda>c. c \<noteq> CHR ''('') (file @ ''('' @ xs) = file"
    "dropWhile (\<lambda>c. c \<noteq> CHR ''('') (file @ ''('' @ xs) = ''('' @ xs" for xs
    using assms(3) by (simp_all add: takeWhile_append dropWhile_append takeWhile_eq_all_conv)
  moreover have "takeWhile (\<lambda>c. c \<noteq> CHR '')'' \<and> c \<noteq> CHR ''+'') (name @ ''+'' @ rest) = name"
    using assms(5,6) by (simp add: takeWhile_append takeWhile_eq_all_conv) auto
  ultimately show ?thesis
    using assms(2,4) by (simp add: scan_mangled_def Let_def SYMBOL_MAXSIZE_def)
qed

text \<open>A C++ function of at most 127 characters is named.\<close>

theorem short_symbol_is_named:
  assumes "NUL \<notin> set (file @ name @ rest)" and "file \<noteq> []" and "CHR ''('' \<notin> set file"
    and "name \<noteq> []" and "CHR '')'' \<notin> set name" and "CHR ''+'' \<notin> set name"
    and "length name < SYMBOL_MAXSIZE" and "cxa name = Some n" and "n \<noteq> []"
  shows "demangleWrapper cxa (file @ ''('' @ name @ ''+'' @ rest) = n"
proof -
  have "take (SYMBOL_MAXSIZE - 1) name = name" "c_str name = name"
    using assms(1,7) by (simp_all add: c_str_id)
  with assms scan_mangled_symbol [OF assms(1-6)] show ?thesis
    by (simp add: demangleWrapper_def demangle_def)
qed

text \<open>A longer one is cut, and as what is left of its mangled name is none, its frame stays mangled.\<close>

theorem long_symbol_stays_mangled:
  assumes "NUL \<notin> set (file @ name @ rest)" and "file \<noteq> []" and "CHR ''('' \<notin> set file"
    and "name \<noteq> []" and "CHR '')'' \<notin> set name" and "CHR ''+'' \<notin> set name"
    and "cxa (take (SYMBOL_MAXSIZE - 1) name) = None"
  shows "demangleWrapper cxa (file @ ''('' @ name @ ''+'' @ rest) =
    (case scan_word (file @ ''('' @ name @ ''+'' @ rest) of Some temp \<Rightarrow> temp | None \<Rightarrow> file @ ''('' @ name @ ''+'' @ rest)"
proof -
  have "NUL \<notin> set (take (SYMBOL_MAXSIZE - 1) name)" using assms(1) by (auto dest: in_set_takeD)
  then have "c_str (take (SYMBOL_MAXSIZE - 1) name) = take (SYMBOL_MAXSIZE - 1) name" by (rule c_str_id)
  with assms scan_mangled_symbol [OF assms(1-6)] show ?thesis
    by (simp add: demangleWrapper_def demangle_def split: option.split)
qed

text \<open>Both conversions fit into the buffer of 128 characters with the terminator.\<close>

lemma scans_fit:
  "scan_mangled s = Some t \<Longrightarrow> length t < SYMBOL_MAXSIZE"
  "scan_word s = Some t \<Longrightarrow> length t < SYMBOL_MAXSIZE"
  by (auto simp: scan_mangled_def scan_word_def Let_def SYMBOL_MAXSIZE_def split: if_splits list.splits)

end
