(* ===== verification/Producer_Race.thy ===== *)
theory Producer_Race
  imports Daemon
begin

text \<open>
  The producer thread (\<^verbatim>\<open>Daemon::produceLoop\<close>) beside the threads that unload services: \<^verbatim>\<open>getService\<close> hands
  the thread a plain pointer to a service the loader owns, and neither \<^verbatim>\<open>mutex_\<close> is held while it is used.
\<close>

section \<open>The loop in steps\<close>

text \<open>
  Where the loop is: at its condition, before the next service of its copy, with a service's pointer, with
  its status, back from the loop, or in a call on an object that does not exist any more.
\<close>

datatype 'j producer = At_top | Visiting EbpfMap | Has_service nat EbpfMap | Has_status 'j EbpfMap | Gone | Reads_freed

record ('w, 'k, 'j) race =
  rc_daemon :: "(('w, 'k) Loader, 'j) Daemon"
  rc_producer :: "'j producer"

text \<open>An instance exists as long as a row of the loader's table owns it.\<close>

definition instance_live :: "nat \<Rightarrow> ('w, 'k) Loader \<Rightarrow> bool" where
  "instance_live i l \<longleftrightarrow> (\<exists>(p, h) \<in> set (services l). sh_instance h = Some i)"

definition deliver :: "'j \<Rightarrow> 'j Queue option \<Rightarrow> 'j Queue option option" where
  "deliver status queue =
     (case queue of
        None \<Rightarrow> Some None
      | Some q \<Rightarrow> if queue_full q then Some queue else map_option Some (queue_push status q))"

inductive producer_step :: "('w, 'k, 'j) loader_env \<Rightarrow> ('j \<Rightarrow> bool) \<Rightarrow> ('w, 'k, 'j) race \<Rightarrow> ('w, 'k, 'j) race \<Rightarrow> bool"
  for E no_status where
  turn: "rc_producer s = At_top \<Longrightarrow> running (rc_daemon s) \<Longrightarrow>
    producer_step E no_status s (s\<lparr>rc_producer := Visiting (current_ebpf (rc_daemon s))\<rparr>)"
| leave: "rc_producer s = At_top \<Longrightarrow> \<not> running (rc_daemon s) \<Longrightarrow>
    producer_step E no_status s (s\<lparr>rc_producer := Gone\<rparr>)"
| found: "rc_producer s = Visiting (pair # rest) \<Longrightarrow> d_loader (rc_daemon s) = Some l \<Longrightarrow>
    getService (conf_lib (snd pair)) l = Some i \<Longrightarrow>
    producer_step E no_status s (s\<lparr>rc_producer := Has_service i rest\<rparr>)"
| not_found: "rc_producer s = Visiting (pair # rest) \<Longrightarrow> d_loader (rc_daemon s) = Some l \<Longrightarrow>
    getService (conf_lib (snd pair)) l = None \<Longrightarrow>
    producer_step E no_status s (s\<lparr>rc_producer := Visiting rest\<rparr>)"
| asked: "rc_producer s = Has_service i rest \<Longrightarrow> d_loader (rc_daemon s) = Some l \<Longrightarrow> instance_live i l \<Longrightarrow>
    status = i_status (le_dl E) (ld_world l) i \<Longrightarrow>
    producer_step E no_status s (s\<lparr>rc_producer := (if no_status status then Visiting rest else Has_status status rest)\<rparr>)"
| freed: "rc_producer s = Has_service i rest \<Longrightarrow> d_loader (rc_daemon s) = Some l \<Longrightarrow> \<not> instance_live i l \<Longrightarrow>
    producer_step E no_status s (s\<lparr>rc_producer := Reads_freed\<rparr>)"
| delivered: "rc_producer s = Has_status status rest \<Longrightarrow> deliver status (status_queue (rc_daemon s)) = Some q \<Longrightarrow>
    producer_step E no_status s
      (s\<lparr>rc_daemon := (rc_daemon s)\<lparr>status_queue := q\<rparr>, rc_producer := Visiting rest\<rparr>)"
| slept: "rc_producer s = Visiting [] \<Longrightarrow> producer_step E no_status s (s\<lparr>rc_producer := At_top\<rparr>)"

text \<open>
  What the other threads do to the loaded services: \<^verbatim>\<open>stop\<close> clears the flag, and \<^verbatim>\<open>stop\<close> and \<^verbatim>\<open>update\<close> unload
  one service after the other.
\<close>

inductive unloader_step :: "daemon_env \<Rightarrow> ('w, 'k, 'j) loader_env \<Rightarrow> ('w, 'k, 'j) race \<Rightarrow> ('w, 'k, 'j) race \<Rightarrow> bool"
  for D E where
  flag: "unloader_step D E s (s\<lparr>rc_daemon := (rc_daemon s)\<lparr>running := False\<rparr>\<rparr>)"
| unload: "unloadEbpf D (the_loader E) p (rc_daemon s) = (Inr (), d) \<Longrightarrow>
    unloader_step D E s (s\<lparr>rc_daemon := d\<rparr>)"

definition race_step :: "daemon_env \<Rightarrow> ('w, 'k, 'j) loader_env \<Rightarrow> ('j \<Rightarrow> bool) \<Rightarrow> ('w, 'k, 'j) race \<Rightarrow>
    ('w, 'k, 'j) race \<Rightarrow> bool" where
  "race_step D E no_status s t \<longleftrightarrow> producer_step E no_status s t \<or> unloader_step D E s t"

inductive_cases producer_stepE: "producer_step E no_status s t"

section \<open>The producer on its own\<close>

text \<open>As long as nothing is unloaded, a pointer in the producer's hands is good.\<close>

definition pointer_ok :: "('w, 'k, 'j) race \<Rightarrow> bool" where
  "pointer_ok s \<longleftrightarrow>
     (case rc_producer s of
        Has_service i rest \<Rightarrow> (\<exists>l. d_loader (rc_daemon s) = Some l \<and> instance_live i l)
      | Reads_freed \<Rightarrow> False
      | _ \<Rightarrow> True)"

lemma got_instance: "getService p l = Some i \<Longrightarrow> instance_live i l"
  by (auto simp: getService_def instance_live_def split: option.splits dest!: map_of_SomeD intro!: bexI)

lemma pointer_ok_step: "producer_step E no_status s t \<Longrightarrow> pointer_ok s \<Longrightarrow> pointer_ok t"
  by (erule producer_stepE) (auto simp: pointer_ok_def dest: got_instance)

lemma pointer_ok_reach: "(producer_step E no_status)\<^sup>*\<^sup>* s t \<Longrightarrow> pointer_ok s \<Longrightarrow> pointer_ok t"
  by (induction rule: rtranclp_induct) (auto intro: pointer_ok_step)

section \<open>A stop at the wrong moment\<close>

lemma producer_races: "(producer_step E no_status)\<^sup>*\<^sup>* s t \<Longrightarrow> (race_step D E no_status)\<^sup>*\<^sup>* s t"
  by (rule rtranclp_mono [THEN predicate2D, rotated]) (auto simp: race_step_def)

text \<open>The producer goes past what is not loaded to the first service that is.\<close>

lemma reaches_service:
  assumes "d_loader d = Some l" and "\<exists>pair \<in> set pairs. getService (conf_lib (snd pair)) l \<noteq> None"
  shows "\<exists>i rest. (producer_step E no_status)\<^sup>*\<^sup>* \<lparr>rc_daemon = d, rc_producer = Visiting pairs\<rparr>
    \<lparr>rc_daemon = d, rc_producer = Has_service i rest\<rparr>"
  using assms(2)
proof (induction pairs)
  case (Cons pair rest)
  let ?s = "\<lparr>rc_daemon = d, rc_producer = Visiting (pair # rest)\<rparr>"
  show ?case
  proof (cases "getService (conf_lib (snd pair)) l")
    case None
    with assms(1) have "producer_step E no_status ?s \<lparr>rc_daemon = d, rc_producer = Visiting rest\<rparr>"
      using producer_step.not_found [of ?s pair rest l] by simp
    with Cons None show ?thesis by (fastforce intro: converse_rtranclp_into_rtranclp)
  next
    case (Some i)
    with assms(1) have "producer_step E no_status ?s \<lparr>rc_daemon = d, rc_producer = Has_service i rest\<rparr>"
      using producer_step.found [of ?s pair rest l i] by simp
    then show ?thesis by blast
  qed
qed simp

lemma unload_each_races:
  "st_each (unloadEbpf D (the_loader E)) ps d = (Inr (), d') \<Longrightarrow>
   (race_step D E no_status)\<^sup>*\<^sup>* \<lparr>rc_daemon = d, rc_producer = pr\<rparr> \<lparr>rc_daemon = d', rc_producer = pr\<rparr>"
proof (induction ps arbitrary: d)
  case (Cons p ps)
  then obtain d1 where d1: "unloadEbpf D (the_loader E) p d = (Inr (), d1)"
    "st_each (unloadEbpf D (the_loader E)) ps d1 = (Inr (), d')"
    by (auto simp: st_bind_Inr_iff)
  have "race_step D E no_status \<lparr>rc_daemon = d, rc_producer = pr\<rparr> \<lparr>rc_daemon = d1, rc_producer = pr\<rparr>"
    using unloader_step.unload [of D E p "\<lparr>rc_daemon = d, rc_producer = pr\<rparr>" d1] d1(1) by (simp add: race_step_def)
  with Cons.IH [OF d1(2)] show ?case by (rule converse_rtranclp_into_rtranclp [rotated])
qed (simp add: st_simps)

text \<open>
  Claim C34. Stopping the daemon can free a service while the producer uses it. Whenever a running daemon has a
  service of its configuration loaded and \<^verbatim>\<open>stop\<close> succeeds, there is a run in which the producer obtains the
  service's pointer, \<^verbatim>\<open>stop\<close> clears the flag and unloads everything, and the producer then calls the
  destroyed object: \<^verbatim>\<open>stop\<close> joins the thread only behind the unloading. On its own the producer never
  calls a destroyed object, so the unloading is the cause.
\<close>

theorem stop_frees_a_service_in_use:
  assumes "d_good services_live d" and "running d" and "d_loader d = Some l"
    and "\<exists>(name, cfg) \<in> set (current_ebpf d). getService (conf_lib cfg) l \<noteq> None"
    and "Daemon_stop D (the_loader E) d = (Inr (), d')"
  shows "(\<exists>t. (race_step D E no_status)\<^sup>*\<^sup>* \<lparr>rc_daemon = d, rc_producer = At_top\<rparr> t \<and> rc_producer t = Reads_freed) \<and>
    (\<forall>t. (producer_step E no_status)\<^sup>*\<^sup>* \<lparr>rc_daemon = d, rc_producer = At_top\<rparr> t \<longrightarrow> rc_producer t \<noteq> Reads_freed)"
proof -
  let ?L = "the_loader E" and ?race = "race_step D E no_status"
  obtain l1 d1 where d1: "st_each (unloadEbpf D ?L) (li_all ?L l1) (d\<lparr>running := False\<rparr>) = (Inr (), d1)"
    and d': "d' = d1\<lparr>current_ebpf := [], producer_thread := False, status_queue := None\<rparr>"
    by (rule stop_split [OF assms(1,2,5)])
  have "d_good services_live d'" "d_loaded loaded_paths d' = {}"
    using ld.stop_unloads_all [OF assms(1,2,5)] by auto
  then obtain l' where l': "d_loader d1 = Some l'" "services l' = []"
    by (auto simp: d' d_good_def d_loaded_def loaded_paths_def split: option.splits)
  have "producer_step E no_status \<lparr>rc_daemon = d, rc_producer = At_top\<rparr>
      \<lparr>rc_daemon = d, rc_producer = Visiting (current_ebpf d)\<rparr>"
    using producer_step.turn [of "\<lparr>rc_daemon = d, rc_producer = At_top\<rparr>"] assms(2) by simp
  moreover obtain i rest where "(producer_step E no_status)\<^sup>*\<^sup>* \<lparr>rc_daemon = d, rc_producer = Visiting (current_ebpf d)\<rparr>
      \<lparr>rc_daemon = d, rc_producer = Has_service i rest\<rparr>"
    using reaches_service [OF assms(3), of "current_ebpf d" E no_status] assms(4) by (auto simp: split_beta)
  ultimately have "?race\<^sup>*\<^sup>* \<lparr>rc_daemon = d, rc_producer = At_top\<rparr> \<lparr>rc_daemon = d, rc_producer = Has_service i rest\<rparr>"
    by (intro producer_races) (rule converse_rtranclp_into_rtranclp)
  also have "?race \<lparr>rc_daemon = d, rc_producer = Has_service i rest\<rparr>
      \<lparr>rc_daemon = d\<lparr>running := False\<rparr>, rc_producer = Has_service i rest\<rparr>"
    using unloader_step.flag [of D E "\<lparr>rc_daemon = d, rc_producer = Has_service i rest\<rparr>"] by (simp add: race_step_def)
  also note unload_each_races [OF d1]
  also have "?race \<lparr>rc_daemon = d1, rc_producer = Has_service i rest\<rparr> \<lparr>rc_daemon = d1, rc_producer = Reads_freed\<rparr>"
    using producer_step.freed [of "\<lparr>rc_daemon = d1, rc_producer = Has_service i rest\<rparr>" i rest l'] l'
    by (simp add: race_step_def instance_live_def)
  finally show ?thesis
    using pointer_ok_reach [of E no_status "\<lparr>rc_daemon = d, rc_producer = At_top\<rparr>"]
    by (fastforce simp: pointer_ok_def)
qed

theorem stop_frees_a_service_in_use_witness:
  "\<exists>t. (race_step demo_daemon_env demo_env (\<lambda>_. False))\<^sup>*\<^sup>*
      \<lparr>rc_daemon = Daemon_run demo_daemon_1, rc_producer = At_top\<rparr> t \<and> rc_producer t = Reads_freed"
proof -
  let ?d = "Daemon_run demo_daemon_1"
  obtain s' where stop: "Daemon_stop demo_daemon_env (the_loader demo_env) ?d = (Inr (), s')"
    using demo_stop(1) by (metis prod.collapse)
  have "case d_loader ?d of None \<Rightarrow> False
      | Some l \<Rightarrow> \<exists>(name, cfg) \<in> set (current_ebpf ?d). getService (conf_lib cfg) l \<noteq> None"
    by code_simp
  then obtain l where "d_loader ?d = Some l" "\<exists>(name, cfg) \<in> set (current_ebpf ?d). getService (conf_lib cfg) l \<noteq> None"
    by (auto split: option.splits)
  from stop_frees_a_service_in_use [OF demo_stop(2,3) this stop] show ?thesis by blast
qed

end
