(* ===== verification/Main_Program.thy ===== *)
theory Main_Program
  imports System Inotify
begin

text \<open>
  The whole run of \<^verbatim>\<open>main\<close>: the calls that App lists, each performed on the component it goes to, from the
  first registered signal to the last clean-up, with the changes of the configuration file that happen while
  \<^verbatim>\<open>main\<close> waits for a signal, and what happens when a call does not succeed: the destructors of the local objects
  run before the handler. How the two \<^verbatim>\<open>stop\<close> functions meet their threads is in Shutdown; here they return. The
  daemon and the monitor share the status queue; each keeps its own view of it, and no claim reads a status.
\<close>

section \<open>The state of the process\<close>

text \<open>
  Beside the watcher's world: the signal object, the log settings, the inotify manager, the manager of the
  chains, and the kernel log with its ring buffer. The loader is in the daemon from the start, since its
  three set-up calls come before anything uses the daemon.
\<close>

record ('l, 'j, 'm, 'd, 'y, 'i, 'k, 'r) process = "('l, 'j, 'm, 'j, 'd, 'y) app" +
  pr_signal :: Signal
  pr_log :: log_state
  pr_inotify :: "('i, unit) InotifyManager"
  pr_chains :: "'k PinnedProgMap"
  pr_klog_map :: "'r RingBufferMap"
  pr_klog :: "unit Ringbuffer option"

text \<open>
  What the process runs on. \<open>pe_queue\<close> is the capacity of the status queue, \<open>pe_takes\<close> whether the consumer takes
  a status without an exception, \<open>pe_events\<close> what happens while \<^verbatim>\<open>main\<close> waits: a name the kernel reports, and
  what the configuration file then holds.
\<close>

record ('w, 'k, 'j, 'm, 'd, 'y, 'i, 'r) process_env =
  pe_daemon :: daemon_env
  pe_loader :: "('w, 'k, 'j) loader_env"
  pe_build :: build
  pe_proj :: string
  pe_factory :: "'m factory_ops"
  pe_asio :: "'d asio_ops"
  pe_yaml :: "'y yaml_ops"
  pe_inotify :: "'i inotify_ops"
  pe_fs :: "'k fs_ops"
  pe_progs :: "(string \<times> ProgInfo) list"
  pe_rb :: "'r rb_ops"
  pe_klog_addr :: nat
  pe_can_open :: "string \<Rightarrow> bool"
  pe_is_dir :: "string \<Rightarrow> bool"
  pe_queue :: nat
  pe_takes :: "'j \<Rightarrow> bool"
  pe_events :: "(string \<times> 'y res option) list"

text \<open>A call on one part of the process.\<close>

definition on_part :: "('w \<Rightarrow> 'p) \<Rightarrow> ('p \<Rightarrow> 'w \<Rightarrow> 'w) \<Rightarrow> ('a, 'p) st \<Rightarrow> ('a, 'w ConfigWatcher) st" where
  "on_part get put m s = (case m (get (cw_world s)) of (r, p) \<Rightarrow> (r, s\<lparr>cw_world := put p (cw_world s)\<rparr>))"

abbreviation "on_signal \<equiv> on_part pr_signal (\<lambda>p w. w\<lparr>pr_signal := p\<rparr>)"
abbreviation "on_log \<equiv> on_part pr_log (\<lambda>p w. w\<lparr>pr_log := p\<rparr>)"
abbreviation "on_manager \<equiv> on_part pr_inotify (\<lambda>p w. w\<lparr>pr_inotify := p\<rparr>)"
abbreviation "on_chains \<equiv> on_part pr_chains (\<lambda>p w. w\<lparr>pr_chains := p\<rparr>)"
abbreviation "on_klog \<equiv> on_part pr_klog_map (\<lambda>p w. w\<lparr>pr_klog_map := p\<rparr>)"
abbreviation "on_daemon \<equiv> on_part app_daemon (\<lambda>p w. w\<lparr>app_daemon := p\<rparr>)"
abbreviation "on_monitor \<equiv> on_part app_monitor (\<lambda>p w. w\<lparr>app_monitor := p\<rparr>)"
abbreviation "on_debug \<equiv> on_part app_debug (\<lambda>p w. w\<lparr>app_debug := p\<rparr>)"

text \<open>The watcher's calls on the manager; its callback is the only one of \<^verbatim>\<open>main\<close> itself.\<close>

definition process_ops :: "('w, 'k, 'j, 'm, 'd, 'y, 'i, 'r) process_env \<Rightarrow>
    (('w, 'k) Loader, 'j, 'm, 'd, 'y, 'i, 'k, 'r) process watch_ops" where
  "process_ops P =
     (app_ops (pe_daemon P) (the_loader (pe_loader P)) (pe_build P) (pe_factory P) (pe_asio P) (pe_yaml P))
       \<lparr>w_watch := (\<lambda>path w. case watchConfig (pe_build P) (pe_inotify P) path () (pr_inotify w) of
                      (r, p) \<Rightarrow> (r, w\<lparr>pr_inotify := p\<rparr>)),
        w_goodbye := (\<lambda>path w. case goodbyeConfig (pe_build P) (pe_inotify P) path (pr_inotify w) of
                      (r, p) \<Rightarrow> (r, w\<lparr>pr_inotify := p\<rparr>))\<rparr>"

section \<open>The calls\<close>

text \<open>A subscriber is the position \<^verbatim>\<open>main\<close> attaches it at; the calls that give nothing count as true.\<close>

fun subject_number :: "subject \<Rightarrow> nat" where
  "subject_number The_daemon = 0"
| "subject_number The_monitor = 1"
| "subject_number The_debug_server = 2"

definition and_true :: "('a, 's) st \<Rightarrow> (bool, 's) st" where
  "and_true m = st_bind m (\<lambda>_. st_ret True)"

text \<open>An event of the kernel goes through the manager to the watcher's callback.\<close>

definition on_event :: "('w, 'k, 'j, 'm, 'd, 'y, 'i, 'r) process_env \<Rightarrow> string \<times> 'y res option \<Rightarrow>
    (unit, (('w, 'k) Loader, 'j, 'm, 'd, 'y, 'i, 'k, 'r) process ConfigWatcher) st" where
  "on_event P ev =
     st_bind (st_mod (\<lambda>s. s\<lparr>cw_world := (cw_world s)\<lparr>app_file := snd ev\<rparr>\<rparr>)) (\<lambda>_.
     st_bind (on_manager (\<lambda>m. (onInotifyEvent (pe_build P) (fst ev) m, m))) (\<lambda>cb.
     case cb of None \<Rightarrow> st_ret () | Some _ \<Rightarrow> on_config_event (process_ops P) (fst ev)))"

text \<open>
  One call of \<open>main_calls\<close>. \<^verbatim>\<open>main\<close> waits until a signal has come; the signal's handler is where the wait ends.
\<close>

fun exec_call :: "('w, 'k, 'j, 'm, 'd, 'y, 'i, 'r) process_env \<Rightarrow> call \<Rightarrow>
    (bool, (('w, 'k) Loader, 'j, 'm, 'd, 'y, 'i, 'k, 'r) process ConfigWatcher) st" where
  "exec_call P (RegisterSignal sig h) = and_true (on_signal (st_mod (registerSignal sig h)))"
| "exec_call P (SetupLog file lev) =
     and_true (on_log (st_bind (main_log_setup (pe_proj P) (pe_can_open P) (pe_is_dir P) file lev) (\<lambda>_.
       st_bind (GLOBAL_LOG (pe_proj P) (pe_can_open P) info) (\<lambda>_. GLOBAL_LOG (pe_proj P) (pe_can_open P) info))))"
| "exec_call P InitManager = and_true (on_manager (initManager True))"
| "exec_call P InitChains = on_chains (PinnedProgMap_init (pe_fs P) (pe_progs P))"
| "exec_call P SetIoContext = on_daemon (on_loader (setIoContext (\<lambda>_. True) (Some 0)))"
| "exec_call P SetInotify = on_daemon (on_loader (setInotifyManager True))"
| "exec_call P SetChains =
     st_bind (st_get (\<lambda>s. pr_chains (cw_world s))) (\<lambda>mgr. on_daemon (on_loader (setProgChainManager (Some mgr))))"
| "exec_call P (Attach x) = and_true (watcher_attach (process_ops P) (Some (subject_number x)))"
| "exec_call P SetMonitorQueue = and_true (on_monitor (st_mod (ms_setQueue (Some (Queue_new (pe_queue P))))))"
| "exec_call P (MonitorRun addr) = and_true (on_monitor (ms_run (pe_build P) (pe_factory P) addr))"
| "exec_call P DebugAttachDaemon = and_true (on_debug (st_mod (ds_attach (Some 0))))"
| "exec_call P (DebugStart addr p) = on_debug (ds_start (pe_build P) (pe_asio P) addr p)"
| "exec_call P KlogNew =
     st_bind (on_klog (Klog_new (pe_build P) (pe_rb P) (pe_klog_addr P) (Some 0) KLOG_BUFFER_SIZE KLOG_BUFFER_NAME)) (\<lambda>rb.
     and_true (st_mod (\<lambda>s. s\<lparr>cw_world := (cw_world s)\<lparr>pr_klog := Some rb\<rparr>\<rparr>)))"
| "exec_call P (StartWatching path) = and_true (startWatching (process_ops P) path)"
| "exec_call P SetStatusQueue =
     st_bind (st_get (\<lambda>s. ms_queue (app_monitor (cw_world s)))) (\<lambda>queue. and_true (on_daemon (st_mod (setStatusQueue queue))))"
| "exec_call P DaemonRun = and_true (on_daemon (st_mod Daemon_run))"
| "exec_call P WaitForStop =
     st_bind (st_each (on_event P) (pe_events P)) (\<lambda>_. and_true (on_signal (commonSignalHandler (pe_build P) SIGTERM)))"
| "exec_call P DebugDetachDaemon = and_true (on_debug (st_mod (ds_detach (Some 0))))"
| "exec_call P DebugStop = and_true (on_debug (st_mod (ds_stop (pe_asio P))))"
| "exec_call P DestroyManager = and_true (on_manager (destroyManager (pe_build P) (pe_inotify P)))"
| "exec_call P DaemonStop = and_true (on_daemon (Daemon_stop (pe_daemon P) (the_loader (pe_loader P))))"
| "exec_call P MonitorStop = and_true (on_monitor (ms_stop (pe_build P) (pe_factory P)))"
| "exec_call P KlogUnpin = and_true (on_klog (st_mod (Klog_unpin (pe_rb P))))"

text \<open>
  The objects as their constructors make them, over the worlds outside: \<open>lw\<close> the loader's, \<open>mw\<close> the monitor
  factory's, \<open>dw\<close> the debug server's, \<open>kw\<close> and \<open>rw\<close> those of the two pinned maps; \<open>ino\<close> is the
  inotify object.
\<close>

definition process_start :: "string \<Rightarrow> int \<Rightarrow> 'y res option \<Rightarrow> 'w \<Rightarrow> 'm \<Rightarrow> 'd \<Rightarrow> 'i Inotify \<Rightarrow> 'k \<Rightarrow> 'r \<Rightarrow>
    (('w, 'k) Loader, 'j, 'm, 'd, 'y, 'i, 'k, 'r) process ConfigWatcher" where
  "process_start proj eventfd file lw mw dw ino kw rw = ConfigWatcher_new
     \<lparr>app_file = file,
      app_daemon = Daemon_new (Some \<lparr>ld_world = lw, services = [], ld_io_ctx = None, inotify_mgr = False, chain_mgr = None\<rparr>),
      app_monitor = MonitorSubscriber_new mw (Some []), app_debug = DebugServer_new dw,
      pr_signal = Signal_instance eventfd None, pr_log = log_init proj, pr_inotify = InotifyManager_new ino,
      pr_chains = PinnedProgMap_new kw, pr_klog_map = RingBufferMap_new rw 0 False False PATH_PIN, pr_klog = None\<rparr>"

section \<open>The consumer, when nobody stops it\<close>

text \<open>
  \<^verbatim>\<open>consumeLoop\<close> on its own: nothing is put into the queue any more and the running flag stays as it is. A
  status that does not convert ends the loop by its exception.
\<close>

datatype consumer_pc = Loop_top | In_pop | Loop_left

inductive consumer_step :: "('j \<Rightarrow> bool) \<Rightarrow> bool \<Rightarrow> 'j Queue \<times> consumer_pc \<Rightarrow> 'j Queue \<times> consumer_pc \<Rightarrow> bool"
  for takes :: "'j \<Rightarrow> bool" and on :: bool where
  turn: "on \<Longrightarrow> consumer_step takes on (q, Loop_top) (q, In_pop)"
| leave: "\<not> on \<Longrightarrow> consumer_step takes on (q, Loop_top) (q, Loop_left)"
| nothing: "queue_pop q = Some (None, q') \<Longrightarrow> consumer_step takes on (q, In_pop) (q', Loop_top)"
| taken: "queue_pop q = Some (Some v, q') \<Longrightarrow> takes v \<Longrightarrow> consumer_step takes on (q, In_pop) (q', Loop_top)"
| thrown: "queue_pop q = Some (Some v, q') \<Longrightarrow> \<not> takes v \<Longrightarrow> consumer_step takes on (q, In_pop) (q', Loop_left)"

definition consumer_ends :: "('j \<Rightarrow> bool) \<Rightarrow> bool \<Rightarrow> 'j Queue \<Rightarrow> bool" where
  "consumer_ends takes on q \<longleftrightarrow> \<not> on \<or> \<not> q_stopped q \<and> (\<exists>v \<in> set (q_items q). \<not> takes v)"

lemma consumer_stays:
  assumes "(consumer_step takes on)\<^sup>*\<^sup>* p p'" and "\<not> consumer_ends takes on (fst p)" and "snd p \<noteq> Loop_left"
  shows "\<not> consumer_ends takes on (fst p') \<and> snd p' \<noteq> Loop_left"
  using assms
proof (induction rule: rtranclp_induct)
  case (step y z)
  from step.hyps(2) step.IH [OF step.prems] show ?case
    by (cases rule: consumer_step.cases)
      (auto simp: consumer_ends_def queue_pop_def queue_tryPop_def split: if_splits list.splits)
qed simp

text \<open>Joining the thread returns exactly when the loop can come to its end.\<close>

lemma consumer_ends_iff:
  "consumer_ends takes on q \<longleftrightarrow> (\<exists>q'. (consumer_step takes on)\<^sup>*\<^sup>* (q, Loop_top) (q', Loop_left))"
proof
  assume "consumer_ends takes on q"
  then show "\<exists>q'. (consumer_step takes on)\<^sup>*\<^sup>* (q, Loop_top) (q', Loop_left)"
  proof (induction "q_items q" arbitrary: q)
    case Nil
    then have "consumer_step takes on (q, Loop_top) (q, Loop_left)"
      by (auto simp: consumer_ends_def intro: consumer_step.leave)
    then show ?case by blast
  next
    case (Cons v vs)
    show ?case
    proof (cases on)
      case False
      then have "consumer_step takes on (q, Loop_top) (q, Loop_left)" by (rule consumer_step.leave)
      then show ?thesis by blast
    next
      case True
      let ?q = "q\<lparr>q_items := vs\<rparr>"
      have pop: "queue_pop q = Some (Some v, ?q)" and turn: "consumer_step takes on (q, Loop_top) (q, In_pop)"
        using Cons True by (auto simp: queue_pop_def queue_tryPop_def consumer_ends_def Cons.hyps(2) [symmetric]
            intro: consumer_step.turn)
      show ?thesis
      proof (cases "takes v")
        case False
        from consumer_step.thrown [of q v ?q takes on, OF pop this] turn show ?thesis
          by (meson converse_rtranclp_into_rtranclp rtranclp.rtrancl_refl)
      next
        case taken: True
        have "consumer_ends takes on ?q"
          using Cons.prems True taken by (auto simp: consumer_ends_def Cons.hyps(2) [symmetric])
        from Cons.hyps(1) [OF _ this] consumer_step.taken [of q v ?q takes on, OF pop taken] turn show ?thesis
          by simp (meson converse_rtranclp_into_rtranclp)
      qed
    qed
  qed
next
  assume "\<exists>q'. (consumer_step takes on)\<^sup>*\<^sup>* (q, Loop_top) (q', Loop_left)"
  then show "consumer_ends takes on q"
    using consumer_stays [of takes on "(q, Loop_top)"] by fastforce
qed

section \<open>The local objects at the end\<close>

text \<open>The destructor of a thread joins it.\<close>

definition join_consumer :: "('j \<Rightarrow> bool) \<Rightarrow> (unit, ('m, 'j) MonitorSubscriber) st" where
  "join_consumer takes s =
     (if \<not> consumer_thread s then (Inr (), s)
      else case ms_queue s of
        None \<Rightarrow> (Inl Crash, s)
      | Some q \<Rightarrow>
          if consumer_ends takes (ms_running s) q then (Inr (), s\<lparr>consumer_thread := False\<rparr>) else (Inl Diverge, s))"

definition join_producer :: "(unit, ('l, 'j) Daemon) st" where
  "join_producer s =
     (if producer_thread s \<and> running s then (Inl Diverge, s) else (Inr (), s\<lparr>producer_thread := False\<rparr>))"

text \<open>Services that are still in the loader's table: instance first, then library. They are not stopped.\<close>

definition drop_row :: "('w, 'k, 'j) loader_env \<Rightarrow> ServiceHandle \<Rightarrow> 'w \<Rightarrow> 'w" where
  "drop_row E h w0 =
     (let w1 = (case sh_instance h of None \<Rightarrow> w0 | Some i \<Rightarrow> i_destroy (le_dl E) w0 i)
      in case sh_handle h of None \<Rightarrow> w1 | Some d \<Rightarrow> d_close (le_dl E) w1 d)"

definition Loader_destroy :: "('w, 'k, 'j) loader_env \<Rightarrow> ('w, 'k) Loader \<Rightarrow> ('w, 'k) Loader" where
  "Loader_destroy E s0 =
     (let s = Loader_clear s0
      in s\<lparr>ld_world := fold (\<lambda>(p, h). drop_row E h) (services s) (ld_world s), services := []\<rparr>)"

definition drop_klog :: "('w, 'k, 'j, 'm, 'd, 'y, 'i, 'r) process_env \<Rightarrow>
    (('w, 'k) Loader, 'j, 'm, 'd, 'y, 'i, 'k, 'r) process \<Rightarrow> (('w, 'k) Loader, 'j, 'm, 'd, 'y, 'i, 'k, 'r) process" where
  "drop_klog P w =
     (case pr_klog w of
        None \<Rightarrow> w
      | Some rb \<Rightarrow>
          w\<lparr>pr_klog := None,
            pr_klog_map := (pr_klog_map w)\<lparr>pm_kernel := Klog_destroy (pe_rb P) rb (pr_klog_map w)\<rparr>\<rparr>)"

text \<open>The loader points to the manager of the chains; what it made of it is the manager's state now.\<close>

definition the_chains :: "(('w, 'k) Loader, 'j, 'm, 'd, 'y, 'i, 'k, 'r) process \<Rightarrow> 'k PinnedProgMap" where
  "the_chains w =
     (case Option.bind (d_loader (app_daemon w)) chain_mgr of None \<Rightarrow> pr_chains w | Some mgr \<Rightarrow> mgr)"

definition drop_rest :: "('w, 'k, 'j, 'm, 'd, 'y, 'i, 'r) process_env \<Rightarrow>
    (('w, 'k) Loader, 'j, 'm, 'd, 'y, 'i, 'k, 'r) process \<Rightarrow> (('w, 'k) Loader, 'j, 'm, 'd, 'y, 'i, 'k, 'r) process" where
  "drop_rest P w =
     w\<lparr>app_daemon := (app_daemon w)\<lparr>d_loader := map_option (Loader_destroy (pe_loader P)) (d_loader (app_daemon w))\<rparr>,
       pr_chains := PinnedProgMap_cleanup (pe_fs P) (the_chains w),
       app_debug := (app_debug w)\<lparr>acceptor := None,
         ds_world := (case acceptor (app_debug w) of
                        None \<Rightarrow> ds_world (app_debug w)
                      | Some a \<Rightarrow> as_destroy (pe_asio P) a (ds_world (app_debug w)))\<rparr>\<rparr>"

text \<open>
  The destructors in reverse order of declaration: the kernel log, the monitor, whose thread is joined, the
  watcher, if it was made, the daemon, whose thread is joined, with its loader, and the manager of the chains.
  The debug server's acceptor comes last: a pending accept keeps the server until the I/O context goes.
\<close>

definition process_unwind :: "('w, 'k, 'j, 'm, 'd, 'y, 'i, 'r) process_env \<Rightarrow>
    (unit, (('w, 'k) Loader, 'j, 'm, 'd, 'y, 'i, 'k, 'r) process ConfigWatcher) st" where
  "process_unwind P =
     st_bind (st_mod (\<lambda>s. s\<lparr>cw_world := drop_klog P (cw_world s)\<rparr>)) (\<lambda>_.
     st_bind (on_monitor (join_consumer (pe_takes P))) (\<lambda>_.
     st_bind (st_get (\<lambda>s. subscribers s = [])) (\<lambda>no_watcher.
     st_bind (if no_watcher then st_ret () else watcher_clear (pe_build P) (process_ops P)) (\<lambda>_.
     st_bind (on_daemon join_producer) (\<lambda>_.
     st_mod (\<lambda>s. s\<lparr>cw_world := drop_rest P (cw_world s)\<rparr>))))))"

text \<open>\<^verbatim>\<open>main\<close> on these parts; \<open>parsed\<close> is what the command line gave.\<close>

definition run_main :: "('w, 'k, 'j, 'm, 'd, 'y, 'i, 'r) process_env \<Rightarrow>
    (unit, (('w, 'k) Loader, 'j, 'm, 'd, 'y, 'i, 'k, 'r) process ConfigWatcher) st \<Rightarrow> (CmdlineConfig \<times> bool) res \<Rightarrow>
    (int, (('w, 'k) Loader, 'j, 'm, 'd, 'y, 'i, 'k, 'r) process ConfigWatcher) st" where
  "run_main P generate parsed = main (pe_proj P) (exec_call P) generate (process_unwind P) parsed"

section \<open>What the parts preserve\<close>

lemma keeps_on_part: "(\<And>p w. g (put p w) = g w) \<Longrightarrow> st_keeps (\<lambda>s. g (cw_world s)) (on_part get put m)"
  by (simp add: st_keeps_def on_part_def split: prod.split)

lemma keeps_on_part_watcher [keeps]:
  "st_keeps config_path (on_part get put m)" "st_keeps subscribers (on_part get put m)"
  by (simp_all add: st_keeps_def on_part_def split: prod.split)

lemma safe_on_part:
  assumes "st_safe R m" and "\<And>w. Q w \<Longrightarrow> R (get w)" and "\<And>p w. Q w \<Longrightarrow> R p \<Longrightarrow> Q (put p w)"
  shows "st_safe (\<lambda>s. Q (cw_world s)) (on_part get put m)"
  using assms by (fastforce simp: st_safe_def on_part_def split: prod.splits)

lemma safe_in_world:
  "st_safe Q f \<Longrightarrow> st_safe (\<lambda>s. Q (cw_world s)) (in_world f)"
  by (auto simp: st_safe_def in_world_def split: prod.splits)

lemma safe_world: "(\<And>s. cw_world (g s) = cw_world s) \<Longrightarrow> st_safe (\<lambda>s. Q (cw_world s)) (st_mod g)"
  by (rule safe_mod) simp

lemma safe_loadConfig:
  assumes "\<And>i c. st_safe Q (w_update W i c)"
  shows "st_safe (\<lambda>s. Q (cw_world s)) (loadConfig W)"
  unfolding loadConfig_def watcher_notify_def
  by (intro safe safe_each safe_in_world assms safe_world) (simp_all add: st_safe_def)

lemma safe_attach:
  assumes "\<And>i c. st_safe Q (w_update W i c)"
  shows "st_safe (\<lambda>s. Q (cw_world s)) (watcher_attach W x)"
  unfolding watcher_attach_def
  by (intro safe safe_in_world assms safe_world) simp

lemma safe_startWatching:
  assumes "\<And>i c. st_safe Q (w_update W i c)" and "\<And>p. st_safe Q (w_watch W p)"
  shows "st_safe (\<lambda>s. Q (cw_world s)) (startWatching W p)"
  unfolding startWatching_def
  by (intro safe safe_in_world safe_loadConfig assms safe_world) simp

text \<open>The daemon over its loader stays good, and a monitor or a consumer needs the running flag.\<close>

definition ms_sound :: "('m, 'j) MonitorSubscriber \<Rightarrow> bool" where
  "ms_sound m \<longleftrightarrow> (monitor m \<noteq> None \<or> consumer_thread m \<longrightarrow> ms_running m)"

definition parts_ok :: "(('w, 'k) Loader, 'j, 'm, 'q, 'd, 'y, 'z) app_scheme \<Rightarrow> bool" where
  "parts_ok w \<longleftrightarrow> d_good services_live (app_daemon w) \<and> ms_sound (app_monitor w)"

lemma safe_ms [safe]: "st_safe ms_sound (ms_run b F a)" "st_safe ms_sound (ms_stop b F)"
  by (auto simp: st_safe_def ms_sound_def ms_run_def ms_stop_def ms_create_def on_queue_def st_simps hb_assert_def
      split: if_splits prod.splits sum.splits option.splits build.splits)

lemma safe_ms_update [safe]: "st_safe ms_sound (ms_update b F c)"
  unfolding ms_update_def by (intro safe)

lemma tracks_safe: "tracks good loaded f m \<Longrightarrow> st_safe (d_good good) m"
  by (auto simp: tracks_def st_safe_def)

lemma safe_daemon [safe]:
  "st_safe (d_good services_live) (Daemon_update D (the_loader E) c)"
  "st_safe (d_good services_live) (Daemon_stop D (the_loader E))"
proof -
  show "st_safe (d_good services_live) (Daemon_update D (the_loader E) c)"
    unfolding st_safe_def using ld.update_tracks by blast
  have unload: "st_safe (d_good services_live) (unloadEbpf D (the_loader E) p)" for p
    by (rule tracks_safe [OF ld.unload_tracks])
  show "st_safe (d_good services_live) (Daemon_stop D (the_loader E))"
    unfolding Daemon_stop_def by (intro safe safe_each safe_mod unload) (simp_all add: d_good_def)
qed

lemma safe_app_update: "st_safe parts_ok (app_update D (the_loader E) b F A i c)"
  using st_safeD [OF safe_daemon(1)] st_safeD [OF safe_ms_update]
  by (fastforce simp: st_safe_def parts_ok_def app_update_def split: prod.splits if_splits)

section \<open>What the calls preserve\<close>

lemma process_ops_simps [simp]:
  "w_update (process_ops P) = app_update (pe_daemon P) (the_loader (pe_loader P)) (pe_build P) (pe_factory P) (pe_asio P)"
  "w_inotify (process_ops P) w" "w_alive (process_ops P) w i"
  "w_watch (process_ops P) path w = (case watchConfig (pe_build P) (pe_inotify P) path () (pr_inotify w) of
     (r, p) \<Rightarrow> (r, w\<lparr>pr_inotify := p\<rparr>))"
  "w_goodbye (process_ops P) path w = (case goodbyeConfig (pe_build P) (pe_inotify P) path (pr_inotify w) of
     (r, p) \<Rightarrow> (r, w\<lparr>pr_inotify := p\<rparr>))"
  by (simp_all add: process_ops_def app_ops_def)

lemma parts_ok_simps [simp]:
  "parts_ok (w\<lparr>app_file := f\<rparr>) = parts_ok w" "parts_ok (w\<lparr>app_debug := g\<rparr>) = parts_ok w"
  "parts_ok (v\<lparr>pr_signal := s\<rparr>) = parts_ok v" "parts_ok (v\<lparr>pr_log := l\<rparr>) = parts_ok v"
  "parts_ok (v\<lparr>pr_inotify := i\<rparr>) = parts_ok v" "parts_ok (v\<lparr>pr_chains := c\<rparr>) = parts_ok v"
  "parts_ok (v\<lparr>pr_klog_map := k\<rparr>) = parts_ok v" "parts_ok (v\<lparr>pr_klog := r\<rparr>) = parts_ok v"
  by (simp_all add: parts_ok_def)

lemma safe_any [safe]: "st_safe (\<lambda>_. True) m"
  by (simp add: st_safe_def)

text \<open>Calls on a part that the invariant does not speak of, on the daemon and on the monitor.\<close>

lemma safe_other_part [safe]:
  "st_safe (\<lambda>s. parts_ok (cw_world s)) (on_signal m1)" "st_safe (\<lambda>s. parts_ok (cw_world s)) (on_log m2)"
  "st_safe (\<lambda>s. parts_ok (cw_world s)) (on_manager m3)" "st_safe (\<lambda>s. parts_ok (cw_world s)) (on_chains m4)"
  "st_safe (\<lambda>s. parts_ok (cw_world s)) (on_klog m5)" "st_safe (\<lambda>s. parts_ok (cw_world s)) (on_debug m6)"
  by (rule safe_on_part [where R = "\<lambda>_. True"]; simp add: safe_any)+

lemma safe_on_daemon: "st_safe (d_good services_live) m \<Longrightarrow> st_safe (\<lambda>s. parts_ok (cw_world s)) (on_daemon m)"
  by (rule safe_on_part) (auto simp: parts_ok_def)

lemma safe_on_monitor: "st_safe ms_sound m \<Longrightarrow> st_safe (\<lambda>s. parts_ok (cw_world s)) (on_monitor m)"
  by (rule safe_on_part) (auto simp: parts_ok_def)

lemma safe_set_up: "(\<And>l. services (snd (m l)) = services l) \<Longrightarrow> st_safe (d_good services_live) (on_loader m)"
  by (auto simp: st_safe_def on_loader_def d_good_def services_live_def split: option.splits prod.splits)
    (metis snd_conv)+

lemma safe_w_watch: "st_safe parts_ok (w_watch (process_ops P) path)"
  by (auto simp: st_safe_def split: prod.splits)

lemma safe_on_event [safe]: "st_safe (\<lambda>s. parts_ok (cw_world s)) (on_event P ev)"
  unfolding on_event_def on_config_event_def
  by (intro safe safe_mod safe_loadConfig) (simp_all add: safe_app_update)

lemma safe_call: "st_safe (\<lambda>s. parts_ok (cw_world s)) (run_call (exec_call P) c)"
proof -
  have "st_safe (\<lambda>s. parts_ok (cw_world s)) (exec_call P c)"
    unfolding and_true_def
    by (cases c; simp only: exec_call.simps and_true_def;
        intro safe safe_on_daemon safe_on_monitor safe_set_up safe_mod safe_each safe_attach safe_startWatching)
      (auto simp: safe_app_update safe_w_watch setIoContext_def setInotifyManager_def setProgChainManager_def
        ms_setQueue_def ms_sound_def d_good_def setStatusQueue_def Daemon_run_def)
  then show ?thesis unfolding run_call_def by (intro safe)
qed

section \<open>From the signal to the end\<close>

lemma on_part_iff:
  "on_part get put m s = (r, s') \<longleftrightarrow> (\<exists>p. m (get (cw_world s)) = (r, p) \<and> s' = s\<lparr>cw_world := put p (cw_world s)\<rparr>)"
  by (auto simp: on_part_def split: prod.split)

lemma and_true_iff: "and_true m s = (Inr ok, s') \<longleftrightarrow> ok \<and> (\<exists>x. m s = (Inr x, s'))"
  by (auto simp: and_true_def st_bind_Inr_iff st_ret_def)

lemma run_call_iff: "run_call exec c s = (Inr u, s') \<longleftrightarrow> (\<exists>ok. exec c s = (Inr ok, s') \<and> (must c \<longrightarrow> ok))"
  by (auto simp: run_call_def st_bind_Inr_iff st_ret_def st_throw_def split: if_splits)

lemmas call_runs = run_call_iff and_true_iff on_part_iff must_def

definition stopped_parts :: "(('w, 'k) Loader, 'j, 'm, 'd, 'y, 'i, 'k, 'r) process \<Rightarrow> bool" where
  "stopped_parts w \<longleftrightarrow>
     d_loaded loaded_paths (app_daemon w) = {} \<and> current_ebpf (app_daemon w) = [] \<and> \<not> running (app_daemon w) \<and>
     \<not> producer_thread (app_daemon w) \<and> status_queue (app_daemon w) = None \<and>
     monitor (app_monitor w) = None \<and> \<not> consumer_thread (app_monitor w) \<and> \<not> ms_running (app_monitor w) \<and>
     im_map (pr_inotify w) = [] \<and> rm_fd (pr_klog_map w) < 0 \<and> \<not> rm_initialized (pr_klog_map w) \<and>
     g_stop (pr_signal w)"

lemma keeps_running_loader [keeps]: "st_keeps running (on_loader m)"
  by (auto simp: st_keeps_def on_loader_def split: option.split prod.split)

lemma keeps_running [keeps]:
  "st_keeps running (loadEbpf D L p h i c)" "st_keeps running (unloadEbpf D L p)"
  "st_keeps running (rebuild_chains D L new)"
  unfolding loadEbpf_def unloadEbpf_def rebuild_chains_def by (intro keeps keeps_each)+

lemma keeps_running_update: "st_keeps running (Daemon_update D L c)"
  unfolding Daemon_update_def sync_service_def by (intro keeps keeps_each) simp

lemma running_update: "Daemon_update D L c s = (r, s') \<Longrightarrow> running s' = running s"
  by (rule st_keepsD [OF keeps_running_update])

lemma safe_running_event: "st_safe (\<lambda>s. running (app_daemon (cw_world s))) (on_event P ev)"
proof -
  have "st_safe (\<lambda>w. running (app_daemon w)) (w_update (process_ops P) i c)" for i c
    by (auto simp: st_safe_def app_update_def dest: running_update split: prod.splits if_splits)
  then show ?thesis
    unfolding on_event_def on_config_event_def
    by (intro safe safe_mod safe_loadConfig safe_on_part [where R = "\<lambda>_. True"]) simp_all
qed

lemma events_keep_running:
  "st_each (on_event P) evs s = (Inr (), s') \<Longrightarrow> running (app_daemon (cw_world s)) \<Longrightarrow> running (app_daemon (cw_world s'))"
  using st_safeD [OF safe_each [of evs "\<lambda>s. running (app_daemon (cw_world s))" "on_event P"]]
  by (fastforce simp: safe_running_event)

lemma destroyManager_empties: "destroyManager b K m = (Inr (), m') \<Longrightarrow> im_map m' = []"
  by (auto simp: destroyManager_def st_bind_Inr_iff st_mod_def)

lemma handler_stops: "commonSignalHandler b sig s = (Inr out, s') \<Longrightarrow> g_stop s'"
  by (auto simp: commonSignalHandler_def st_bind_Inr_iff st_ret_def dest: stop_is_signalled_once)

lemma ms_stop_clears:
  "ms_sound m \<Longrightarrow> ms_stop b F m = (Inr (), m') \<Longrightarrow> monitor m' = None \<and> \<not> consumer_thread m' \<and> \<not> ms_running m'"
  by (auto simp: ms_sound_def ms_stop_def on_queue_def st_simps hb_assert_def
      split: if_splits sum.splits option.splits build.splits)

lemma call_ok: "run_call (exec_call P) c s = (Inr (), s') \<Longrightarrow> parts_ok (cw_world s) \<Longrightarrow> parts_ok (cw_world s')"
  using st_safeD [OF safe_call] by fastforce

text \<open>The end of the list of calls, from any sound state.\<close>

lemma closing_calls:
  assumes "parts_ok (cw_world s)"
    and "st_each (run_call (exec_call P)) [DaemonRun, WaitForStop, DebugDetachDaemon, DebugStop, DestroyManager,
           DaemonStop, MonitorStop, KlogUnpin] s = (Inr (), s')"
  shows "stopped_parts (cw_world s')"
proof -
  obtain s1 s2 s3 s4 s5 s6 s7 where run:
    "run_call (exec_call P) DaemonRun s = (Inr (), s1)" "run_call (exec_call P) WaitForStop s1 = (Inr (), s2)"
    "run_call (exec_call P) DebugDetachDaemon s2 = (Inr (), s3)" "run_call (exec_call P) DebugStop s3 = (Inr (), s4)"
    "run_call (exec_call P) DestroyManager s4 = (Inr (), s5)" "run_call (exec_call P) DaemonStop s5 = (Inr (), s6)"
    "run_call (exec_call P) MonitorStop s6 = (Inr (), s7)" "run_call (exec_call P) KlogUnpin s7 = (Inr (), s')"
    using assms(2) by (auto simp: st_bind_Inr_iff st_ret_def)
  have ok: "parts_ok (cw_world s5)" "parts_ok (cw_world s6)"
    using run assms(1) by (blast intro: call_ok)+
  have "running (app_daemon (cw_world s1))"
    using run(1) by (auto simp: call_runs st_mod_def Daemon_run_def)
  then have "running (app_daemon (cw_world s2))" and stop: "g_stop (pr_signal (cw_world s2))"
    using run(2) by (auto simp: call_runs st_bind_Inr_iff dest: handler_stops events_keep_running)
  then have on: "running (app_daemon (cw_world s5))" and im: "im_map (pr_inotify (cw_world s5)) = []"
    and sig: "pr_signal (cw_world s5) = pr_signal (cw_world s2)"
    using run(3-5) by (auto simp: call_runs st_mod_def dest: destroyManager_empties)
  obtain d where d: "Daemon_stop (pe_daemon P) (the_loader (pe_loader P)) (app_daemon (cw_world s5)) = (Inr (), d)"
    and s6: "s6 = s5\<lparr>cw_world := (cw_world s5)\<lparr>app_daemon := d\<rparr>\<rparr>"
    using run(6) by (auto simp: call_runs)
  obtain m where m: "ms_stop (pe_build P) (pe_factory P) (app_monitor (cw_world s6)) = (Inr (), m)"
    and s7: "s7 = s6\<lparr>cw_world := (cw_world s6)\<lparr>app_monitor := m\<rparr>\<rparr>"
    using run(7) by (auto simp: call_runs)
  have s': "s' = s7\<lparr>cw_world := (cw_world s7)\<lparr>pr_klog_map := Klog_unpin (pe_rb P) (pr_klog_map (cw_world s7))\<rparr>\<rparr>"
    using run(8) by (auto simp: call_runs st_mod_def)
  have "d_good services_live (app_daemon (cw_world s5))" "ms_sound (app_monitor (cw_world s6))"
    using ok by (auto simp: parts_ok_def)
  with ld.stop_unloads_all [OF _ on d] ms_stop_clears [OF _ m] im stop sig show ?thesis
    by (simp add: stopped_parts_def s' s7 s6 Klog_unpin_def RingBufferMap_cleanup_def Let_def)
qed

section \<open>A run that succeeds\<close>

lemma st_unwind_Inr: "st_unwind u m s = (Inr x, s') \<longleftrightarrow> (\<exists>s1. m s = (Inr x, s1) \<and> u s1 = (Inr (), s'))"
  by (auto simp: st_unwind_def split: prod.splits sum.splits if_splits)

lemma st_bind_res: "st_bind (st_res (Inr x)) f = f x"
  by (simp add: fun_eq_iff st_simps)

lemma run_main_calls:
  assumes "\<not> cc_help cc" and "\<not> cc_gen_empty cc"
  shows "run_main P generate (Inr (cc, True)) =
    st_catch (st_unwind (process_unwind P)
      (st_bind (st_each (run_call (exec_call P)) (signal_calls @ main_calls (pe_proj P) cc)) (\<lambda>_. st_ret 0)))
      (\<lambda>e. st_ret 1)"
  using assms by (simp add: run_main_def main_def st_bind_res st_each_append st_bind_assoc)

lemma run_main_success:
  assumes "run_main P generate (Inr (cc, True)) s = (Inr 0, s')" and "\<not> cc_help cc" and "\<not> cc_gen_empty cc"
  shows "\<exists>s1. st_each (run_call (exec_call P)) (signal_calls @ main_calls (pe_proj P) cc) s = (Inr (), s1) \<and>
    process_unwind P s1 = (Inr (), s')"
proof -
  have "st_unwind (process_unwind P)
      (st_bind (st_each (run_call (exec_call P)) (signal_calls @ main_calls (pe_proj P) cc)) (\<lambda>_. st_ret (0 :: int))) s = (Inr 0, s')"
    using assms(1) unfolding run_main_calls [OF assms(2,3)]
    by (auto simp: st_catch_def st_ret_def split: prod.splits sum.splits if_splits)
  then show ?thesis
    by (auto simp: st_unwind_Inr st_bind_Inr_iff st_ret_def)
qed

lemma goodbye_part:
  "in_world (w_goodbye (process_ops P) path) = on_manager (goodbyeConfig (pe_build P) (pe_inotify P) path)"
  by (auto simp: in_world_def on_part_def fun_eq_iff split: prod.split)

lemma keeps_clear:
  assumes "\<And>p w. g (w\<lparr>pr_inotify := p\<rparr>) = g w"
  shows "st_keeps (\<lambda>s. g (cw_world s)) (watcher_clear b (process_ops P))"
  unfolding watcher_clear_def goodbye_part by (intro keeps keeps_on_part assms)

lemma no_rows_left: "d_loaded loaded_paths d = {} \<Longrightarrow> map_option (Loader_destroy E) (d_loader d) = d_loader d"
  by (cases "d_loader d") (auto simp: d_loaded_def loaded_paths_def Loader_destroy_def Loader_clear_def Let_def)

lemma unwind_after_stop:
  assumes "stopped_parts (cw_world s1)" and "process_unwind P s1 = (Inr (), s')"
  shows "app_daemon (cw_world s') = app_daemon (cw_world s1) \<and> app_monitor (cw_world s') = app_monitor (cw_world s1) \<and>
    hook_maps (pr_chains (cw_world s')) = [] \<and> pr_klog (cw_world s') = None \<and> acceptor (app_debug (cw_world s')) = None"
proof -
  have klog: "app_daemon (drop_klog P w) = app_daemon w" "app_monitor (drop_klog P w) = app_monitor w"
    "pr_klog (drop_klog P w) = None" for w
    by (simp_all add: drop_klog_def split: option.split)
  obtain m s2 u s3 d where run:
    "join_consumer (pe_takes P) (app_monitor (cw_world s1)) = (Inr (), m)"
    "s2 = s1\<lparr>cw_world := (drop_klog P (cw_world s1))\<lparr>app_monitor := m\<rparr>\<rparr>"
    "(if subscribers s2 = [] then st_ret () else watcher_clear (pe_build P) (process_ops P)) s2 = (u, s3)"
    "join_producer (app_daemon (cw_world s3)) = (Inr (), d)"
    "s' = s3\<lparr>cw_world := drop_rest P ((cw_world s3)\<lparr>app_daemon := d\<rparr>)\<rparr>"
    using assms(2) by (auto simp: process_unwind_def st_bind_Inr_iff st_mod_def st_get_def on_part_iff klog)
  have m: "m = app_monitor (cw_world s1)"
    using run(1) assms(1) by (simp add: join_consumer_def stopped_parts_def)
  have clear: "g (cw_world s3) = g (cw_world s2)" if "\<And>p w. g (w\<lparr>pr_inotify := p\<rparr>) = g w" for g
    using run(3) st_keepsD [OF keeps_clear [OF that]] by (auto simp: st_ret_def split: if_splits)
  have s3: "app_daemon (cw_world s3) = app_daemon (cw_world s1)" "app_monitor (cw_world s3) = app_monitor (cw_world s1)"
    "pr_klog (cw_world s3) = None"
    by (simp_all add: clear run(2) klog m)
  have d: "d = app_daemon (cw_world s1)"
    using run(4) assms(1)
    by (cases "app_daemon (cw_world s1)") (auto simp: s3 join_producer_def stopped_parts_def)
  then show ?thesis
    using assms(1) no_rows_left [of "app_daemon (cw_world s1)" "pe_loader P"]
    by (simp add: run(5) s3 drop_rest_def PinnedProgMap_cleanup_def stopped_parts_def)
qed

lemma process_start_ok: "parts_ok (cw_world (process_start proj eventfd file lw mw dw ino kw rw))"
  by (simp add: process_start_def ConfigWatcher_new_def parts_ok_def d_good_def Daemon_new_def services_live_def
      MonitorSubscriber_new_def ms_sound_def)


text \<open>A machine on which everything can be opened; while the process waits, the file loses its one service.\<close>

definition demo_fs :: "unit fs_ops" where
  "demo_fs =
     \<lparr>fs_stat = (\<lambda>w p. True), fs_mkdir = (\<lambda>w p. (0, w)), fs_is_bpffs = (\<lambda>w p. True), fs_mount = (\<lambda>w p. (True, w)),
      fs_umount = (\<lambda>w p. (True, w)), fs_obj_get = (\<lambda>w p. (5, w)), fs_create_prog_array = (\<lambda>w p n. (-1, w)),
      fs_create_hash = (\<lambda>w p n. (-1, w)), fs_obj_pin = (\<lambda>w f p. (True, w)), fs_unlink = (\<lambda>w p. w), fs_close = (\<lambda>w f. w)\<rparr>"

definition demo_process :: "(nat, unit, unit, string, nat \<times> nat list, yaml, int \<times> (int \<times> string) list, int list) process_env" where
  "demo_process =
     \<lparr>pe_daemon = demo_daemon_env, pe_loader = demo_env, pe_build = build.Release, pe_proj = ''hebpf'',
      pe_factory = demo_factory, pe_asio = demo_asio, pe_yaml = ref_yaml, pe_inotify = ref_inotify, pe_fs = demo_fs,
      pe_progs = [], pe_rb = demo_rb, pe_klog_addr = 100, pe_can_open = (\<lambda>f. True), pe_is_dir = (\<lambda>f. False),
      pe_queue = 4, pe_takes = (\<lambda>j. True),
      pe_events = [(''hebpf.yaml'', Some (Inr (Configs_encode ref_yaml (setEbpfs [(''lb'', ConfigEbpf_new ''lb.so'' [] TC 3 0)] demo_wanted))))]\<rparr>"

definition demo_start :: "((nat, unit) Loader, unit, string, nat \<times> nat list, yaml, int \<times> (int \<times> string) list, unit, int list)
    process ConfigWatcher" where
  "demo_start = process_start ''hebpf'' 6 (Some (Inr (Configs_encode ref_yaml demo_wanted))) 0 [] (0, [])
     \<lparr>io_world = (0, []), io_fd = 3, io_cb = False\<rparr> () []"

definition demo_cmd :: CmdlineConfig where
  "demo_cmd = (CmdlineConfig_default ''hebpf'')\<lparr>cc_config := demo_wanted\<rparr>"

lemma demo_run: "fst (run_main demo_process (st_ret ()) (Inr (demo_cmd, True)) demo_start) = Inr 0"
  by code_simp
lemma demo_cmd_plain: "\<not> cc_help demo_cmd" "\<not> cc_gen_empty demo_cmd"
  by (simp_all add: demo_cmd_def CmdlineConfig_default_def)

section \<open>A start that fails\<close>

text \<open>Before the watcher has its file, a subscriber that is attached is not told anything.\<close>

definition unwatched :: "'w ConfigWatcher \<Rightarrow> bool" where
  "unwatched s \<longleftrightarrow> config_path s = []"

text \<open>The monitor before it is started, and while it runs with a queue that nobody has filled or stopped.\<close>

definition before_run :: "(('w, 'k) Loader, 'j, 'm, 'd, 'y, 'i, 'k, 'r) process ConfigWatcher \<Rightarrow> bool" where
  "before_run s \<longleftrightarrow> unwatched s \<and> (let m = app_monitor (cw_world s)
     in \<not> ms_running m \<and> (\<forall>q. ms_queue m = Some q \<longrightarrow> q_items q = []))"

definition waiting_consumer :: "('m, 'j) MonitorSubscriber \<Rightarrow> bool" where
  "waiting_consumer m \<longleftrightarrow> ms_running m \<and> consumer_thread m \<and>
     (\<exists>q. ms_queue m = Some q \<and> q_items q = [] \<and> \<not> q_stopped q)"

lemma join_never_returns: "waiting_consumer m \<Longrightarrow> join_consumer takes m = (Inl Diverge, m)"
  by (auto simp: waiting_consumer_def join_consumer_def consumer_ends_def)

lemma attach_unwatched:
  "unwatched s \<Longrightarrow> watcher_attach W x s = (Inr (), s\<lparr>subscribers := subscribers s @ [x]\<rparr>)"
  by (simp add: watcher_attach_def unwatched_def st_simps)

text \<open>The calls that touch neither the monitor nor the watcher's file.\<close>

fun sets_up :: "call \<Rightarrow> bool" where
  "sets_up (MonitorRun a) = False"
| "sets_up (StartWatching p) = False"
| "sets_up SetMonitorQueue = False"
| "sets_up WaitForStop = False"
| "sets_up MonitorStop = False"
| "sets_up c = True"

lemma set_up_call:
  assumes "sets_up c" and "unwatched s" and "run_call (exec_call P) c s = (r, s')"
  shows "unwatched s' \<and> app_monitor (cw_world s') = app_monitor (cw_world s)"
proof (cases "\<exists>x. c = Attach x")
  case True
  then show ?thesis
    using assms by (auto simp: run_call_def and_true_def st_bind_def attach_unwatched st_ret_def unwatched_def must_def)
next
  case False
  have "st_keeps config_path (run_call (exec_call P) c)"
    using assms(1) False
    by (cases c; simp only: exec_call.simps and_true_def run_call_def sets_up.simps; intro keeps; simp)
  moreover have "st_keeps (\<lambda>s. app_monitor (cw_world s)) (run_call (exec_call P) c)"
    using assms(1) False
    by (cases c; simp only: exec_call.simps and_true_def run_call_def sets_up.simps; intro keeps keeps_on_part; simp)
  ultimately show ?thesis
    using assms(2,3) by (auto simp: unwatched_def dest: st_keepsD)
qed

lemma monitor_runs:
  assumes "before_run s" and "run_call (exec_call P) (MonitorRun a) s = (Inr (), s')"
  shows "unwatched s' \<and> waiting_consumer (app_monitor (cw_world s'))"
proof -
  obtain m where m: "ms_run (pe_build P) (pe_factory P) a (app_monitor (cw_world s)) = (Inr (), m)"
    and s': "s' = s\<lparr>cw_world := (cw_world s)\<lparr>app_monitor := m\<rparr>\<rparr>"
    using assms(2) by (auto simp: call_runs)
  have "waiting_consumer m"
    using m assms(1)
    by (auto simp: before_run_def Let_def waiting_consumer_def ms_run_def ms_create_def on_queue_def queue_start_def
        st_simps hb_assert_def split: if_splits prod.splits sum.splits option.splits build.splits)
  then show ?thesis using assms(1) by (simp add: s' before_run_def unwatched_def)
qed

text \<open>Watching throws, if at all, before the configuration is loaded.\<close>

lemma failed_watch_keeps_monitor:
  assumes "startWatching (process_ops P) path s = (Inl e, s')" and "catchable e"
  shows "app_monitor (cw_world s') = app_monitor (cw_world s)"
proof -
  have loads: "loadConfig W t = (Inl e, t') \<Longrightarrow> \<not> catchable e" for W :: "'w watch_ops" and t t'
    by (auto simp: loadConfig_run split: sum.splits prod.splits if_splits)
  show ?thesis
    using assms
    by (auto simp: startWatching_def st_simps in_world_def dest: loads split: if_splits prod.splits sum.splits)
qed

lemma set_up_calls:
  assumes "\<forall>c \<in> set cs. sets_up c" and "unwatched s" and "st_each (run_call (exec_call P)) cs s = (Inr (), s')"
  shows "unwatched s' \<and> app_monitor (cw_world s') = app_monitor (cw_world s)"
  using assms
proof (induction cs arbitrary: s)
  case Nil
  then show ?case by (simp add: st_ret_def)
next
  case (Cons c cs)
  then obtain s1 where s1: "run_call (exec_call P) c s = (Inr (), s1)" "st_each (run_call (exec_call P)) cs s1 = (Inr (), s')"
    by (auto simp: st_bind_Inr_iff)
  have "sets_up c" using Cons.prems(1) by simp
  from set_up_call [OF this Cons.prems(2) s1(1)] Cons.IH [OF _ _ s1(2)] Cons.prems(1) show ?case by simp
qed

lemma same_first:
  "xs @ x # ys = us @ x # vs \<Longrightarrow> x \<notin> set xs \<Longrightarrow> x \<notin> set us \<Longrightarrow> xs = us \<and> ys = vs"
proof (induction xs arbitrary: us)
  case Nil
  then show ?case by (cases us) auto
next
  case (Cons y xs)
  then show ?case by (cases us) auto
qed

lemma up_to:
  "us @ c # vs = ms @ w # ws \<Longrightarrow> w \<notin> set us \<Longrightarrow> set us \<subseteq> set ms \<and> (c \<in> set ms \<or> c = w)"
  by (induction us arbitrary: ms) (auto simp: Cons_eq_append_conv)

text \<open>Where a call stands that fails after the monitor is started and before the file is watched.\<close>

lemma failing_call:
  assumes "signal_calls @ main_calls proj cc = pre @ c # post" and "prometheus_enabled (cc_config cc)"
    and "MonitorRun a \<in> set pre" and "StartWatching (CONFIGS_DEFAULT proj) \<notin> set pre"
  obtains front mid where "pre = front @ SetMonitorQueue # MonitorRun a # mid" "\<forall>x \<in> set (front @ mid). sets_up x"
    "sets_up c \<or> c = StartWatching (CONFIGS_DEFAULT proj)"
proof -
  let ?a = "prometheus_listen (cc_config cc)" and ?w = "StartWatching (CONFIGS_DEFAULT proj)"
  let ?front = "signal_calls @ [SetupLog (cc_log cc) (cc_loglevel cc), InitManager, InitChains, SetIoContext,
    SetInotify, SetChains, Attach The_daemon, Attach The_monitor]"
  let ?mid = "[Attach The_debug_server, DebugAttachDaemon]
    @ (if dbgserv_enabled (cc_config cc)
       then [DebugStart (dbgserv_addr (cc_config cc)) (dbgserv_port (cc_config cc))] else []) @ [KlogNew]"
  let ?rest = "[SetStatusQueue, DaemonRun, WaitForStop, DebugDetachDaemon, DebugStop, DestroyManager, DaemonStop,
    MonitorStop, KlogUnpin]"
  have calls: "signal_calls @ main_calls proj cc = (?front @ [SetMonitorQueue]) @ MonitorRun ?a # (?mid @ ?w # ?rest)"
    using assms(2) by (simp add: main_calls_def)
  have mid: "\<forall>x \<in> set ?mid. sets_up x" by simp
  have a: "a = ?a"
  proof -
    have "MonitorRun a \<in> set (signal_calls @ main_calls proj cc)" using assms(1,3) by simp
    then show ?thesis by (auto simp: main_calls_def signal_calls_def split: if_splits)
  qed
  obtain pre1 pre2 where pre: "pre = pre1 @ MonitorRun ?a # pre2" "MonitorRun ?a \<notin> set pre1"
    using split_list_first [OF assms(3)] a by auto
  have "MonitorRun ?a \<notin> set (?front @ [SetMonitorQueue])" by (simp add: signal_calls_def)
  from same_first [OF _ pre(2) this, of "pre2 @ c # post" "?mid @ ?w # ?rest"] assms(1) calls pre(1)
  have parts: "pre1 = ?front @ [SetMonitorQueue]" "pre2 @ c # post = ?mid @ ?w # ?rest" by simp_all
  have "set pre2 \<subseteq> set ?mid \<and> (c \<in> set ?mid \<or> c = ?w)"
    using up_to [OF parts(2)] assms(4) pre(1) by simp
  with mid have "\<forall>x \<in> set (?front @ pre2). sets_up x" "sets_up c \<or> c = ?w"
    by (auto simp: signal_calls_def)
  with that [of ?front pre2] parts(1) pre(1) a show ?thesis by simp
qed

text \<open>
  Claim C33. A start that fails never exits. With Prometheus enabled the monitor runs before the rest is set up;
  when one of the calls between that and the loading of the configuration throws (a debug server address that is
  none, a kernel log that cannot be set up, a configuration file that cannot be watched), the exception does not
  reach the handler: unwinding joins the consumer thread, which waits for a status in a queue that nobody fills
  or stops. \<^verbatim>\<open>main\<close> does not return.
\<close>

theorem failed_start_never_exits:
  assumes "signal_calls @ main_calls (pe_proj P) cc = pre @ c # post" and "prometheus_enabled (cc_config cc)"
    and "MonitorRun addr \<in> set pre" and "StartWatching (CONFIGS_DEFAULT (pe_proj P)) \<notin> set pre"
    and "st_each (run_call (exec_call P)) pre (process_start proj eventfd file lw mw dw ino kw rw) = (Inr (), s1)"
    and "run_call (exec_call P) c s1 = (Inl e, s2)" and "catchable e"
    and "\<not> cc_help cc" and "\<not> cc_gen_empty cc"
  shows "fst (run_main P generate (Inr (cc, True)) (process_start proj eventfd file lw mw dw ino kw rw)) = Inl Diverge"
proof -
  let ?exec = "run_call (exec_call P)" and ?start = "process_start proj eventfd file lw mw dw ino kw rw"
  obtain front mid where pre: "pre = front @ SetMonitorQueue # MonitorRun addr # mid"
    and set_up: "\<forall>x \<in> set (front @ mid). sets_up x" and c: "sets_up c \<or> c = StartWatching (CONFIGS_DEFAULT (pe_proj P))"
    by (rule failing_call [OF assms(1-4)])
  obtain sa sb sc where run: "st_each ?exec front ?start = (Inr (), sa)" "?exec SetMonitorQueue sa = (Inr (), sb)"
    "?exec (MonitorRun addr) sb = (Inr (), sc)" "st_each ?exec mid sc = (Inr (), s1)"
    using assms(5) by (auto simp: pre st_each_append st_bind_Inr_iff)
  have "\<forall>x \<in> set front. sets_up x" using set_up by simp
  from set_up_calls [OF this _ run(1)]
  have "unwatched sa" "app_monitor (cw_world sa) = MonitorSubscriber_new mw (Some [])"
    by (simp_all add: process_start_def ConfigWatcher_new_def unwatched_def)
  then have "before_run sb"
    using run(2) by (auto simp: call_runs st_mod_def before_run_def unwatched_def Let_def ms_setQueue_def
        MonitorSubscriber_new_def Queue_new_def)
  from monitor_runs [OF this run(3)] set_up_calls [OF _ _ run(4)] set_up
  have s1: "unwatched s1" "waiting_consumer (app_monitor (cw_world s1))" by auto
  have "app_monitor (cw_world s2) = app_monitor (cw_world s1)"
    using c set_up_call [OF _ s1(1) assms(6)] failed_watch_keeps_monitor [OF _ assms(7)] assms(6)
    by (auto simp: run_call_def and_true_def st_bind_def st_ret_def must_def split: prod.splits sum.splits)
  with s1(2) have wait: "waiting_consumer (app_monitor (drop_klog P (cw_world s2)))"
    by (simp add: drop_klog_def split: option.split)
  obtain s3 where "process_unwind P s2 = (Inl Diverge, s3)"
    using join_never_returns [OF wait] by (simp add: process_unwind_def st_bind_def st_mod_def on_part_def)
  moreover have "st_each ?exec (signal_calls @ main_calls (pe_proj P) cc) ?start = (Inl e, s2)"
    using assms(5,6) by (simp add: assms(1) st_each_append st_bind_run)
  ultimately show ?thesis
    using assms(7) by (simp add: run_main_calls [OF assms(8,9)] st_catch_def st_unwind_def st_bind_run)
qed


text \<open>The configuration of the demo with a debug server on an address that is none.\<close>

definition bad_address :: "(nat, unit, unit, string, nat \<times> nat list, yaml, int \<times> (int \<times> string) list, int list) process_env" where
  "bad_address = demo_process\<lparr>pe_asio := demo_asio\<lparr>as_address_ok := (\<lambda>a. False)\<rparr>\<rparr>"

definition bad_cmd :: CmdlineConfig where
  "bad_cmd = demo_cmd\<lparr>cc_config := setDebugServerEnabled True demo_wanted\<rparr>"

definition before_debug :: "call list" where
  "before_debug = signal_calls @ take 12 (main_calls ''hebpf'' bad_cmd)"

lemma bad_run:
  "fst (st_each (run_call (exec_call bad_address)) before_debug demo_start) = Inr ()"
  "fst (run_call (exec_call bad_address) (DebugStart ''127.0.0.1'' 9999)
     (snd (st_each (run_call (exec_call bad_address)) before_debug demo_start))) = Inl (StdError ''make_address'')"
  by code_simp+

lemma bad_calls:
  "signal_calls @ main_calls ''hebpf'' bad_cmd = before_debug @ DebugStart ''127.0.0.1'' 9999
     # drop 13 (main_calls ''hebpf'' bad_cmd)"
  "MonitorRun ''0.0.0.0:8080'' \<in> set before_debug" "StartWatching (CONFIGS_DEFAULT ''hebpf'') \<notin> set before_debug"
  "prometheus_enabled (cc_config bad_cmd)" "\<not> cc_help bad_cmd" "\<not> cc_gen_empty bad_cmd"
  by code_simp+

theorem failed_start_never_exits_witness:
  "fst (run_main bad_address (st_ret ()) (Inr (bad_cmd, True)) demo_start) = Inl Diverge"
proof -
  obtain s1 where s1: "st_each (run_call (exec_call bad_address)) before_debug demo_start = (Inr (), s1)"
    using bad_run(1) by (metis prod.collapse)
  obtain s2 where s2: "run_call (exec_call bad_address) (DebugStart ''127.0.0.1'' 9999) s1 =
      (Inl (StdError ''make_address''), s2)"
    using bad_run(2) by (metis prod.collapse s1 snd_conv)
  have proj: "pe_proj bad_address = ''hebpf''" by (simp add: bad_address_def demo_process_def)
  from failed_start_never_exits [of bad_address bad_cmd, unfolded proj, OF bad_calls(1,4,2,3) s1 [unfolded demo_start_def] s2]
  show ?thesis by (simp add: bad_calls(5,6) demo_start_def)
qed

text \<open>
  Without Prometheus a start that fails in a Debug build aborts instead: the watcher was made but watches nothing,
  and its destructor says goodbye to the empty path, on which the manager's assertion fails.
\<close>

lemma failed_debug_start_aborts:
  assumes "pe_build P = build.Debug" and "config_path s = []" and "subscribers s \<noteq> []"
    and "\<not> consumer_thread (app_monitor (cw_world s))"
  shows "fst (process_unwind P s) = Inl Abort"
proof -
  have "app_monitor (drop_klog P (cw_world s)) = app_monitor (cw_world s)"
    by (simp add: drop_klog_def split: option.split)
  then show ?thesis
    using assms
    by (simp add: process_unwind_def on_part_def join_consumer_def watcher_clear_def st_catch_def st_simps goodbye_part
        goodbyeConfig_def getParentDir_def)
qed

text \<open>
  The other end has the same gap: when the daemon's \<^verbatim>\<open>stop\<close> throws, because a service does, the monitor is not
  stopped any more, and its destructor waits for a consumer that waits.
\<close>

lemma failed_stop_hangs:
  assumes "run_call (exec_call P) DaemonStop s = (Inl e, s')"
    and "consumer_thread (app_monitor (cw_world s))" and "ms_queue (app_monitor (cw_world s)) = Some q"
    and "\<not> consumer_ends (pe_takes P) (ms_running (app_monitor (cw_world s))) q"
  shows "fst (process_unwind P s') = Inl Diverge"
proof -
  have "st_keeps (\<lambda>s. app_monitor (cw_world s)) (run_call (exec_call P) DaemonStop)"
    unfolding run_call_def exec_call.simps and_true_def by (intro keeps keeps_on_part) simp
  with assms(1) have "app_monitor (drop_klog P (cw_world s')) = app_monitor (cw_world s)"
    by (auto simp: drop_klog_def dest: st_keepsD split: option.split)
  with assms(2-4) show ?thesis
    by (simp add: process_unwind_def st_bind_def st_mod_def on_part_def join_consumer_def)
qed

end
