(* ===== verification/Hello_Test.thy ===== *)
theory Hello_Test
  imports Examples
begin

text \<open>
  \<^verbatim>\<open>src/test/services/examples/hello/example_hello_test.cc\<close>: the four unit tests as functions of what libbpf
  does, and what their passing says about it.
\<close>

section \<open>The tests\<close>

text \<open>A test passes or not; an error that it does not expect, or that no test can catch, ends it.
  The skeletons of the first two are null, whatever their type.\<close>

definition test_MoveConstructor :: "'w \<Rightarrow> bool" where
  "test_MoveConstructor w =
     (case EbpfSkelIf_move (EbpfSkelIf_new w (None :: unit option)) of (skeleton2, skeleton1) \<Rightarrow> \<not> skel_is_set skeleton1)"

definition test_MoveAssignment :: "'w \<Rightarrow> bool" where
  "test_MoveAssignment w =
     (case skel_move (EbpfSkelIf_new w (None :: unit option)) (EbpfSkelIf_new w None) of (skeleton2, skeleton1) \<Rightarrow> \<not> skel_is_set skeleton1)"

text \<open>\<^verbatim>\<open>start\<close> with its default argument, \<^verbatim>\<open>stop\<close>, and no skeleton left; \<open>throws\<close> is what is expected of \<^verbatim>\<open>start\<close>.\<close>

definition start_and_stop :: "build \<Rightarrow> ('w, 's) skel_ops \<Rightarrow> bool \<Rightarrow> ('w, 's) EbpfSkelIf \<Rightarrow> bool res" where
  "start_and_stop b K throws s =
     (case hello_start b K (\<lambda>_. False) None s of
        (r, s1) \<Rightarrow>
          if (case r of Inl e \<Rightarrow> \<not> catchable e | Inr _ \<Rightarrow> False) then map_sum id (\<lambda>_. False) r
          else
            (case hello_stop b K s1 of
               (Inl e, s2) \<Rightarrow> Inl e
             | (Inr _, s2) \<Rightarrow> Inr (throws = (\<not> is_ok r) \<and> \<not> skel_is_set s2)))"

definition test_IntegratedSuccess :: "build \<Rightarrow> ('w, 's) skel_ops \<Rightarrow> 'w \<Rightarrow> bool res" where
  "test_IntegratedSuccess b K w = start_and_stop b K False (EbpfSkelIf_new w None)"

text \<open>\<open>invalidate\<close> is the write of \<^verbatim>\<open>OBJ_INVALID\<close> into libbpf's object.\<close>

definition test_IntegratedFailure :: "build \<Rightarrow> ('w, 's) skel_ops \<Rightarrow> ('s \<Rightarrow> 'w \<Rightarrow> 'w) \<Rightarrow> 'w \<Rightarrow> bool res" where
  "test_IntegratedFailure b K invalidate w =
     (case sk_open K w of
        (None, w1) \<Rightarrow> Inl Crash
      | (Some sk, w1) \<Rightarrow> start_and_stop b K True (EbpfSkelIf_new (invalidate sk w1) (Some sk)))"

section \<open>What they say\<close>

lemma move_tests_pass: "test_MoveConstructor w" "test_MoveAssignment w"
  by (simp_all add: test_MoveConstructor_def test_MoveAssignment_def EbpfSkelIf_move_def EbpfSkelIf_new_def
      skel_move_def skel_is_set_def)

text \<open>Loading and attaching in a row.\<close>

definition installs :: "('w, 's) skel_ops \<Rightarrow> 's \<Rightarrow> 'w \<Rightarrow> bool" where
  "installs K sk w \<longleftrightarrow> 0 \<le> fst (sk_load K w sk) \<and> 0 \<le> fst (sk_attach K (snd (sk_load K w sk)) sk)"

lemmas hello_run = hello_start_def hello_stop_def skel_defs st_simps skel_is_set_def EbpfSkelIf_new_def

lemma start_and_stop_set: "start_and_stop b K throws (EbpfSkelIf_new w (Some sk)) = Inr (throws = (\<not> installs K sk w))"
  by (auto simp: start_and_stop_def hello_run installs_def split: prod.splits)

text \<open>
  The first integrated test passes exactly when the skeleton opens, loads and attaches; when it does not open,
  \<^verbatim>\<open>start\<close> gives false without a word and \<^verbatim>\<open>stop\<close> meets the null skeleton. The second passes exactly when the
  spoilt object cannot be loaded or attached.
\<close>

lemma integrated_tests:
  "test_IntegratedSuccess b K w =
     (case sk_open K w of
        (None, w1) \<Rightarrow> Inl (case b of Debug \<Rightarrow> Abort | Release \<Rightarrow> Crash)
      | (Some sk, w1) \<Rightarrow> Inr (installs K sk w1))"
  "test_IntegratedFailure b K invalidate w =
     (case sk_open K w of
        (None, w1) \<Rightarrow> Inl Crash
      | (Some sk, w1) \<Rightarrow> Inr (\<not> installs K sk (invalidate sk w1)))"
proof -
  show "test_IntegratedFailure b K invalidate w =
     (case sk_open K w of
        (None, w1) \<Rightarrow> Inl Crash
      | (Some sk, w1) \<Rightarrow> Inr (\<not> installs K sk (invalidate sk w1)))"
    by (simp add: test_IntegratedFailure_def start_and_stop_set split: prod.split option.split)
  obtain sk w1 where "sk_open K w = (sk, w1)" by fastforce
  then show "test_IntegratedSuccess b K w =
     (case sk_open K w of
        (None, w1) \<Rightarrow> Inl (case b of Debug \<Rightarrow> Abort | Release \<Rightarrow> Crash)
      | (Some sk, w1) \<Rightarrow> Inr (installs K sk w1))"
    by (cases sk)
      (auto simp: test_IntegratedSuccess_def start_and_stop_def hello_run installs_def hb_assert_def
        split: prod.splits build.split)
qed

end
