(* ===== verification/Spec2Isabelle.thy ===== *)
theory Spec2Isabelle
  imports Acl_Service Acl_Datapath Lb_Service Lb_Datapath Scheduler Daemon Status_Queue
    Inotify Config_Watcher Monitor Klog Debug_Server Examples Shutdown Logger Io_Context App System
    Service_Names Chain_Install Packet_Path Loader_Chain Packet_Log Metrics_Path Cmdline_Options Stack_Frame Producer_Race Main_Program Hello_Test
begin

text \<open>
  A verification development for hebpf, a daemon that loads eBPF services named in a configuration file
  and keeps them in line with it.

  \<^bold>\<open>The program.\<close> \<^verbatim>\<open>main.cc\<close> builds an I/O thread, an inotify manager, the manager of the tail-call
  chains, a loader, the daemon, the Prometheus subscriber, the debug server and the kernel log, and
  attaches daemon, subscriber and debug server to a watcher of the configuration file. A change of the
  file goes through inotify to the watcher, which loads the file and updates its subscribers in order.
  The daemon reconciles the loaded services with the file through the loader; a service is a shared
  library that installs a packet program (ACL, load balancer, scheduler) or a tracepoint program
  (examples) and turns its own JSON configuration into kernel maps. The packet programs of one interface
  form a chain of tail calls that a scheduler program starts. The daemon's producer thread collects the
  services' metrics into a queue, from which the subscriber's consumer thread feeds Prometheus.

  \<^bold>\<open>Conventions.\<close> C++ classes are records, their member functions state transformers of type
  \<^verbatim>\<open>('a, 's) st\<close>, whose result is a value or an exception together with the state left behind (Prelude).
  A failed \<^verbatim>\<open>ASSERT\<close> aborts a Debug build and falls through in a Release build; both are modelled, by the
  argument \<^verbatim>\<open>build\<close>. Undefined behaviour (null dereference, access outside a buffer) is the value \<open>Crash\<close> or
  \<open>None\<close>. Machine integers keep their width as words. What is not in the repository (the kernel, libbpf,
  the JSON and YAML libraries, spdlog, prometheus-cpp, boost::asio, inotify) is a record of operations
  passed to the definitions that use it; its documented laws are locales, each interpreted on a
  reference implementation that the witnesses run. Where the program has an interface of its own (the
  loader behind the daemon, a hook behind a service, an enumeration), the locale is interpreted on the
  model of the code that provides it, and the properties rest on that interpretation.

  \<^bold>\<open>Theories, from the bottom up.\<close>
  \<^item> Prelude, Enums, Ordered\_Map, Std\_Lib, Kernel\_Maps, Json\_If, Yaml\_If: integers, exceptions, the
    state transformers and what they keep, enumeration names (\<^verbatim>\<open>common/enum_name.hpp\<close>), \<^verbatim>\<open>std::map\<close>, the
    C string functions, bpf(2) map calls, JSON and YAML.
  \<^item> Packet, Acl\_Rules, Acl\_Datapath, Acl\_Service: headers in a frame; the ACL rules and their JSON
    (\<^verbatim>\<open>acl_rules.cc\<close>); the TC and XDP filters (\<^verbatim>\<open>acl.bpf.c\<close>, \<^verbatim>\<open>acl_xdp.bpf.c\<close>), which never leave the packet
    and decide as an abstract filter does; the service (\<^verbatim>\<open>acl_base.tpp\<close>), from a JSON file to the verdict.
  \<^item> Lb\_Rules, Lb\_Datapath, Lb\_Service: the same for the load balancer (\<^verbatim>\<open>lb_rules.cc\<close>, \<^verbatim>\<open>lb_xdp.bpf.c\<close>,
    \<^verbatim>\<open>lb_base.tpp\<close>).
  \<^item> Ebpf\_Skel, Net\_Hook: the life cycle every service inherits (\<^verbatim>\<open>ebpf_if.tpp\<close>) and attaching to a network
    interface (\<^verbatim>\<open>ebpf_net_hook_if.cc\<close>, \<^verbatim>\<open>tc_hook.cc\<close>, \<^verbatim>\<open>xdp_hook.cc\<close>, \<^verbatim>\<open>ebpf_with_net_hook.tpp\<close>, \<^verbatim>\<open>fd.cc\<close>).
  \<^item> Pinned\_Map, Prog\_Map, Scheduler: the BPF file system (\<^verbatim>\<open>pinned_map_if.cc\<close>), regions and order of the
    chains (\<^verbatim>\<open>pinned_prog_map.cc\<close>), and running a chain (\<^verbatim>\<open>ebpf_chain.h\<close>, \<^verbatim>\<open>src/services/scheduler\<close>).
  \<^item> Service\_Names, Chain\_Install: the factories of the services, what they call themselves, the library
    files the build makes of them and their identifiers (\<^verbatim>\<open>ebpf_id.map\<close>); and the chain of an interface
    from the configured libraries over the two maps to the packet.
  \<^item> Packet\_Path, Loader\_Chain: filter and balancer in one chain, from their two configuration files to
    what becomes of a frame; and the chain as \<^verbatim>\<open>updateChain\<close> and one \<^verbatim>\<open>loadService\<close> per library build it.
  \<^item> Ringbuffer, Klog, Packet\_Log, Examples: ring buffers of events and the pinned map behind them (\<^verbatim>\<open>ringbuffer.cc\<close>,
    \<^verbatim>\<open>pinned_ringbuffer_map.cc\<close>), the kernel log from the macro to the logged line (\<^verbatim>\<open>src/services/klog\<close>), the
    calls of the macro in the packet programs, and the two example services.
  \<^item> Configs, Loader, Daemon: the configuration and its YAML (\<^verbatim>\<open>configs.cc\<close>), loading services (\<^verbatim>\<open>loader.cc\<close>),
    and the reconciliation (\<^verbatim>\<open>daemon.cc\<close>).
  \<^item> Inotify, Config\_Watcher, Io\_Context: the kernel's event buffer and the watched files
    (\<^verbatim>\<open>src/inotify\<close>), the watcher (\<^verbatim>\<open>config_watcher.cc\<close>), the I/O thread (\<^verbatim>\<open>io.cc\<close>).
  \<^item> Status\_Queue, Monitor, Metrics\_Path, Debug\_Server, Shutdown, Producer\_Race: the queue, for one caller and for
    threads around its mutex (\<^verbatim>\<open>queue.tpp\<close>); counters, factory and subscriber (\<^verbatim>\<open>src/monitor\<close>); producer, queue and consumer as one
    system, from a service's counter to the Prometheus page; the debug server
    (\<^verbatim>\<open>debug_server.cc\<close>); how the two \<^verbatim>\<open>stop\<close> functions meet the threads they join, and
    the producer beside the threads that unload the services it asks.
  \<^item> Logger, Cmdline\_Options, Stack\_Frame, App, System: the log settings (\<^verbatim>\<open>logger.cc\<close>), the option table
    and what parsing makes of the command line (\<^verbatim>\<open>cmdline.cc\<close>), the text of a stack trace
    (\<^verbatim>\<open>stack_frame.cc\<close>), signals, threads, callbacks and \<^verbatim>\<open>main\<close>, and the components assembled.
  \<^item> Main\_Program, Hello\_Test: every call of \<^verbatim>\<open>main\<close> performed on the component it goes to, from the first
    registered signal to the destructors of its local objects; and the unit tests of the hello service.

  \<^bold>\<open>What is shown.\<close> Safety and function of the packet programs against abstract specifications; that a
  service's configuration file becomes exactly the kernel tables those specifications read; invariants
  of regions, hooks, watches, queue and configurations over any sequence of calls; reconciliation by the
  daemon, on its own and from the rewritten file on; the order in which the configured services see a packet, from the paths
  of their libraries on, and the fate of every frame as a function of the two configuration files;
  delivery of kernel log lines, and that the line a filter logs tells its verdict; that the metrics of the
  services reach Prometheus exactly, over every interleaving of the two threads; that a run of \<^verbatim>\<open>main\<close> which
  succeeds leaves no service, thread, watch or pinned map behind; round trips of YAML and of the event buffer; termination of the shutdown. Where the code does not do
  what it means to, a theorem says what it does: regions that \<^verbatim>\<open>updateChain\<close> skips, chains stale after a
  reorder, schedulers that stay loaded, both \<^verbatim>\<open>stop\<close> functions that can deadlock, a service freed
  while the producer uses it, a debug server that cannot
  be stopped, a log line written behind its buffer, counters that grow without events, a balancer
  before the filter that never sends anything, a failed start that hangs in a destructor, one bad status that ends the metrics, long symbols that stay
  mangled in a stack trace, and others.

  \<^bold>\<open>Bounds and fuel.\<close> Loops of the code are structural recursions or functions with a measure (the event
  buffer, the region search); the key walks of the kernel maps are partial functions, \<open>None\<close> if they do
  not end, and are shown to end under the laws of the map calls. A tail-call chain runs at most
  \<^verbatim>\<open>MAX_TAIL_CALL_CNT\<close> steps, as in the kernel. Endless loops of threads are step relations.

  \<^bold>\<open>Not modelled.\<close> The other log lines (their text does not influence the state; that their logger can be
  made is taken for granted), and headers that only declare an interface. Destructors are modelled where
  they close a descriptor or end a thread. The run of \<^verbatim>\<open>main\<close> takes the changes of the file while it waits, one
  after the other; what the I/O thread does beside the other calls of \<^verbatim>\<open>main\<close> is not interleaved with them.
  Values of type double are left abstract, and Prometheus counters are whole numbers, so the counting
  theorem is exact up to \<open>2\<^sup>5\<^sup>3\<close>.
\<close>

end
